(* ===== verification/Trust_Prelude.thy ===== *)
theory Trust_Prelude
  imports Main "HOL-Library.Word" "HOL-Library.Sublist" "HOL-Library.Char_ord"
    "HOL-Library.List_Lexorder"
begin

text \<open>
  What every component theory shares.

  \<^item> The Go types the sources use: \<open>byte\<close> is an 8-bit word and a byte slice a list of
    them, \<open>uint64\<close> is a 64-bit word (so \<open>+\<close> wraps), \<open>string\<close> is a list of bytes
    written as characters, exactly as Go strings are byte sequences. Signed 64-bit values that
    the code only compares (Unix nanosecond timestamps, lengths, attempt counters) are \<open>int\<close>.
  \<^item> Fallible code: a function returning \<open>(T, error)\<close> is \<open>go_error + 'a\<close> (the error
    type is in theory \<open>Go_Errors\<close>); a function returning only \<open>error\<close> is an
    \<open>option\<close>, with \<open>None\<close> for \<open>nil\<close>. A sequence of early-return checks
    \<open>if err := ...; err != nil { return err }\<close> is \<open>first_err\<close> of the checks in
    source order.
  \<^item> \<open>strings.TrimSpace\<close> and the conversion of a string to its bytes.
\<close>

named_theorems check_simps \<open>facts that unfold a successful chain of early-return checks\<close>
named_theorems size_intros \<open>digest and slice length facts\<close>

type_synonym byte = "8 word"
type_synonym bytes = "8 word list"
type_synonym uint64 = "64 word"
type_synonym int64 = int

section \<open>Chains of early-return checks\<close>

fun first_err :: "'e option list \<Rightarrow> 'e option" where
  "first_err [] = None"
| "first_err (None # cs) = first_err cs"
| "first_err (Some e # cs) = Some e"

definition err_if :: "bool \<Rightarrow> 'e \<Rightarrow> 'e option" where
  "err_if b e = (if b then Some e else None)"

lemma first_err_None [check_simps]: "first_err cs = None \<longleftrightarrow> (\<forall>c \<in> set cs. c = None)"
  by (induction cs rule: first_err.induct) auto

lemma err_if_None [check_simps]: "err_if b e = None \<longleftrightarrow> \<not> b"
  by (simp add: err_if_def)

lemma err_if_True [simp]: "err_if True e = Some e"
  by (simp add: err_if_def)

lemma err_if_False [simp]: "err_if False e = None"
  by (simp add: err_if_def)

lemma first_err_Cons: "first_err (c # cs) = (case c of None \<Rightarrow> first_err cs | Some e \<Rightarrow> Some e)"
  by (cases c) auto

lemma first_err_append: "first_err (cs @ ds) = (case first_err cs of None \<Rightarrow> first_err ds | Some e \<Rightarrow> Some e)"
  by (induction cs rule: first_err.induct) auto

lemma first_err_append_None [check_simps]: "first_err (cs @ ds) = None \<longleftrightarrow> first_err cs = None \<and> first_err ds = None"
  by (simp add: first_err_append split: option.split)

lemma first_err_map_None [check_simps]: "first_err (map f xs) = None \<longleftrightarrow> (\<forall>x \<in> set xs. f x = None)"
  by (auto simp: first_err_None)

lemma first_err_Some: "first_err cs = Some e \<Longrightarrow> Some e \<in> set cs"
  by (induction cs rule: first_err.induct) auto

text \<open>A guarded computation: run the checks, then the rest.\<close>

definition checked :: "'e option \<Rightarrow> ('e + 'a) \<Rightarrow> 'e + 'a" where
  "checked c r = (case c of None \<Rightarrow> r | Some e \<Rightarrow> Inl e)"

lemma checked_Inr [check_simps]: "checked c r = Inr v \<longleftrightarrow> c = None \<and> r = Inr v"
  by (simp add: checked_def split: option.split)

lemma checked_None [simp]: "checked None r = r"
  by (simp add: checked_def)

lemma checked_Some [simp]: "checked (Some e) r = Inl e"
  by (simp add: checked_def)

definition bind_res :: "'e + 'a \<Rightarrow> ('a \<Rightarrow> 'e + 'b) \<Rightarrow> 'e + 'b" where
  "bind_res r f = (case r of Inl e \<Rightarrow> Inl e | Inr v \<Rightarrow> f v)"

lemma bind_res_Inr [check_simps]: "bind_res r f = Inr v \<longleftrightarrow> (\<exists>u. r = Inr u \<and> f u = Inr v)"
  by (simp add: bind_res_def split: sum.split)

lemma bind_res_simps [simp]:
  "bind_res (Inl e) f = Inl e"
  "bind_res (Inr u) f = f u"
  by (simp_all add: bind_res_def)

text \<open>The error of a result, as a check; and an error passed through a wrapper.\<close>

definition err_of :: "'e + 'a \<Rightarrow> 'e option" where
  "err_of r = (case r of Inl e \<Rightarrow> Some e | Inr _ \<Rightarrow> None)"

lemma err_of_None [check_simps]: "err_of r = None \<longleftrightarrow> (\<exists>v. r = Inr v)"
  by (auto simp: err_of_def split: sum.split)

lemma err_of_simps [simp]: "err_of (Inl e) = Some e" "err_of (Inr v) = None"
  by (simp_all add: err_of_def)

definition map_err :: "('e \<Rightarrow> 'f) \<Rightarrow> 'e + 'a \<Rightarrow> 'f + 'a" where
  "map_err f r = (case r of Inl e \<Rightarrow> Inl (f e) | Inr v \<Rightarrow> Inr v)"

lemma map_err_Inr [check_simps]: "map_err f r = Inr v \<longleftrightarrow> r = Inr v"
  by (auto simp: map_err_def split: sum.split)

lemma map_err_simps [simp]: "map_err f (Inl e) = Inl (f e)" "map_err f (Inr v) = Inr v"
  by (simp_all add: map_err_def)

lemma map_option_None [check_simps]: "map_option f c = None \<longleftrightarrow> c = None"
  by simp

text \<open>The same two shapes in a function that returns only an error.\<close>

definition then_err :: "'e option \<Rightarrow> 'e option \<Rightarrow> 'e option" where
  "then_err c r = (case c of None \<Rightarrow> r | Some e \<Rightarrow> Some e)"

lemma then_err_None [check_simps]: "then_err c r = None \<longleftrightarrow> c = None \<and> r = None"
  by (simp add: then_err_def split: option.split)

lemma then_err_simps [simp]: "then_err None r = r" "then_err (Some e) r = Some e"
  by (simp_all add: then_err_def)

definition bind_err :: "'e + 'a \<Rightarrow> ('a \<Rightarrow> 'e option) \<Rightarrow> 'e option" where
  "bind_err r f = (case r of Inl e \<Rightarrow> Some e | Inr v \<Rightarrow> f v)"

lemma bind_err_None [check_simps]: "bind_err r f = None \<longleftrightarrow> (\<exists>v. r = Inr v \<and> f v = None)"
  by (simp add: bind_err_def split: sum.split)

lemma bind_err_simps [simp]: "bind_err (Inl e) f = Some e" "bind_err (Inr v) f = f v"
  by (simp_all add: bind_err_def)

text \<open>A nil interface or pointer argument.\<close>

definition non_nil :: "'e \<Rightarrow> 'a option \<Rightarrow> 'e + 'a" where
  "non_nil e v = (case v of None \<Rightarrow> Inl e | Some x \<Rightarrow> Inr x)"

lemma non_nil_Inr [check_simps]: "non_nil e v = Inr x \<longleftrightarrow> v = Some x"
  by (simp add: non_nil_def split: option.split)

lemma non_nil_simps [simp]: "non_nil e None = Inl e" "non_nil e (Some x) = Inr x"
  by (simp_all add: non_nil_def)

section \<open>Lists\<close>

lemma drop_eq_ConsD: "drop n xs = y # ys \<Longrightarrow> n < length xs \<and> xs ! n = y \<and> drop (Suc n) xs = ys"
  by (metis Cons_nth_drop_Suc drop_all leI list.distinct(1) list.inject)

lemma append_sep_inj:
  "z \<notin> set xs \<Longrightarrow> z \<notin> set ys \<Longrightarrow> xs @ z # us = ys @ z # vs \<longleftrightarrow> xs = ys \<and> us = vs"
proof (induction xs arbitrary: ys)
  case Nil
  then show ?case by (cases ys) auto
next
  case (Cons x xs)
  then show ?case by (cases ys) auto
qed

section \<open>Strings\<close>

text \<open>The UTF-8 encodings of the code points \<open>unicode.IsSpace\<close> accepts.\<close>

definition space_encodings :: "string list" where
  "space_encodings =
     [[CHR 0x09], [CHR 0x0A], [CHR 0x0B], [CHR 0x0C], [CHR 0x0D], [CHR 0x20],
      [CHR 0xC2, CHR 0x85], [CHR 0xC2, CHR 0xA0], [CHR 0xE1, CHR 0x9A, CHR 0x80],
      [CHR 0xE2, CHR 0x80, CHR 0x80], [CHR 0xE2, CHR 0x80, CHR 0x81], [CHR 0xE2, CHR 0x80, CHR 0x82],
      [CHR 0xE2, CHR 0x80, CHR 0x83], [CHR 0xE2, CHR 0x80, CHR 0x84], [CHR 0xE2, CHR 0x80, CHR 0x85],
      [CHR 0xE2, CHR 0x80, CHR 0x86], [CHR 0xE2, CHR 0x80, CHR 0x87], [CHR 0xE2, CHR 0x80, CHR 0x88],
      [CHR 0xE2, CHR 0x80, CHR 0x89], [CHR 0xE2, CHR 0x80, CHR 0x8A], [CHR 0xE2, CHR 0x80, CHR 0xA8],
      [CHR 0xE2, CHR 0x80, CHR 0xA9], [CHR 0xE2, CHR 0x80, CHR 0xAF], [CHR 0xE2, CHR 0x81, CHR 0x9F],
      [CHR 0xE3, CHR 0x80, CHR 0x80]]"

text \<open>Strip leading members of \<open>es\<close>; the empty encoding is never stripped.\<close>

function strip_left :: "string list \<Rightarrow> string \<Rightarrow> string" where
  "strip_left es s =
     (case find (\<lambda>e. e \<noteq> [] \<and> prefix e s) es of
        None \<Rightarrow> s
      | Some e \<Rightarrow> strip_left es (drop (length e) s))"
  by pat_completeness auto
termination
proof (relation "measure (\<lambda>(es, s). length s)")
  fix es :: "string list" and s e :: string
  assume "find (\<lambda>e. e \<noteq> [] \<and> prefix e s) es = Some e"
  then have "e \<noteq> [] \<and> prefix e s"
    by (auto simp: find_Some_iff)
  then show "((es, drop (length e) s), es, s) \<in> measure (\<lambda>(es, s). length s)"
    by (cases e) (auto dest: prefix_length_le)
qed simp

declare strip_left.simps [simp del]

definition TrimSpace :: "string \<Rightarrow> string" where
  "TrimSpace s = rev (strip_left (map rev space_encodings) (rev (strip_left space_encodings s)))"

lemma strip_left_suffix: "suffix (strip_left es s) s"
proof (induction es s rule: strip_left.induct)
  case (1 es s)
  show ?case
  proof (cases "find (\<lambda>e. e \<noteq> [] \<and> prefix e s) es")
    case None
    then show ?thesis by (subst strip_left.simps) simp
  next
    case (Some e)
    then have "suffix (strip_left es (drop (length e) s)) (drop (length e) s)"
      by (rule 1)
    then have "suffix (strip_left es (drop (length e) s)) s"
      using suffix_drop suffix_order.trans by blast
    with Some show ?thesis by (subst strip_left.simps) simp
  qed
qed

lemma TrimSpace_Nil [simp]: "TrimSpace [] = []"
  using strip_left_suffix [of space_encodings "[]"]
    strip_left_suffix [of "map rev space_encodings" "[]"]
  by (simp add: TrimSpace_def)

text \<open>The bytes of a string, \<open>[]byte(s)\<close>.\<close>

definition string_bytes :: "string \<Rightarrow> bytes" where
  "string_bytes s = map (\<lambda>c. word_of_nat (of_char c)) s"

lemma char_byte_inj: "(word_of_nat (of_char c) :: byte) = word_of_nat (of_char d) \<Longrightarrow> c = d"
proof -
  assume "(word_of_nat (of_char c) :: byte) = word_of_nat (of_char d)"
  then have "unat (word_of_nat (of_char c) :: byte) = unat (word_of_nat (of_char d) :: byte)"
    by simp
  then show ?thesis
    using nat_of_char_less_256 [of c] nat_of_char_less_256 [of d] by (simp add: unat_of_nat)
qed

lemma string_bytes_inj: "string_bytes s = string_bytes t \<longleftrightarrow> s = t"
  unfolding string_bytes_def
  by (rule inj_map_eq_map) (rule injI, erule char_byte_inj)

lemma string_bytes_append [simp]: "string_bytes (s @ t) = string_bytes s @ string_bytes t"
  by (simp add: string_bytes_def)

lemma length_string_bytes [simp]: "length (string_bytes s) = length s"
  by (simp add: string_bytes_def)

section \<open>Signed 64-bit arithmetic\<close>

text \<open>Go's \<open>int\<close> and \<open>int64\<close> where overflow matters: the value modulo \<open>2 ^ 64\<close> in two's complement.\<close>

definition wrap64 :: "int \<Rightarrow> int" where
  "wrap64 i = signed_take_bit 63 i"

lemma wrap64_id: "- (2 ^ 63) \<le> i \<Longrightarrow> i < 2 ^ 63 \<Longrightarrow> wrap64 i = i"
  by (simp add: wrap64_def signed_take_bit_int_eq_self)

lemma wrap64_range: "- (2 ^ 63) \<le> wrap64 i" "wrap64 i < 2 ^ 63"
  unfolding wrap64_def
  using signed_take_bit_int_greater_eq_minus_exp [of 63 i] signed_take_bit_int_less_exp [of 63 i] by simp_all

text \<open>A \<open>uint64\<close> below \<open>2 ^ 63\<close> keeps its value when it is converted to \<open>int\<close>.\<close>

lemma sint_small:
  assumes "unat (w :: 64 word) < 2 ^ 63"
  shows "sint w = int (unat w)"
proof -
  have a: "int (unat w) < int (2 ^ 63)" using assms by (simp only: of_nat_less_iff)
  have "int (unat w) < 2 ^ 63" using a by (simp only: of_nat_power of_nat_numeral)
  then have "uint w < 2 ^ 63" by (simp only: uint_nat [symmetric])
  then have "signed_take_bit 63 (uint w) = uint w"
    by (intro signed_take_bit_int_eq_self order_trans [OF _ uint_ge_0]) simp_all
  then show ?thesis by (simp add: sint_uint)
qed

text \<open>Incrementing a \<open>uint64\<close> that is not at its maximum.\<close>

lemma inc_nonzero: "(w :: uint64) \<noteq> - 1 \<Longrightarrow> w + 1 \<noteq> 0"
  by (metis add.commute add_eq_0_iff)

lemma unat_inc: "(w :: uint64) \<noteq> - 1 \<Longrightarrow> unat (w + 1) = Suc (unat w)"
  using unatSuc [of w] inc_nonzero [of w] by (simp add: add.commute)

lemma inc_greater: "(w :: uint64) \<noteq> - 1 \<Longrightarrow> y \<le> w \<Longrightarrow> y < w + 1"
  by (simp add: word_less_nat_alt word_le_nat_alt unat_inc)

end
