(* ===== verification/Go_Errors.thy ===== *)
theory Go_Errors
  imports Trust_Prelude
begin

text \<open>
  The errors of the program: \<open>internal/trusterr\<close>, together with the sentinel errors of
  \<open>internal/cryptosuite\<close> and \<open>internal/trustcrypto\<close> and the staged errors of
  \<open>internal/verify\<close>, as one datatype for Go's \<open>error\<close> interface. A message is the
  format string of the source without its arguments; \<open>%w\<close> keeps the wrapped error,
  so \<open>errors.Is\<close> and \<open>errors.As\<close> walk the same chain as in the program.
\<close>

datatype Code =
    CodeInvalidArgument
  | CodeFailedPrecondition
  | CodeAlreadyExists
  | CodeNotFound
  | CodeResourceExhausted
  | CodeDeadlineExceeded
  | CodeDataLoss
  | CodeInternal

datatype suite_sentinel =
    ErrUnknownSuite
  | ErrUnavailableSuite
  | ErrMixedSuite
  | ErrNamespaceReuse
  | ErrUnboundNonEmptyData

datatype crypto_sentinel =
    ErrUnsupportedAlgorithm
  | ErrUnsupportedEncoding
  | ErrUnsupportedCapability
  | ErrInvalidKeyDescriptor
  | ErrInvalidKeyHandle
  | ErrSignerDestroyed

datatype Stage =
    StageProofBundle
  | StageContent
  | StageClientClaim
  | StageBundleBindings
  | StageAcceptedReceipt
  | StageCommittedReceipt
  | StageBatchMerkle
  | StageGlobalLog
  | StageAnchor

datatype go_error =
    SuiteErr suite_sentinel
  | CryptoErr crypto_sentinel
  | Errorf string "go_error option"
  | Coded Code string "go_error option"
  | StageError Stage go_error

type_synonym 'a res = "go_error + 'a"

abbreviation New_err :: "string \<Rightarrow> go_error" where
  "New_err m \<equiv> Errorf m None"

abbreviation Wrapf :: "string \<Rightarrow> go_error \<Rightarrow> go_error" where
  "Wrapf m e \<equiv> Errorf m (Some e)"

definition New :: "Code \<Rightarrow> string \<Rightarrow> go_error" where
  "New code message = Coded code message None"

definition Wrap :: "Code \<Rightarrow> string \<Rightarrow> go_error option \<Rightarrow> go_error" where
  "Wrap code message err =
     (case err of None \<Rightarrow> New code message | Some e \<Rightarrow> Coded code message (Some e))"

text \<open>\<open>errors.Unwrap\<close> of one error.\<close>

fun Unwrap :: "go_error \<Rightarrow> go_error option" where
  "Unwrap (SuiteErr _) = None"
| "Unwrap (CryptoErr _) = None"
| "Unwrap (Errorf _ w) = w"
| "Unwrap (Coded _ _ w) = w"
| "Unwrap (StageError _ e) = Some e"

text \<open>\<open>CodeOf\<close>: the code of the first coded error in the chain.\<close>

fun code_of_chain :: "go_error \<Rightarrow> Code" where
  "code_of_chain (SuiteErr _) = CodeInternal"
| "code_of_chain (CryptoErr _) = CodeInternal"
| "code_of_chain (Errorf _ None) = CodeInternal"
| "code_of_chain (Errorf _ (Some e)) = code_of_chain e"
| "code_of_chain (Coded c _ _) = c"
| "code_of_chain (StageError _ e) = code_of_chain e"

definition CodeOf :: "go_error option \<Rightarrow> Code" where
  "CodeOf err = (case err of None \<Rightarrow> CodeInternal | Some e \<Rightarrow> code_of_chain e)"

definition ExitCode :: "go_error option \<Rightarrow> int" where
  "ExitCode err =
     (case CodeOf err of
        CodeInvalidArgument \<Rightarrow> 2
      | CodeAlreadyExists \<Rightarrow> 3
      | CodeFailedPrecondition \<Rightarrow> 4
      | CodeNotFound \<Rightarrow> 5
      | CodeResourceExhausted \<Rightarrow> 7
      | CodeDeadlineExceeded \<Rightarrow> 8
      | CodeDataLoss \<Rightarrow> 6
      | CodeInternal \<Rightarrow> 1)"

text \<open>\<open>errors.Is\<close> against the suite sentinels.\<close>

fun is_suite_err :: "suite_sentinel \<Rightarrow> go_error \<Rightarrow> bool" where
  "is_suite_err s (SuiteErr t) = (s = t)"
| "is_suite_err s (CryptoErr _) = False"
| "is_suite_err s (Errorf _ None) = False"
| "is_suite_err s (Errorf _ (Some e)) = is_suite_err s e"
| "is_suite_err s (Coded _ _ None) = False"
| "is_suite_err s (Coded _ _ (Some e)) = is_suite_err s e"
| "is_suite_err s (StageError _ e) = is_suite_err s e"

text \<open>\<open>failStage\<close> and \<open>FailedStage\<close> of \<open>internal/verify/stage.go\<close>.\<close>

definition failStage :: "Stage \<Rightarrow> go_error option \<Rightarrow> go_error" where
  "failStage stage err =
     StageError stage (case err of None \<Rightarrow> New_err ''verify: verification stage failed'' | Some e \<Rightarrow> e)"

fun FailedStage :: "go_error \<Rightarrow> Stage option" where
  "FailedStage (SuiteErr _) = None"
| "FailedStage (CryptoErr _) = None"
| "FailedStage (Errorf _ None) = None"
| "FailedStage (Errorf _ (Some e)) = FailedStage e"
| "FailedStage (Coded _ _ None) = None"
| "FailedStage (Coded _ _ (Some e)) = FailedStage e"
| "FailedStage (StageError s _) = Some s"

lemma code_of_chain_New [simp]: "code_of_chain (New c m) = c"
  by (simp add: New_def)

lemma code_of_chain_Wrap [simp]: "code_of_chain (Wrap c m e) = c"
  by (simp add: Wrap_def split: option.split)

lemma CodeOf_Some [simp]: "CodeOf (Some e) = code_of_chain e"
  by (simp add: CodeOf_def)

lemma FailedStage_failStage [simp]: "FailedStage (failStage s e) = Some s"
  by (simp add: failStage_def)

lemma ExitCode_nonzero: "1 \<le> ExitCode err \<and> ExitCode err \<le> 8"
  by (simp add: ExitCode_def split: Code.split)

lemma ExitCode_eq_iff: "ExitCode a = ExitCode b \<longleftrightarrow> CodeOf a = CodeOf b"
  by (simp add: ExitCode_def split: Code.split)

end
