(* ===== verification/Crypto_Suite.thy ===== *)
theory Crypto_Suite
  imports Go_Errors
begin

text \<open>
  \<open>internal/cryptosuite/registry.go\<close>: the immutable registry of cryptographic suites, the
  gates \<open>RequireKnown\<close>, \<open>RequireAvailable\<close> and \<open>RequireSame\<close> every composition
  boundary calls, and the rule that a suite change moves to a new log and a new namespace.
  A suite identifier is a string, as in the source, so unknown identifiers are values too.
\<close>

type_synonym suite_id = string

abbreviation INTLV1 :: suite_id where "INTLV1 \<equiv> ''INTL_V1''"
abbreviation CNSMV1 :: suite_id where "CNSMV1 \<equiv> ''CN_SM_V1''"
abbreviation AvailabilityAvailable :: string where "AvailabilityAvailable \<equiv> ''available''"
abbreviation AvailabilityReserved :: string where "AvailabilityReserved \<equiv> ''reserved''"
abbreviation HashSHA256 :: string where "HashSHA256 \<equiv> ''sha256''"
abbreviation HashSM3 :: string where "HashSM3 \<equiv> ''sm3''"
abbreviation SignatureEd25519 :: string where "SignatureEd25519 \<equiv> ''ed25519''"
abbreviation SignatureSM2SM3 :: string where "SignatureSM2SM3 \<equiv> ''sm2-sm3''"
abbreviation MerkleRFC6962SHA256 :: string where "MerkleRFC6962SHA256 \<equiv> ''rfc6962-sha256''"
abbreviation MerkleRFC6962SM3 :: string where "MerkleRFC6962SM3 \<equiv> ''rfc6962-sm3''"
abbreviation CanonicalCBOR :: string where "CanonicalCBOR \<equiv> ''cbor-core-deterministic-rfc8949''"
abbreviation SignatureInputLegacyV1 :: string where "SignatureInputLegacyV1 \<equiv> ''domain-nul-payload''"
abbreviation SignatureInputSuiteFramedV2 :: string where
  "SignatureInputSuiteFramedV2 \<equiv> ''domain-nul-suite-nul-payload''"
abbreviation Ed25519SignatureEncoding :: string where "Ed25519SignatureEncoding \<equiv> ''raw-64-byte-rfc8032''"
abbreviation Ed25519PublicKeyEncoding :: string where "Ed25519PublicKeyEncoding \<equiv> ''raw-32-byte-rfc8032''"
abbreviation Ed25519PrivateKeyEncoding :: string where
  "Ed25519PrivateKeyEncoding \<equiv> ''trustdb-ed25519-private-key-64-byte''"
abbreviation Ed25519CertificateProfile :: string where "Ed25519CertificateProfile \<equiv> ''x509-ed25519-rfc8410''"
abbreviation SM2SignatureEncoding :: string where "SM2SignatureEncoding \<equiv> ''asn1-der-sequence-r-s''"
abbreviation SM2PublicKeyEncoding :: string where
  "SM2PublicKeyEncoding \<equiv> ''sec1-uncompressed-65-byte-sm2p256v1''"
abbreviation SM2PrivateKeyEncoding :: string where
  "SM2PrivateKeyEncoding \<equiv> ''fixed-32-byte-big-endian-scalar''"
abbreviation SM2CertificateProfile :: string where "SM2CertificateProfile \<equiv> ''x509-sm2-gbt35276''"
abbreviation SM2DefaultUserID :: string where "SM2DefaultUserID \<equiv> ''1234567812345678''"

record HashSpec =
  hash_Algorithm :: string
  hash_DigestBytes :: nat

record SignatureSpec =
  sigspec_Algorithm :: string
  sigspec_MessageHashAlgorithm :: string
  sigspec_Encoding :: string
  sigspec_PublicKeyEncoding :: string
  sigspec_PrivateKeyEncoding :: string
  sigspec_CertificateProfile :: string
  sigspec_SM2UserID :: string

record MerkleSpec =
  merkle_Algorithm :: string
  merkle_Hash :: HashSpec
  merkle_LeafPrefix :: byte
  merkle_NodePrefix :: byte

record EncodingSpec =
  enc_CanonicalObjectEncoding :: string
  enc_SignatureInputEncoding :: string
  enc_DomainSeparator :: byte

record DomainSet =
  dom_ClientClaimSigning :: string
  dom_RecordID :: string
  dom_AcceptedReceipt :: string
  dom_CommittedReceipt :: string
  dom_KeyEventSigning :: string
  dom_KeyEventHash :: string
  dom_GlobalLogLeaf :: string
  dom_SignedTreeHead :: string
  dom_StatusRefresh :: string
  dom_StatusSubscription :: string
  dom_StatusNotificationRoutes :: string
  dom_IdempotencyStorageKey :: string

record Suite =
  suite_ID :: suite_id
  suite_Availability :: string
  suite_ContentHash :: HashSpec
  suite_ClaimHash :: HashSpec
  suite_SignatureHash :: HashSpec
  suite_RecordIDHash :: HashSpec
  suite_KeyEventHash :: HashSpec
  suite_KeyFingerprintHash :: HashSpec
  suite_StorageIntegrityHash :: HashSpec
  suite_Signature :: SignatureSpec
  suite_Merkle :: MerkleSpec
  suite_Encoding :: EncodingSpec
  suite_AnchorDigest :: HashSpec
  suite_Domains :: DomainSet

definition sha256_spec :: HashSpec where
  "sha256_spec = \<lparr>hash_Algorithm = HashSHA256, hash_DigestBytes = 32\<rparr>"

definition sm3_spec :: HashSpec where
  "sm3_spec = \<lparr>hash_Algorithm = HashSM3, hash_DigestBytes = 32\<rparr>"

definition intl_v1_suite :: Suite where
  "intl_v1_suite =
     \<lparr>suite_ID = INTLV1,
      suite_Availability = AvailabilityAvailable,
      suite_ContentHash = sha256_spec,
      suite_ClaimHash = sha256_spec,
      suite_SignatureHash = sha256_spec,
      suite_RecordIDHash = sha256_spec,
      suite_KeyEventHash = sha256_spec,
      suite_KeyFingerprintHash = sha256_spec,
      suite_StorageIntegrityHash = sha256_spec,
      suite_Signature =
        \<lparr>sigspec_Algorithm = SignatureEd25519,
         sigspec_MessageHashAlgorithm = '''',
         sigspec_Encoding = Ed25519SignatureEncoding,
         sigspec_PublicKeyEncoding = Ed25519PublicKeyEncoding,
         sigspec_PrivateKeyEncoding = Ed25519PrivateKeyEncoding,
         sigspec_CertificateProfile = Ed25519CertificateProfile,
         sigspec_SM2UserID = ''''\<rparr>,
      suite_Merkle =
        \<lparr>merkle_Algorithm = MerkleRFC6962SHA256, merkle_Hash = sha256_spec,
         merkle_LeafPrefix = 0x00, merkle_NodePrefix = 0x01\<rparr>,
      suite_Encoding =
        \<lparr>enc_CanonicalObjectEncoding = CanonicalCBOR,
         enc_SignatureInputEncoding = SignatureInputLegacyV1,
         enc_DomainSeparator = 0x00\<rparr>,
      suite_AnchorDigest = sha256_spec,
      suite_Domains =
        \<lparr>dom_ClientClaimSigning = ''trustdb.client-claim.v1'',
         dom_RecordID = ''trustdb.record-id.v1'',
         dom_AcceptedReceipt = ''trustdb.accepted-receipt.v1'',
         dom_CommittedReceipt = ''trustdb.committed-receipt.v1'',
         dom_KeyEventSigning = ''trustdb.key-event.v1'',
         dom_KeyEventHash = ''trustdb.key-event-hash.v1'',
         dom_GlobalLogLeaf = ''trustdb.global-log-leaf.v1'',
         dom_SignedTreeHead = ''trustdb.signed-tree-head.v1'',
         dom_StatusRefresh = ''trustdb.status-refresh.v1'',
         dom_StatusSubscription = ''trustdb.status-subscription.v1'',
         dom_StatusNotificationRoutes = ''trustdb.status-notification-routes.v1'',
         dom_IdempotencyStorageKey = ''trustdb.idempotency-storage-key.v1''\<rparr>\<rparr>"

definition cn_sm_v1_suite :: Suite where
  "cn_sm_v1_suite =
     \<lparr>suite_ID = CNSMV1,
      suite_Availability = AvailabilityAvailable,
      suite_ContentHash = sm3_spec,
      suite_ClaimHash = sm3_spec,
      suite_SignatureHash = sm3_spec,
      suite_RecordIDHash = sm3_spec,
      suite_KeyEventHash = sm3_spec,
      suite_KeyFingerprintHash = sm3_spec,
      suite_StorageIntegrityHash = sm3_spec,
      suite_Signature =
        \<lparr>sigspec_Algorithm = SignatureSM2SM3,
         sigspec_MessageHashAlgorithm = HashSM3,
         sigspec_Encoding = SM2SignatureEncoding,
         sigspec_PublicKeyEncoding = SM2PublicKeyEncoding,
         sigspec_PrivateKeyEncoding = SM2PrivateKeyEncoding,
         sigspec_CertificateProfile = SM2CertificateProfile,
         sigspec_SM2UserID = SM2DefaultUserID\<rparr>,
      suite_Merkle =
        \<lparr>merkle_Algorithm = MerkleRFC6962SM3, merkle_Hash = sm3_spec,
         merkle_LeafPrefix = 0x00, merkle_NodePrefix = 0x01\<rparr>,
      suite_Encoding =
        \<lparr>enc_CanonicalObjectEncoding = CanonicalCBOR,
         enc_SignatureInputEncoding = SignatureInputSuiteFramedV2,
         enc_DomainSeparator = 0x00\<rparr>,
      suite_AnchorDigest = sm3_spec,
      suite_Domains =
        \<lparr>dom_ClientClaimSigning = ''trustdb.client-claim.v2'',
         dom_RecordID = ''trustdb.record-id.v2'',
         dom_AcceptedReceipt = ''trustdb.accepted-receipt.v2'',
         dom_CommittedReceipt = ''trustdb.committed-receipt.v2'',
         dom_KeyEventSigning = ''trustdb.key-event.v2'',
         dom_KeyEventHash = ''trustdb.key-event-hash.v2'',
         dom_GlobalLogLeaf = ''trustdb.global-log-leaf.v2'',
         dom_SignedTreeHead = ''trustdb.signed-tree-head.v2'',
         dom_StatusRefresh = ''trustdb.status-refresh.v2'',
         dom_StatusSubscription = ''trustdb.status-subscription.v2'',
         dom_StatusNotificationRoutes = ''trustdb.status-notification-routes.v2'',
         dom_IdempotencyStorageKey = ''trustdb.idempotency-storage-key.v2''\<rparr>\<rparr>"

definition registry :: "(suite_id \<times> Suite) list" where
  "registry = [(INTLV1, intl_v1_suite), (CNSMV1, cn_sm_v1_suite)]"

definition Lookup :: "suite_id \<Rightarrow> Suite option" where
  "Lookup sid = map_of registry sid"

definition All_suites :: "Suite list" where
  "All_suites = map (\<lambda>raw. the (map_of registry raw)) (sort (map fst registry))"

definition RequireKnown :: "suite_id \<Rightarrow> Suite res" where
  "RequireKnown sid =
     (case Lookup sid of
        None \<Rightarrow> Inl (Wrapf ''%w: %q'' (SuiteErr ErrUnknownSuite))
      | Some suite \<Rightarrow> Inr suite)"

definition RequireAvailable :: "suite_id \<Rightarrow> Suite res" where
  "RequireAvailable sid =
     bind_res (RequireKnown sid) (\<lambda>suite.
       if suite_Availability suite \<noteq> AvailabilityAvailable
       then Inl (Wrapf ''%w: %s is %s'' (SuiteErr ErrUnavailableSuite))
       else Inr suite)"

text \<open>The loop of \<open>RequireSame\<close> over the variadic identifiers.\<close>

fun requireSame_loop :: "suite_id \<Rightarrow> suite_id list \<Rightarrow> go_error option" where
  "requireSame_loop expected [] = None"
| "requireSame_loop expected (sid # ids) =
     (case RequireKnown sid of
        Inl e \<Rightarrow> Some (Wrapf ''suite at index %d: %w'' e)
      | Inr _ \<Rightarrow>
          if sid \<noteq> expected
          then Some (Wrapf ''%w: expected %s, got %s at index %d'' (SuiteErr ErrMixedSuite))
          else requireSame_loop expected ids)"

definition RequireSame :: "suite_id \<Rightarrow> suite_id list \<Rightarrow> go_error option" where
  "RequireSame expected actual =
     (case RequireKnown expected of
        Inl e \<Rightarrow> Some e
      | Inr _ \<Rightarrow> requireSame_loop expected actual)"

record NamespaceBinding =
  ns_Suite :: suite_id
  ns_LogID :: string
  ns_StorageNamespace :: string
  ns_NonEmpty :: bool

definition ValidateNamespaceTransition :: "NamespaceBinding \<Rightarrow> NamespaceBinding \<Rightarrow> go_error option" where
  "ValidateNamespaceTransition current next =
     (case RequireKnown (ns_Suite next) of
        Inl e \<Rightarrow> Some (Wrapf ''next binding: %w'' e)
      | Inr _ \<Rightarrow>
     if TrimSpace (ns_LogID next) = '''' then Some (New_err ''next binding log_id is required'')
     else if TrimSpace (ns_StorageNamespace next) = ''''
     then Some (New_err ''next binding storage namespace is required'')
     else if ns_Suite current = ''''
     then (if ns_NonEmpty current then Some (SuiteErr ErrUnboundNonEmptyData) else None)
     else
     (case RequireKnown (ns_Suite current) of
        Inl e \<Rightarrow> Some (Wrapf ''current binding: %w'' e)
      | Inr _ \<Rightarrow>
     if ns_Suite current = ns_Suite next then None
     else if TrimSpace (ns_LogID current) = TrimSpace (ns_LogID next)
     then Some (Wrapf ''%w: log_id %q'' (SuiteErr ErrNamespaceReuse))
     else if TrimSpace (ns_StorageNamespace current) = TrimSpace (ns_StorageNamespace next)
     then Some (Wrapf ''%w: storage namespace %q'' (SuiteErr ErrNamespaceReuse))
     else None))"

section \<open>What the registry guarantees\<close>

lemma Lookup_simps [simp]:
  "Lookup INTLV1 = Some intl_v1_suite"
  "Lookup CNSMV1 = Some cn_sm_v1_suite"
  by (simp_all add: Lookup_def registry_def)

lemma Lookup_Some_iff:
  "Lookup sid = Some s \<longleftrightarrow> sid = INTLV1 \<and> s = intl_v1_suite \<or> sid = CNSMV1 \<and> s = cn_sm_v1_suite"
  by (auto simp: Lookup_def registry_def)

lemma RequireKnown_Inr: "RequireKnown sid = Inr s \<longleftrightarrow> Lookup sid = Some s"
  by (simp add: RequireKnown_def split: option.split)

lemma suite_available [simp]:
  "suite_Availability intl_v1_suite = AvailabilityAvailable"
  "suite_Availability cn_sm_v1_suite = AvailabilityAvailable"
  by (simp_all add: intl_v1_suite_def cn_sm_v1_suite_def)

lemma RequireAvailable_Known: "RequireAvailable sid = RequireKnown sid"
proof (cases "Lookup sid")
  case None
  then show ?thesis by (simp add: RequireAvailable_def RequireKnown_def)
next
  case (Some s)
  then have "suite_Availability s = AvailabilityAvailable"
    by (auto simp: Lookup_Some_iff)
  with Some show ?thesis by (simp add: RequireAvailable_def RequireKnown_def)
qed

lemma RequireAvailable_Inr: "RequireAvailable sid = Inr s \<longleftrightarrow> Lookup sid = Some s"
  by (simp add: RequireAvailable_Known RequireKnown_Inr)

lemma RequireKnown_simps [simp]:
  "RequireKnown INTLV1 = Inr intl_v1_suite"
  "RequireKnown CNSMV1 = Inr cn_sm_v1_suite"
  by (simp_all add: RequireKnown_def)

lemma RequireAvailable_simps [simp]:
  "RequireAvailable INTLV1 = Inr intl_v1_suite"
  "RequireAvailable CNSMV1 = Inr cn_sm_v1_suite"
  by (simp_all add: RequireAvailable_Inr)

lemma Lookup_suite_ID: "Lookup sid = Some s \<Longrightarrow> suite_ID s = sid"
  by (auto simp: Lookup_Some_iff intl_v1_suite_def cn_sm_v1_suite_def)

lemma suite_id_of [simp]:
  "suite_ID intl_v1_suite = INTLV1" "suite_ID cn_sm_v1_suite = CNSMV1"
  by (simp_all add: intl_v1_suite_def cn_sm_v1_suite_def)

text \<open>Every hash a registered suite names has a 32-byte digest, and the Merkle prefixes differ.\<close>

lemma Lookup_digests:
  assumes "Lookup sid = Some s"
  shows "hash_DigestBytes (suite_ContentHash s) = 32"
    and "hash_DigestBytes (suite_ClaimHash s) = 32"
    and "hash_DigestBytes (suite_SignatureHash s) = 32"
    and "hash_DigestBytes (suite_AnchorDigest s) = 32"
    and "hash_DigestBytes (merkle_Hash (suite_Merkle s)) = 32"
    and "merkle_LeafPrefix (suite_Merkle s) = 0"
    and "merkle_NodePrefix (suite_Merkle s) = 1"
  using assms
  by (auto simp: Lookup_Some_iff intl_v1_suite_def cn_sm_v1_suite_def sha256_spec_def sm3_spec_def)

lemma requireSame_loop_None:
  "requireSame_loop e ids = None \<longleftrightarrow> (\<forall>i \<in> set ids. i = e \<and> (\<exists>s. Lookup i = Some s))"
proof (induction ids)
  case Nil
  show ?case by simp
next
  case (Cons i ids)
  then show ?case
    by (cases "Lookup i") (auto simp: RequireKnown_def)
qed

lemma RequireSame_None [check_simps]:
  "RequireSame e ids = None \<longleftrightarrow> (\<exists>s. Lookup e = Some s) \<and> (\<forall>i \<in> set ids. i = e)"
  by (cases "Lookup e") (auto simp: RequireSame_def RequireKnown_def requireSame_loop_None)

lemma RequireSame_self [simp]: "RequireSame INTLV1 [INTLV1] = None" "RequireSame CNSMV1 [CNSMV1] = None"
  by (simp_all add: RequireSame_None)

section \<open>Properties\<close>

text \<open>C22. A store is rebound only within the isolation rules: the transition is accepted exactly when
the next binding names a known suite, a log and a storage namespace, and either nothing is bound yet
and the store is empty, or the suite stays the same, or both the log and the storage namespace
change along with it.\<close>

theorem namespace_transition_iff:
  "ValidateNamespaceTransition cur nxt = None \<longleftrightarrow>
     ns_Suite nxt \<in> {INTLV1, CNSMV1} \<and> TrimSpace (ns_LogID nxt) \<noteq> '''' \<and> TrimSpace (ns_StorageNamespace nxt) \<noteq> '''' \<and>
     (if ns_Suite cur = '''' then \<not> ns_NonEmpty cur
      else ns_Suite cur = ns_Suite nxt \<or>
           ns_Suite cur \<in> {INTLV1, CNSMV1} \<and> TrimSpace (ns_LogID cur) \<noteq> TrimSpace (ns_LogID nxt) \<and>
           TrimSpace (ns_StorageNamespace cur) \<noteq> TrimSpace (ns_StorageNamespace nxt))"
proof -
  have known: "(\<exists>s. RequireKnown i = Inr s) \<longleftrightarrow> i \<in> {INTLV1, CNSMV1}" for i
    by (auto simp: RequireKnown_Inr Lookup_Some_iff)
  show ?thesis
    using known [of "ns_Suite cur"] known [of "ns_Suite nxt"]
    by (cases "RequireKnown (ns_Suite cur)"; cases "RequireKnown (ns_Suite nxt)")
      (auto simp: ValidateNamespaceTransition_def)
qed

end
