(* ===== verification/Data_Model.thy ===== *)
theory Data_Model
  imports Crypto_Suite
begin

text \<open>
  The data model, \<open>internal/model/types.go\<close> and \<open>internal/model/idempotency.go\<close>:
  one \<^theory_text>\<open>record\<close> per Go struct, its fields in source order under a prefix of
  their own (Go scopes field names by struct, Isabelle by theory), the schema and state constants,
  and the functions of the package on those structs. A pointer field is an \<open>option\<close>.
  \<open>STHAnchorAttempt.ProviderState\<close> distinguishes a nil slice from an empty one, so it is an
  \<open>option\<close> too; nowhere else does the code look at that difference. The string map
  \<open>Metadata.Custom\<close> is an association list.
\<close>

section \<open>Constants\<close>

abbreviation SchemaClientClaim :: string where "SchemaClientClaim \<equiv> ''trustdb.claim.v2''"
abbreviation SchemaSignedClaim :: string where "SchemaSignedClaim \<equiv> ''trustdb.signed-claim.v2''"
abbreviation SchemaServerRecord :: string where "SchemaServerRecord \<equiv> ''trustdb.server-record.v2''"
abbreviation SchemaAcceptedReceipt :: string where "SchemaAcceptedReceipt \<equiv> ''trustdb.accepted-receipt.v2''"
abbreviation SchemaCommittedReceipt :: string where "SchemaCommittedReceipt \<equiv> ''trustdb.committed-receipt.v2''"
abbreviation SchemaProofBundle :: string where "SchemaProofBundle \<equiv> ''trustdb.proof-bundle.v2''"
abbreviation SchemaSingleProof :: string where "SchemaSingleProof \<equiv> ''trustdb.sproof.v2''"
abbreviation SchemaProofIdentity :: string where "SchemaProofIdentity \<equiv> ''trustdb.proof-identity-evidence.v1''"
abbreviation SchemaCertificateStatus :: string where "SchemaCertificateStatus \<equiv> ''trustdb.certificate-status-evidence.v1''"
abbreviation SchemaRecordIndex :: string where "SchemaRecordIndex \<equiv> ''trustdb.record-index.v2''"
abbreviation SchemaRecordStatus :: string where "SchemaRecordStatus \<equiv> ''trustdb.record-status.v2''"
abbreviation SchemaStatusRefresh :: string where "SchemaStatusRefresh \<equiv> ''trustdb.status-refresh.v2''"
abbreviation SchemaBatchRoot :: string where "SchemaBatchRoot \<equiv> ''trustdb.batch-root.v2''"
abbreviation SchemaBatchManifest :: string where "SchemaBatchManifest \<equiv> ''trustdb.batch-manifest.v2''"
abbreviation SchemaBatchTreeLeaf :: string where "SchemaBatchTreeLeaf \<equiv> ''trustdb.batch-tree-leaf.v2''"
abbreviation SchemaBatchTreeNode :: string where "SchemaBatchTreeNode \<equiv> ''trustdb.batch-tree-node.v2''"
abbreviation SchemaWALCheckpoint :: string where "SchemaWALCheckpoint \<equiv> ''trustdb.wal-checkpoint.v3''"
abbreviation SchemaKeyEvent :: string where "SchemaKeyEvent \<equiv> ''trustdb.key-event.v3''"
abbreviation SchemaGlobalLogLeaf :: string where "SchemaGlobalLogLeaf \<equiv> ''trustdb.global-log-leaf.v2''"
abbreviation SchemaGlobalLogNode :: string where "SchemaGlobalLogNode \<equiv> ''trustdb.global-log-node.v2''"
abbreviation SchemaGlobalLogState :: string where "SchemaGlobalLogState \<equiv> ''trustdb.global-log-state.v2''"
abbreviation SchemaSignedTreeHead :: string where "SchemaSignedTreeHead \<equiv> ''trustdb.signed-tree-head.v2''"
abbreviation SchemaGlobalLogProof :: string where "SchemaGlobalLogProof \<equiv> ''trustdb.global-log-proof.v2''"
abbreviation SchemaGlobalLogTile :: string where "SchemaGlobalLogTile \<equiv> ''trustdb.global-log-tile.v2''"
abbreviation SchemaGlobalLogOutbox :: string where "SchemaGlobalLogOutbox \<equiv> ''trustdb.global-log-outbox.v2''"
abbreviation SchemaSTHAnchorResult :: string where "SchemaSTHAnchorResult \<equiv> ''trustdb.sth-anchor-result.v2''"
abbreviation SchemaSTHAnchorSchedule :: string where "SchemaSTHAnchorSchedule \<equiv> ''trustdb.sth-anchor-schedule.v2''"
abbreviation SchemaSTHAnchorLatest :: string where "SchemaSTHAnchorLatest \<equiv> ''trustdb.sth-anchor-latest.v2''"
abbreviation SchemaSTHAnchorLatestEmpty :: string where "SchemaSTHAnchorLatestEmpty \<equiv> ''trustdb.sth-anchor-latest-empty.v2''"
abbreviation SchemaL5Coverage :: string where "SchemaL5Coverage \<equiv> ''trustdb.l5-coverage-checkpoint.v2''"
abbreviation DefaultValidationPolicy :: string where "DefaultValidationPolicy \<equiv> ''trustdb.policy.v2''"
abbreviation KeyEventRegister :: string where "KeyEventRegister \<equiv> ''KEY_REGISTERED''"
abbreviation KeyEventRotate :: string where "KeyEventRotate \<equiv> ''KEY_ROTATED''"
abbreviation KeyEventRevoke :: string where "KeyEventRevoke \<equiv> ''KEY_REVOKED''"
abbreviation KeyEventCompromise :: string where "KeyEventCompromise \<equiv> ''KEY_COMPROMISED''"
abbreviation KeyStatusValid :: string where "KeyStatusValid \<equiv> ''valid''"
abbreviation KeyStatusRevoked :: string where "KeyStatusRevoked \<equiv> ''revoked''"
abbreviation KeyStatusCompromised :: string where "KeyStatusCompromised \<equiv> ''compromised''"
abbreviation BatchStatePreparing :: string where "BatchStatePreparing \<equiv> ''preparing''"
abbreviation BatchStatePrepared :: string where "BatchStatePrepared \<equiv> ''prepared''"
abbreviation BatchStateCommitted :: string where "BatchStateCommitted \<equiv> ''committed''"
abbreviation BatchStateFailed :: string where "BatchStateFailed \<equiv> ''failed''"
abbreviation AnchorStatePending :: string where "AnchorStatePending \<equiv> ''pending''"
abbreviation AnchorStatePublished :: string where "AnchorStatePublished \<equiv> ''published''"
abbreviation AnchorStateObserved :: string where "AnchorStateObserved \<equiv> ''observed''"
abbreviation AnchorStateLocalOnly :: string where "AnchorStateLocalOnly \<equiv> ''local_only''"
abbreviation AnchorStateFailed :: string where "AnchorStateFailed \<equiv> ''failed''"
abbreviation AnchorEvidenceStageOfflineVerified :: string where "AnchorEvidenceStageOfflineVerified \<equiv> ''offline_verified''"
abbreviation AnchorEvidenceStageRaw :: string where "AnchorEvidenceStageRaw \<equiv> ''external_observation''"
abbreviation AnchorEvidenceStageLocalOnly :: string where "AnchorEvidenceStageLocalOnly \<equiv> ''local_only''"
abbreviation RecordStatusAccepted :: string where "RecordStatusAccepted \<equiv> ''accepted''"
abbreviation RecordStatusProcessing :: string where "RecordStatusProcessing \<equiv> ''processing''"
abbreviation RecordStatusRetryPending :: string where "RecordStatusRetryPending \<equiv> ''retry_pending''"
abbreviation RecordStatusCommitted :: string where "RecordStatusCommitted \<equiv> ''committed''"
abbreviation RecordStatusFailed :: string where "RecordStatusFailed \<equiv> ''failed''"
abbreviation ProofIdentityRoleClient :: string where "ProofIdentityRoleClient \<equiv> ''client''"
abbreviation ProofIdentityRoleServer :: string where "ProofIdentityRoleServer \<equiv> ''server''"
abbreviation CertificateStatusCRL :: string where "CertificateStatusCRL \<equiv> ''crl''"
abbreviation RecordListDirectionAsc :: string where "RecordListDirectionAsc \<equiv> ''asc''"
abbreviation RecordListDirectionDesc :: string where "RecordListDirectionDesc \<equiv> ''desc''"
abbreviation SchemaIdempotencyDecision :: string where "SchemaIdempotencyDecision \<equiv> ''trustdb.idempotency-decision.v2''"

section \<open>Structs\<close>

record Content =
  content_HashAlg :: string
  content_ContentHash :: bytes
  content_ContentLength :: int64
  content_MediaType :: string
  content_StorageURI :: string

record Metadata =
  meta_EventType :: string
  meta_Source :: string
  meta_TraceID :: string
  meta_Parents :: "string list"
  meta_Custom :: "(string \<times> string) list"

record TimeAttestation =
  tatt_Type :: string
  tatt_Token :: bytes

record ClientClaim =
  claim_SchemaVersion :: string
  claim_CryptoSuite :: suite_id
  claim_TenantID :: string
  claim_ClientID :: string
  claim_KeyID :: string
  claim_ProducedAtUnixN :: int64
  claim_Nonce :: bytes
  claim_IdempotencyKey :: string
  claim_Content :: Content
  claim_Metadata :: Metadata
  claim_TimeAttestation :: TimeAttestation

record Signature =
  sig_Alg :: string
  sig_KeyID :: string
  sig_Signature :: bytes

record SignedClaim =
  signed_SchemaVersion :: string
  signed_CryptoSuite :: suite_id
  signed_Claim :: ClientClaim
  signed_Signature :: Signature

record WALPosition =
  walpos_SegmentID :: uint64
  walpos_Offset :: int64
  walpos_Sequence :: uint64

record Validation =
  valid_PolicyVersion :: string
  valid_HashAlgAllowed :: bool
  valid_SignatureAlgAllowed :: bool
  valid_KeyStatus :: string

record ServerRecord =
  rec_SchemaVersion :: string
  rec_CryptoSuite :: suite_id
  rec_RecordID :: string
  rec_TenantID :: string
  rec_ClientID :: string
  rec_KeyID :: string
  rec_ClaimHash :: bytes
  rec_ClientSignatureHash :: bytes
  rec_ReceivedAtUnixN :: int64
  rec_WAL :: WALPosition
  rec_Validation :: Validation

record AcceptedReceipt =
  acc_SchemaVersion :: string
  acc_CryptoSuite :: suite_id
  acc_RecordID :: string
  acc_Status :: string
  acc_ServerID :: string
  acc_ReceivedAtUnixN :: int64
  acc_WAL :: WALPosition
  acc_ServerSig :: Signature

record CommittedReceipt =
  com_SchemaVersion :: string
  com_CryptoSuite :: suite_id
  com_RecordID :: string
  com_Status :: string
  com_BatchID :: string
  com_LeafIndex :: uint64
  com_LeafHash :: bytes
  com_BatchRoot :: bytes
  com_ClosedAtUnixN :: int64
  com_NodeID :: string
  com_LogID :: string
  com_ServerSig :: Signature

record BatchProof =
  bproof_TreeAlg :: string
  bproof_LeafIndex :: uint64
  bproof_TreeSize :: uint64
  bproof_AuditPath :: "bytes list"

record ProofBundle =
  bundle_SchemaVersion :: string
  bundle_CryptoSuite :: suite_id
  bundle_RecordID :: string
  bundle_NodeID :: string
  bundle_LogID :: string
  bundle_SignedClaim :: SignedClaim
  bundle_ServerRecord :: ServerRecord
  bundle_AcceptedReceipt :: AcceptedReceipt
  bundle_CommittedReceipt :: CommittedReceipt
  bundle_BatchProof :: BatchProof

record CertificateStatusEvidence =
  certst_SchemaVersion :: string
  certst_CryptoSuite :: suite_id
  certst_Type :: string
  certst_IssuerFingerprint :: bytes
  certst_Status :: bytes

record ProofIdentityEvidence =
  ident_SchemaVersion :: string
  ident_CryptoSuite :: suite_id
  ident_Role :: string
  ident_KeyID :: string
  ident_KeyDescriptor :: bytes
  ident_RegistryV2 :: bytes
  ident_CertificateStatuses :: "CertificateStatusEvidence list"

record RecordIndex =
  ridx_SchemaVersion :: string
  ridx_CryptoSuite :: suite_id
  ridx_RecordID :: string
  ridx_NodeID :: string
  ridx_LogID :: string
  ridx_TenantID :: string
  ridx_ClientID :: string
  ridx_KeyID :: string
  ridx_ProofLevel :: string
  ridx_BatchID :: string
  ridx_BatchLeafIndex :: uint64
  ridx_BatchClosedAtUnixN :: int64
  ridx_ReceivedAtUnixN :: int64
  ridx_ContentHash :: bytes
  ridx_ContentLength :: int64
  ridx_MediaType :: string
  ridx_StorageURI :: string
  ridx_FileName :: string
  ridx_EventType :: string
  ridx_Source :: string

record RecordStatus =
  rstat_SchemaVersion :: string
  rstat_CryptoSuite :: suite_id
  rstat_RecordID :: string
  rstat_TenantID :: string
  rstat_ClientID :: string
  rstat_KeyID :: string
  rstat_Status :: string
  rstat_ProofLevel :: string
  rstat_StatusVersion :: uint64
  rstat_BatchID :: string
  rstat_UpdatedAtUnixN :: int64
  rstat_Terminal :: bool
  rstat_Retryable :: bool
  rstat_FailureCode :: string

record StatusRefresh =
  srefresh_SchemaVersion :: string
  srefresh_CryptoSuite :: suite_id
  srefresh_SubscriptionID :: string
  srefresh_TenantID :: string
  srefresh_ClientID :: string
  srefresh_Version :: uint64
  srefresh_RefreshRequired :: bool
  srefresh_EmittedAtUnixN :: int64
  srefresh_ServerSig :: Signature

record BatchRoot =
  broot_SchemaVersion :: string
  broot_CryptoSuite :: suite_id
  broot_BatchID :: string
  broot_NodeID :: string
  broot_LogID :: string
  broot_BatchRoot :: bytes
  broot_TreeSize :: uint64
  broot_ClosedAtUnixN :: int64

record WALRange =
  walrange_From :: WALPosition
  walrange_To :: WALPosition

record WALCheckpoint =
  walcp_SchemaVersion :: string
  walcp_CryptoSuite :: suite_id
  walcp_NodeID :: string
  walcp_WALID :: string
  walcp_SegmentID :: uint64
  walcp_LastSequence :: uint64
  walcp_LastOffset :: int64
  walcp_BatchID :: string
  walcp_RecordedAtUnixN :: int64

record BatchManifest =
  manifest_SchemaVersion :: string
  manifest_CryptoSuite :: suite_id
  manifest_BatchID :: string
  manifest_NodeID :: string
  manifest_LogID :: string
  manifest_State :: string
  manifest_TreeAlg :: string
  manifest_TreeSize :: uint64
  manifest_BatchRoot :: bytes
  manifest_RecordIDs :: "string list"
  manifest_WALRange :: WALRange
  manifest_ClosedAtUnixN :: int64
  manifest_PreparingAtUnixN :: int64
  manifest_PreparedAtUnixN :: int64
  manifest_CommittedAtUnixN :: int64
  manifest_MaterializeAttempts :: int
  manifest_MaterializeNextUnixN :: int64
  manifest_MaterializeLastError :: string
  manifest_MaterializeFailureCode :: string

record BatchTreeLeaf =
  btleaf_SchemaVersion :: string
  btleaf_CryptoSuite :: suite_id
  btleaf_BatchID :: string
  btleaf_RecordID :: string
  btleaf_LeafIndex :: uint64
  btleaf_LeafHash :: bytes
  btleaf_CreatedAtUnixN :: int64

record BatchTreeNode =
  btnode_SchemaVersion :: string
  btnode_CryptoSuite :: suite_id
  btnode_BatchID :: string
  btnode_Level :: uint64
  btnode_StartIndex :: uint64
  btnode_Width :: uint64
  btnode_Hash :: bytes
  btnode_CreatedAtUnixN :: int64

record GlobalLogLeaf =
  gleaf_SchemaVersion :: string
  gleaf_CryptoSuite :: suite_id
  gleaf_NodeID :: string
  gleaf_LogID :: string
  gleaf_BatchID :: string
  gleaf_BatchRoot :: bytes
  gleaf_BatchTreeSize :: uint64
  gleaf_BatchClosedAtUnixN :: int64
  gleaf_LeafIndex :: uint64
  gleaf_LeafHash :: bytes
  gleaf_AppendedAtUnixN :: int64

record GlobalLogNode =
  gnode_SchemaVersion :: string
  gnode_CryptoSuite :: suite_id
  gnode_Level :: uint64
  gnode_StartIndex :: uint64
  gnode_Width :: uint64
  gnode_Hash :: bytes
  gnode_CreatedAtUnixN :: int64

record GlobalLogState =
  gstate_SchemaVersion :: string
  gstate_CryptoSuite :: suite_id
  gstate_TreeSize :: uint64
  gstate_RootHash :: bytes
  gstate_Frontier :: "bytes list"
  gstate_UpdatedAtUnixN :: int64

record SignedTreeHead =
  sth_SchemaVersion :: string
  sth_CryptoSuite :: suite_id
  sth_TreeAlg :: string
  sth_TreeSize :: uint64
  sth_RootHash :: bytes
  sth_TimestampUnixN :: int64
  sth_NodeID :: string
  sth_LogID :: string
  sth_Signature :: Signature

record GlobalLogAppend =
  gapp_Leaf :: GlobalLogLeaf
  gapp_Nodes :: "GlobalLogNode list"
  gapp_State :: GlobalLogState
  gapp_STH :: SignedTreeHead

record GlobalConsistencyProof =
  gcons_FromTreeSize :: uint64
  gcons_ToTreeSize :: uint64
  gcons_AuditPath :: "bytes list"

record GlobalLogProof =
  gproof_SchemaVersion :: string
  gproof_CryptoSuite :: suite_id
  gproof_NodeID :: string
  gproof_LogID :: string
  gproof_BatchID :: string
  gproof_LeafIndex :: uint64
  gproof_LeafHash :: bytes
  gproof_TreeSize :: uint64
  gproof_InclusionPath :: "bytes list"
  gproof_STH :: SignedTreeHead
  gproof_Consistency :: GlobalConsistencyProof

record STHAnchorResult =
  ares_SchemaVersion :: string
  ares_CryptoSuite :: suite_id
  ares_NodeID :: string
  ares_LogID :: string
  ares_TreeSize :: uint64
  ares_SinkName :: string
  ares_AnchorID :: string
  ares_RootHash :: bytes
  ares_STH :: SignedTreeHead
  ares_Proof :: bytes
  ares_EvidenceStage :: string
  ares_PublishedAtUnixN :: int64

record GlobalLogEvidence =
  gevid_GlobalProof :: GlobalLogProof
  gevid_AnchorResult :: "STHAnchorResult option"

record GlobalLogTile =
  gtile_SchemaVersion :: string
  gtile_CryptoSuite :: suite_id
  gtile_Level :: uint64
  gtile_StartIndex :: uint64
  gtile_Width :: uint64
  gtile_Hashes :: "bytes list"
  gtile_Compressed :: bool
  gtile_CreatedAtUnixN :: int64

record GlobalLogOutboxItem =
  gobox_SchemaVersion :: string
  gobox_CryptoSuite :: suite_id
  gobox_BatchID :: string
  gobox_BatchRoot :: BatchRoot
  gobox_Status :: string
  gobox_STH :: SignedTreeHead
  gobox_Attempts :: int
  gobox_EnqueuedAtUnixN :: int64
  gobox_NextAttemptUnixN :: int64
  gobox_LastAttemptUnixN :: int64
  gobox_LastErrorMessage :: string
  gobox_CompletedAtUnixN :: int64

record STHAnchorResultKey =
  reskey_NodeID :: string
  reskey_LogID :: string
  reskey_SinkName :: string
  reskey_TreeSize :: uint64

record STHAnchorLatestReference =
  alat_SchemaVersion :: string
  alat_CryptoSuite :: suite_id
  alat_Key :: STHAnchorResultKey
  alat_RootHash :: bytes
  alat_AnchorID :: string

record STHAnchorScheduleKey =
  skey_NodeID :: string
  skey_LogID :: string
  skey_SinkName :: string

record STHAnchorCandidate =
  cand_Key :: STHAnchorScheduleKey
  cand_STH :: SignedTreeHead
  cand_ObservedAtUnixN :: int64
  cand_DueAtUnixN :: int64

record STHAnchorWindow =
  window_Generation :: uint64
  window_Target :: SignedTreeHead
  window_OpenedAtUnixN :: int64
  window_DueAtUnixN :: int64
  window_UpdatedAtUnixN :: int64

record STHAnchorAttempt =
  attempt_Generation :: uint64
  attempt_Target :: SignedTreeHead
  attempt_OpenedAtUnixN :: int64
  attempt_DueAtUnixN :: int64
  attempt_ProviderState :: "bytes option"
  attempt_Attempts :: int
  attempt_NextAttemptUnixN :: int64
  attempt_LastAttemptUnixN :: int64
  attempt_LastErrorMessage :: string
  attempt_TerminalFailure :: bool
  attempt_LeaseOwner :: string
  attempt_LeaseToken :: string
  attempt_LeaseUntilUnixN :: int64

record STHAnchorSchedule =
  sched_SchemaVersion :: string
  sched_CryptoSuite :: suite_id
  sched_Key :: STHAnchorScheduleKey
  sched_Revision :: uint64
  sched_NextGeneration :: uint64
  sched_Pending :: "STHAnchorWindow option"
  sched_InFlight :: "STHAnchorAttempt option"

record L5CoverageCheckpoint =
  l5cp_SchemaVersion :: string
  l5cp_CryptoSuite :: suite_id
  l5cp_Key :: STHAnchorScheduleKey
  l5cp_CoveredTreeSize :: uint64
  l5cp_Revision :: uint64
  l5cp_UpdatedAtUnixN :: int64

record SingleProof =
  sproof_SchemaVersion :: string
  sproof_FormatVersion :: uint64
  sproof_CryptoSuite :: suite_id
  sproof_RecordID :: string
  sproof_ProofLevel :: string
  sproof_NodeID :: string
  sproof_LogID :: string
  sproof_ProofBundle :: ProofBundle
  sproof_GlobalProof :: "GlobalLogProof option"
  sproof_AnchorResult :: "STHAnchorResult option"
  sproof_IdentityEvidence :: "ProofIdentityEvidence list"
  sproof_ExportedAtUnixN :: int64

record IdempotencyIdentity =
  idid_TenantID :: string
  idid_ClientID :: string
  idid_IdempotencyKey :: string

record IdempotencyDecision =
  iddec_SchemaVersion :: string
  iddec_CryptoSuite :: suite_id
  iddec_Identity :: IdempotencyIdentity
  iddec_ClaimHash :: bytes
  iddec_Record :: ServerRecord
  iddec_Accepted :: AcceptedReceipt
  iddec_BatchID :: string

record ClientKey =
  ckey_TenantID :: string
  ckey_ClientID :: string
  ckey_KeyID :: string
  ckey_CryptoSuite :: suite_id
  ckey_Alg :: string
  ckey_PublicKeyEncoding :: string
  ckey_PublicKey :: bytes
  ckey_SM2UserID :: string
  ckey_CertificateChain :: "bytes list"
  ckey_Provider :: string
  ckey_KeyDescriptor :: bytes
  ckey_ValidFromUnixN :: int64
  ckey_ValidUntilUnixN :: int64
  ckey_Status :: string
  ckey_RevokedAtUnixN :: int64
  ckey_CompromisedAtUnixN :: int64

record KeyEvent =
  kev_SchemaVersion :: string
  kev_CryptoSuite :: suite_id
  kev_Sequence :: uint64
  kev_Type :: string
  kev_TenantID :: string
  kev_ClientID :: string
  kev_KeyID :: string
  kev_PreviousKeyID :: string
  kev_KeyDescriptor :: bytes
  kev_ValidFromUnixN :: int64
  kev_ValidUntilUnixN :: int64
  kev_RotatedAtUnixN :: int64
  kev_RevokedAtUnixN :: int64
  kev_CompromisedAtUnixN :: int64
  kev_Reason :: string
  kev_PrevEventHash :: bytes
  kev_EventHash :: bytes
  kev_RegistrySignature :: Signature

record BatchTreeSnapshotNode =
  bsnode_Level :: uint64
  bsnode_StartIndex :: uint64
  bsnode_Width :: uint64
  bsnode_Hash :: bytes

record BatchTreeSnapshot =
  bsnap_CryptoSuite :: suite_id
  bsnap_BatchID :: string
  bsnap_CreatedAtUnixN :: int64
  bsnap_RecordIDs :: "string list"
  bsnap_LeafHashes :: "bytes list"
  bsnap_Nodes :: "BatchTreeSnapshotNode list"

record BatchCommit =
  bcommit_TreeAlg :: string
  bcommit_Root :: BatchRoot
  bcommit_Indexes :: "RecordIndex list"
  bcommit_Tree :: BatchTreeSnapshot
  bcommit_Bundles :: "ProofBundle list"

section \<open>Zero values\<close>

definition zero_Signature :: Signature where
  "zero_Signature = \<lparr>sig_Alg = '''', sig_KeyID = '''', sig_Signature = []\<rparr>"

definition zero_SignedTreeHead :: SignedTreeHead where
  "zero_SignedTreeHead =
     \<lparr>sth_SchemaVersion = '''', sth_CryptoSuite = '''', sth_TreeAlg = '''', sth_TreeSize = 0,
      sth_RootHash = [], sth_TimestampUnixN = 0, sth_NodeID = '''', sth_LogID = '''',
      sth_Signature = zero_Signature\<rparr>"

definition zero_GlobalConsistencyProof :: GlobalConsistencyProof where
  "zero_GlobalConsistencyProof = \<lparr>gcons_FromTreeSize = 0, gcons_ToTreeSize = 0, gcons_AuditPath = []\<rparr>"

section \<open>Functions of the package\<close>

text \<open>A Go map lookup of a missing key gives the zero value.\<close>

definition custom_value :: "(string \<times> string) list \<Rightarrow> string \<Rightarrow> string" where
  "custom_value m k = (case map_of m k of None \<Rightarrow> '''' | Some v \<Rightarrow> v)"

definition RecordIndexFromBatchInputs ::
  "SignedClaim \<Rightarrow> ServerRecord \<Rightarrow> AcceptedReceipt \<Rightarrow> string \<Rightarrow> string \<Rightarrow> string \<Rightarrow> uint64 \<Rightarrow> int64 \<Rightarrow>
   string \<Rightarrow> RecordIndex" where
  "RecordIndexFromBatchInputs sclaim record accepted nodeID logID batchID leafIndex closedAtUnixN proofLevel =
     (let claim = signed_Claim sclaim;
          tenantID = (if rec_TenantID record = '''' then claim_TenantID claim else rec_TenantID record);
          clientID = (if rec_ClientID record = '''' then claim_ClientID claim else rec_ClientID record);
          keyID = (if rec_KeyID record = '''' then claim_KeyID claim else rec_KeyID record);
          custom = meta_Custom (claim_Metadata claim);
          fileName = (if custom_value custom ''file_name'' = '''' then custom_value custom ''filename''
                      else custom_value custom ''file_name'');
          receivedAt0 = rec_ReceivedAtUnixN record;
          receivedAt1 = (if receivedAt0 = 0 then acc_ReceivedAtUnixN accepted else receivedAt0);
          receivedAt = (if receivedAt1 = 0 then closedAtUnixN else receivedAt1)
      in \<lparr>ridx_SchemaVersion = SchemaRecordIndex,
          ridx_CryptoSuite = signed_CryptoSuite sclaim,
          ridx_RecordID = rec_RecordID record,
          ridx_NodeID = nodeID,
          ridx_LogID = logID,
          ridx_TenantID = tenantID,
          ridx_ClientID = clientID,
          ridx_KeyID = keyID,
          ridx_ProofLevel = proofLevel,
          ridx_BatchID = batchID,
          ridx_BatchLeafIndex = leafIndex,
          ridx_BatchClosedAtUnixN = closedAtUnixN,
          ridx_ReceivedAtUnixN = receivedAt,
          ridx_ContentHash = content_ContentHash (claim_Content claim),
          ridx_ContentLength = content_ContentLength (claim_Content claim),
          ridx_MediaType = content_MediaType (claim_Content claim),
          ridx_StorageURI = content_StorageURI (claim_Content claim),
          ridx_FileName = fileName,
          ridx_EventType = meta_EventType (claim_Metadata claim),
          ridx_Source = meta_Source (claim_Metadata claim)\<rparr>)"

definition RecordIndexFromBundle :: "ProofBundle \<Rightarrow> RecordIndex" where
  "RecordIndexFromBundle bundle =
     (let record0 = bundle_ServerRecord bundle;
          record = (if rec_RecordID record0 = '''' then record0\<lparr>rec_RecordID := bundle_RecordID bundle\<rparr>
                    else record0);
          idx = RecordIndexFromBatchInputs (bundle_SignedClaim bundle) record
                  (bundle_AcceptedReceipt bundle) (bundle_NodeID bundle) (bundle_LogID bundle)
                  (com_BatchID (bundle_CommittedReceipt bundle))
                  (com_LeafIndex (bundle_CommittedReceipt bundle))
                  (com_ClosedAtUnixN (bundle_CommittedReceipt bundle)) ''L3''
      in if ridx_CryptoSuite idx = '''' then idx\<lparr>ridx_CryptoSuite := bundle_CryptoSuite bundle\<rparr>
         else idx)"

definition BatchRoot_TreeAlg :: "BatchRoot \<Rightarrow> string" where
  "BatchRoot_TreeAlg r =
     (case Lookup (broot_CryptoSuite r) of None \<Rightarrow> ''''
      | Some suite \<Rightarrow> merkle_Algorithm (suite_Merkle suite))"

definition AnchorResultProvidesOfflineL5 :: "STHAnchorResult \<Rightarrow> bool" where
  "AnchorResultProvidesOfflineL5 result =
     (if ares_SinkName result = ''file'' \<or> ares_SinkName result = ''noop'' then False
      else ares_EvidenceStage result = AnchorEvidenceStageOfflineVerified)"

definition ValidAnchorEvidenceStage :: "string \<Rightarrow> bool" where
  "ValidAnchorEvidenceStage stage \<longleftrightarrow>
     stage = AnchorEvidenceStageOfflineVerified \<or> stage = AnchorEvidenceStageRaw \<or>
     stage = AnchorEvidenceStageLocalOnly"

end
