(* ===== verification/Trust_Crypto.thy ===== *)
theory Trust_Crypto
  imports Data_Model
begin

unbundle bit_operations_syntax

text \<open>
  \<open>internal/trustcrypto\<close> (\<open>provider.go\<close>, \<open>signature_input.go\<close>,
  \<open>crypto.go\<close>, \<open>sm2.go\<close>): suite-bound providers, hash factories, the signer and
  verifier gates, and the domain-separated signature input.

  The primitives themselves are parameters, the record \<open>crypto_prims\<close>: SHA-256, SM3, Ed25519
  and SM2, with \<open>prim_sm2_point\<close> the canonical re-encoding of a decoded SM2 public key
  (\<open>None\<close> where \<open>sm2.NewPublicKey\<close> fails) and \<open>prim_sm2_der\<close> the parse of a DER
  signature into \<open>(r, s)\<close> with its canonical re-encoding. Hash results are \<open>[32]byte\<close>
  arrays in Go; \<open>array32\<close> imposes that type on the parameter. A context is the error its
  \<open>Err\<close> method returns when the function is called.
\<close>

type_synonym digest = bytes
type_synonym go_context = "go_error option"

record crypto_prims =
  prim_sha256 :: "bytes \<Rightarrow> bytes"
  prim_sm3 :: "bytes \<Rightarrow> bytes"
  prim_ed25519_verify :: "bytes \<Rightarrow> bytes \<Rightarrow> bytes \<Rightarrow> bool"
  prim_ed25519_sign :: "bytes \<Rightarrow> bytes \<Rightarrow> bytes"
  prim_ed25519_public :: "bytes \<Rightarrow> bytes"
  prim_sm2_point :: "bytes \<Rightarrow> bytes option"
  prim_sm2_der :: "bytes \<Rightarrow> (int \<times> int \<times> bytes) option"
  prim_sm2_order :: int
  prim_sm2_verify :: "bytes \<Rightarrow> bytes \<Rightarrow> bytes \<Rightarrow> bytes \<Rightarrow> bool"

text \<open>\<open>copy(out[:], in)\<close> into a zeroed \<open>[32]byte\<close>.\<close>

definition array32 :: "bytes \<Rightarrow> digest" where
  "array32 b = take 32 (b @ replicate 32 0)"

lemma length_array32 [simp, size_intros]: "length (array32 b) = 32"
  by (simp add: array32_def)

lemma array32_id [simp]: "length b = 32 \<Longrightarrow> array32 b = b"
  by (simp add: array32_def)

section \<open>Hash factories\<close>

datatype HashFactory = sha256Factory | sm3Factory

fun factory_Algorithm :: "HashFactory \<Rightarrow> string" where
  "factory_Algorithm sha256Factory = HashSHA256"
| "factory_Algorithm sm3Factory = HashSM3"

fun factory_Size :: "HashFactory \<Rightarrow> nat" where
  "factory_Size sha256Factory = 32"
| "factory_Size sm3Factory = 32"

fun factory_Sum :: "crypto_prims \<Rightarrow> HashFactory \<Rightarrow> bytes \<Rightarrow> digest" where
  "factory_Sum prims sha256Factory data = array32 (prim_sha256 prims data)"
| "factory_Sum prims sm3Factory data = array32 (prim_sm3 prims data)"

definition suiteUsesHashAlgorithm :: "Suite \<Rightarrow> string \<Rightarrow> bool" where
  "suiteUsesHashAlgorithm suite algorithm \<longleftrightarrow>
     list_ex (\<lambda>spec. hash_Algorithm spec = algorithm)
       [suite_ContentHash suite, suite_ClaimHash suite, suite_SignatureHash suite,
        suite_RecordIDHash suite, suite_KeyEventHash suite, suite_KeyFingerprintHash suite,
        suite_StorageIntegrityHash suite, merkle_Hash (suite_Merkle suite), suite_AnchorDigest suite]"

definition HashFactoryForSuite :: "suite_id \<Rightarrow> string \<Rightarrow> HashFactory res" where
  "HashFactoryForSuite suiteID algorithm =
     bind_res (RequireKnown suiteID) (\<lambda>suite.
       if \<not> suiteUsesHashAlgorithm suite algorithm
       then Inl (Wrapf ''%w: hash %q for suite %s'' (CryptoErr ErrUnsupportedAlgorithm))
       else if algorithm = HashSHA256 then Inr sha256Factory
       else if algorithm = HashSM3 then Inr sm3Factory
       else Inl (Wrapf ''%w: hash %q for suite %s'' (CryptoErr ErrUnsupportedAlgorithm)))"

section \<open>Providers, handles and descriptors\<close>

datatype Provider = intlV1Provider | cnSMV1Provider

datatype Verifier = ed25519Verifier | sm2Verifier

fun provider_Suite :: "Provider \<Rightarrow> suite_id" where
  "provider_Suite intlV1Provider = INTLV1"
| "provider_Suite cnSMV1Provider = CNSMV1"

definition provider_HashFactory :: "Provider \<Rightarrow> string \<Rightarrow> HashFactory res" where
  "provider_HashFactory p algorithm = HashFactoryForSuite (provider_Suite p) algorithm"

fun verifier_Algorithm :: "Verifier \<Rightarrow> string" where
  "verifier_Algorithm ed25519Verifier = SignatureEd25519"
| "verifier_Algorithm sm2Verifier = SignatureSM2SM3"

fun provider_Verifier :: "Provider \<Rightarrow> string \<Rightarrow> string \<Rightarrow> Verifier res" where
  "provider_Verifier intlV1Provider algorithm encoding =
     (if algorithm \<noteq> SignatureEd25519
      then Inl (Wrapf ''%w: signature %q for suite %s'' (CryptoErr ErrUnsupportedAlgorithm))
      else if encoding \<noteq> Ed25519PublicKeyEncoding
      then Inl (Wrapf ''%w: public key %q for %s'' (CryptoErr ErrUnsupportedEncoding))
      else Inr ed25519Verifier)"
| "provider_Verifier cnSMV1Provider algorithm encoding =
     (if algorithm \<noteq> SignatureSM2SM3
      then Inl (Wrapf ''%w: signature %q for suite %s'' (CryptoErr ErrUnsupportedAlgorithm))
      else if encoding \<noteq> SM2PublicKeyEncoding
      then Inl (Wrapf ''%w: public key %q for %s'' (CryptoErr ErrUnsupportedEncoding))
      else Inr sm2Verifier)"

definition providerForKnownSuite :: "suite_id \<Rightarrow> Provider res" where
  "providerForKnownSuite suiteID =
     bind_res (RequireKnown suiteID) (\<lambda>_.
       if suiteID = INTLV1 then Inr intlV1Provider
       else if suiteID = CNSMV1 then Inr cnSMV1Provider
       else Inl (Wrapf ''%w: provider for suite %s'' (CryptoErr ErrUnsupportedAlgorithm)))"

definition ProviderForSuite :: "suite_id \<Rightarrow> Provider res" where
  "ProviderForSuite suiteID = bind_res (RequireAvailable suiteID) (\<lambda>_. providerForKnownSuite suiteID)"

definition DefaultProvider :: Provider where
  "DefaultProvider = intlV1Provider"

abbreviation CapabilitySign :: "32 word" where "CapabilitySign \<equiv> 1"
abbreviation CapabilityPublicKey :: "32 word" where "CapabilityPublicKey \<equiv> 2"

definition Supports :: "32 word \<Rightarrow> 32 word \<Rightarrow> bool" where
  "Supports caps capability \<longleftrightarrow> caps AND capability = capability"

record KeyHandle =
  kh_Provider :: string
  kh_KeyID :: string
  kh_Algorithm :: string

definition KeyHandle_Validate :: "KeyHandle \<Rightarrow> go_error option" where
  "KeyHandle_Validate h =
     err_if (TrimSpace (kh_Provider h) = '''' \<or> TrimSpace (kh_KeyID h) = '''' \<or>
             TrimSpace (kh_Algorithm h) = '''')
       (Wrapf ''%w: provider, key_id, and algorithm are required'' (CryptoErr ErrInvalidKeyHandle))"

record PublicKeyDescriptor =
  pkd_Suite :: suite_id
  pkd_KeyID :: string
  pkd_Algorithm :: string
  pkd_Encoding :: string
  pkd_Bytes :: bytes

text \<open>A \<open>Signer\<close> is the interface's method table.\<close>

record Signer =
  signer_Handle :: KeyHandle
  signer_Capabilities :: "32 word"
  signer_PublicKey :: "go_context \<Rightarrow> PublicKeyDescriptor res"
  signer_Sign :: "go_context \<Rightarrow> bytes \<Rightarrow> Signature res"

section \<open>Keys and signature encodings\<close>

definition validateSM2PublicKey :: "crypto_prims \<Rightarrow> bytes \<Rightarrow> go_error option" where
  "validateSM2PublicKey prims encoded =
     (if length encoded \<noteq> 65 \<or> encoded ! 0 \<noteq> 0x04
      then Some (Wrapf ''%w: SM2 public key must be a 65-byte uncompressed point''
                   (CryptoErr ErrInvalidKeyDescriptor))
      else case prim_sm2_point prims encoded of
             None \<Rightarrow> Some (Wrapf ''%w: invalid SM2 public key: %v'' (CryptoErr ErrInvalidKeyDescriptor))
           | Some canonical \<Rightarrow>
               err_if (canonical \<noteq> encoded)
                 (Wrapf ''%w: non-canonical SM2 public key'' (CryptoErr ErrInvalidKeyDescriptor)))"

definition ValidateSM2SignatureDER :: "crypto_prims \<Rightarrow> bytes \<Rightarrow> go_error option" where
  "ValidateSM2SignatureDER prims signature =
     (if length signature < 8 \<or> length signature > 72
      then Some (Wrapf ''%w: SM2 DER signature size %d'' (CryptoErr ErrUnsupportedEncoding))
      else case prim_sm2_der prims signature of
             None \<Rightarrow> Some (Wrapf ''%w: invalid SM2 DER signature'' (CryptoErr ErrUnsupportedEncoding))
           | Some (r, s, canonical) \<Rightarrow>
               if r \<le> 0 \<or> s \<le> 0 \<or> r \<ge> prim_sm2_order prims \<or> s \<ge> prim_sm2_order prims
               then Some (Wrapf ''%w: SM2 signature integers are out of range''
                            (CryptoErr ErrUnsupportedEncoding))
               else err_if (canonical \<noteq> signature)
                      (Wrapf ''%w: non-canonical SM2 DER signature'' (CryptoErr ErrUnsupportedEncoding)))"

definition validateSignatureEncoding :: "crypto_prims \<Rightarrow> Suite \<Rightarrow> bytes \<Rightarrow> go_error option" where
  "validateSignatureEncoding prims suite signature =
     (if sigspec_Encoding (suite_Signature suite) = Ed25519SignatureEncoding
      then err_if (length signature \<noteq> 64)
             (Wrapf ''%w: ed25519 signature size %d'' (CryptoErr ErrUnsupportedEncoding))
      else if sigspec_Encoding (suite_Signature suite) = SM2SignatureEncoding
      then ValidateSM2SignatureDER prims signature
      else Some (Wrapf ''%w: signature encoding %q'' (CryptoErr ErrUnsupportedEncoding)))"

definition ValidatePublicKey ::
  "crypto_prims \<Rightarrow> Provider option \<Rightarrow> PublicKeyDescriptor \<Rightarrow> go_error option" where
  "ValidatePublicKey prims provider descriptor =
     (case provider of
        None \<Rightarrow> Some (Wrapf ''%w: crypto provider is nil'' (CryptoErr ErrInvalidKeyDescriptor))
      | Some p \<Rightarrow>
     if pkd_Suite descriptor \<noteq> provider_Suite p
     then Some (Wrapf ''%w: descriptor suite %s does not match provider suite %s'' (SuiteErr ErrMixedSuite))
     else case provider_Verifier p (pkd_Algorithm descriptor) (pkd_Encoding descriptor) of
        Inl e \<Rightarrow> Some e
      | Inr verifier \<Rightarrow>
     if verifier_Algorithm verifier = SignatureEd25519
     then err_if (length (pkd_Bytes descriptor) \<noteq> 32)
            (Wrapf ''%w: ed25519 public key size %d'' (CryptoErr ErrInvalidKeyDescriptor))
     else if verifier_Algorithm verifier = SignatureSM2SM3
     then validateSM2PublicKey prims (pkd_Bytes descriptor)
     else Some (Wrapf ''%w: public key validation for %q'' (CryptoErr ErrUnsupportedAlgorithm)))"

definition ValidateSignerHandle :: "suite_id \<Rightarrow> Signer option \<Rightarrow> go_error option" where
  "ValidateSignerHandle suiteID signer =
     (case signer of
        None \<Rightarrow> Some (Wrapf ''%w: signer is nil'' (CryptoErr ErrInvalidKeyHandle))
      | Some sg \<Rightarrow>
     (case RequireAvailable suiteID of
        Inl e \<Rightarrow> Some e
      | Inr suite \<Rightarrow>
        first_err
          [err_if (\<not> Supports (signer_Capabilities sg) CapabilitySign)
             (Wrapf ''%w: sign'' (CryptoErr ErrUnsupportedCapability)),
           err_if (\<not> Supports (signer_Capabilities sg) CapabilityPublicKey)
             (Wrapf ''%w: public_key'' (CryptoErr ErrUnsupportedCapability)),
           KeyHandle_Validate (signer_Handle sg),
           err_if (kh_Algorithm (signer_Handle sg) \<noteq> sigspec_Algorithm (suite_Signature suite))
             (Wrapf ''%w: signer algorithm %q for suite %s'' (CryptoErr ErrUnsupportedAlgorithm))]))"

definition ValidateSignerWithProvider ::
  "crypto_prims \<Rightarrow> go_context \<Rightarrow> Provider option \<Rightarrow> Signer option \<Rightarrow> go_error option" where
  "ValidateSignerWithProvider prims ctx provider signer =
     (case provider of
        None \<Rightarrow> Some (Wrapf ''%w: crypto provider is nil'' (CryptoErr ErrInvalidKeyDescriptor))
      | Some p \<Rightarrow>
     (case ValidateSignerHandle (provider_Suite p) signer of
        Some e \<Rightarrow> Some e
      | None \<Rightarrow>
     (case signer of None \<Rightarrow> None | Some sg \<Rightarrow>
     (case signer_PublicKey sg ctx of
        Inl e \<Rightarrow> Some (Wrapf ''read signer public key: %w'' e)
      | Inr descriptor \<Rightarrow>
        if pkd_KeyID descriptor \<noteq> '''' \<and> pkd_KeyID descriptor \<noteq> kh_KeyID (signer_Handle sg)
        then Some (Wrapf ''%w: signer key_id %q does not match public key key_id %q''
                     (CryptoErr ErrInvalidKeyDescriptor))
        else ValidatePublicKey prims provider descriptor))))"

section \<open>Signing and verifying\<close>

definition signWithSuite ::
  "crypto_prims \<Rightarrow> go_context \<Rightarrow> Suite \<Rightarrow> Signer option \<Rightarrow> bytes \<Rightarrow> Signature res" where
  "signWithSuite prims ctx suite signer message =
     (case signer of
        None \<Rightarrow> Inl (Wrapf ''%w: signer is nil'' (CryptoErr ErrInvalidKeyHandle))
      | Some sg \<Rightarrow>
     checked ctx
    (if \<not> Supports (signer_Capabilities sg) CapabilitySign
     then Inl (Wrapf ''%w: sign'' (CryptoErr ErrUnsupportedCapability))
     else checked (KeyHandle_Validate (signer_Handle sg))
    (if kh_Algorithm (signer_Handle sg) \<noteq> sigspec_Algorithm (suite_Signature suite)
     then Inl (Wrapf ''%w: signer algorithm %q for suite %s'' (CryptoErr ErrUnsupportedAlgorithm))
     else bind_res (signer_Sign sg ctx message) (\<lambda>sig.
     if sig_Alg sig \<noteq> sigspec_Algorithm (suite_Signature suite)
     then Inl (Wrapf ''%w: provider returned signature algorithm %q'' (CryptoErr ErrUnsupportedAlgorithm))
     else if sig_KeyID sig \<noteq> kh_KeyID (signer_Handle sg)
     then Inl (Wrapf ''%w: provider returned signature key_id %q for handle %q''
                 (CryptoErr ErrInvalidKeyHandle))
     else checked (validateSignatureEncoding prims suite (sig_Signature sig)) (Inr sig)))))"

definition Sign ::
  "crypto_prims \<Rightarrow> go_context \<Rightarrow> suite_id \<Rightarrow> Signer option \<Rightarrow> bytes \<Rightarrow> Signature res" where
  "Sign prims ctx suiteID signer message =
     bind_res (RequireAvailable suiteID) (\<lambda>suite. signWithSuite prims ctx suite signer message)"

definition verifier_Verify ::
  "crypto_prims \<Rightarrow> go_context \<Rightarrow> Verifier \<Rightarrow> PublicKeyDescriptor \<Rightarrow> bytes \<Rightarrow> Signature \<Rightarrow> go_error option" where
  "verifier_Verify prims ctx v descriptor message sig =
     (case ctx of Some e \<Rightarrow> Some e | None \<Rightarrow>
     (case v of
        ed25519Verifier \<Rightarrow>
          if sig_Alg sig \<noteq> SignatureEd25519
          then Some (Wrapf ''%w: signature %q'' (CryptoErr ErrUnsupportedAlgorithm))
          else if length (sig_Signature sig) \<noteq> 64
          then Some (Wrapf ''%w: ed25519 signature size %d'' (CryptoErr ErrUnsupportedEncoding))
          else err_if (\<not> prim_ed25519_verify prims (pkd_Bytes descriptor) message (sig_Signature sig))
                 (New_err ''ed25519 signature verification failed'')
      | sm2Verifier \<Rightarrow>
          if sig_Alg sig \<noteq> SignatureSM2SM3
          then Some (Wrapf ''%w: signature %q'' (CryptoErr ErrUnsupportedAlgorithm))
          else case ValidateSM2SignatureDER prims (sig_Signature sig) of
            Some e \<Rightarrow> Some e
          | None \<Rightarrow>
              if prim_sm2_point prims (pkd_Bytes descriptor) = None
              then Some (Wrapf ''%w: invalid SM2 public key: %v'' (CryptoErr ErrInvalidKeyDescriptor))
              else err_if (\<not> prim_sm2_verify prims (pkd_Bytes descriptor)
                              (string_bytes SM2DefaultUserID) message (sig_Signature sig))
                     (New_err ''SM2-SM3 signature verification failed'')))"

definition Verify_sig ::
  "crypto_prims \<Rightarrow> go_context \<Rightarrow> Provider option \<Rightarrow> PublicKeyDescriptor \<Rightarrow> bytes \<Rightarrow> Signature \<Rightarrow> go_error option" where
  "Verify_sig prims ctx provider descriptor message sig =
     (case ctx of Some e \<Rightarrow> Some e | None \<Rightarrow>
     (case ValidatePublicKey prims provider descriptor of Some e \<Rightarrow> Some e | None \<Rightarrow>
     if pkd_KeyID descriptor \<noteq> '''' \<and> pkd_KeyID descriptor \<noteq> sig_KeyID sig
     then Some (Wrapf ''%w: signature key_id %q does not match public key key_id %q''
                  (CryptoErr ErrInvalidKeyDescriptor))
     else case provider of None \<Rightarrow> None | Some p \<Rightarrow>
     (case provider_Verifier p (pkd_Algorithm descriptor) (pkd_Encoding descriptor) of
        Inl e \<Rightarrow> Some e
      | Inr v \<Rightarrow> verifier_Verify prims ctx v descriptor message sig)))"

text \<open>The software Ed25519 signer of \<open>NewEd25519Signer\<close>.\<close>

definition NewEd25519PublicKey :: "crypto_prims \<Rightarrow> string \<Rightarrow> bytes \<Rightarrow> PublicKeyDescriptor res" where
  "NewEd25519PublicKey prims keyID publicKey =
     (let descriptor = \<lparr>pkd_Suite = INTLV1, pkd_KeyID = keyID, pkd_Algorithm = SignatureEd25519,
                        pkd_Encoding = Ed25519PublicKeyEncoding, pkd_Bytes = publicKey\<rparr>
      in checked (ValidatePublicKey prims (Some DefaultProvider) descriptor) (Inr descriptor))"

definition NewEd25519Signer :: "crypto_prims \<Rightarrow> string \<Rightarrow> bytes \<Rightarrow> Signer res" where
  "NewEd25519Signer prims keyID privateKey =
     (if TrimSpace keyID = ''''
      then Inl (Wrapf ''%w: key_id is required'' (CryptoErr ErrInvalidKeyHandle))
      else if length privateKey \<noteq> 64
      then Inl (Wrapf ''%w: ed25519 private key size %d'' (CryptoErr ErrInvalidKeyHandle))
      else Inr
        \<lparr>signer_Handle = \<lparr>kh_Provider = ''software'', kh_KeyID = keyID, kh_Algorithm = SignatureEd25519\<rparr>,
         signer_Capabilities = CapabilitySign OR CapabilityPublicKey,
         signer_PublicKey = (\<lambda>ctx. checked ctx
           (NewEd25519PublicKey prims keyID (prim_ed25519_public prims privateKey))),
         signer_Sign = (\<lambda>ctx message. checked ctx
           (Inr \<lparr>sig_Alg = SignatureEd25519, sig_KeyID = keyID,
                 sig_Signature = prim_ed25519_sign prims privateKey message\<rparr>))\<rparr>)"

section \<open>Hashing\<close>

definition HashBytesWithProvider :: "crypto_prims \<Rightarrow> Provider option \<Rightarrow> string \<Rightarrow> bytes \<Rightarrow> bytes res" where
  "HashBytesWithProvider prims provider alg data =
     (case provider of
        None \<Rightarrow> Inl (New_err ''crypto provider is required'')
      | Some p \<Rightarrow> bind_res (provider_HashFactory p alg) (\<lambda>factory. Inr (factory_Sum prims factory data)))"

text \<open>An \<open>io.Reader\<close> is the bytes it delivers and the error, if any, that then stops it.\<close>

type_synonym reader = "bytes \<times> go_error option"

definition hashReader :: "crypto_prims \<Rightarrow> HashFactory \<Rightarrow> reader \<Rightarrow> (bytes \<times> int64) res" where
  "hashReader prims factory r =
     (case snd r of
        Some e \<Rightarrow> Inl (Wrapf ''hash reader: %w'' e)
      | None \<Rightarrow> Inr (factory_Sum prims factory (fst r), int (length (fst r))))"

definition HashReaderWithProvider ::
  "crypto_prims \<Rightarrow> Provider option \<Rightarrow> string \<Rightarrow> reader \<Rightarrow> (bytes \<times> int64) res" where
  "HashReaderWithProvider prims provider alg r =
     (case provider of
        None \<Rightarrow> Inl (New_err ''crypto provider is required'')
      | Some p \<Rightarrow> bind_res (provider_HashFactory p alg) (\<lambda>factory. hashReader prims factory r))"

section \<open>Signature input\<close>

datatype SignaturePurpose =
    SignaturePurposeClientClaim
  | SignaturePurposeAcceptedReceipt
  | SignaturePurposeCommittedReceipt
  | SignaturePurposeKeyEvent
  | SignaturePurposeSignedTreeHead
  | SignaturePurposeStatusRefresh
  | SignaturePurposeStatusSubscription
  | SignaturePurposeStatusNotificationRoutes

definition signatureDomain :: "Suite \<Rightarrow> SignaturePurpose \<Rightarrow> string res" where
  "signatureDomain suite purpose =
     (let d = suite_Domains suite;
          domain = (case purpose of
             SignaturePurposeClientClaim \<Rightarrow> dom_ClientClaimSigning d
           | SignaturePurposeAcceptedReceipt \<Rightarrow> dom_AcceptedReceipt d
           | SignaturePurposeCommittedReceipt \<Rightarrow> dom_CommittedReceipt d
           | SignaturePurposeKeyEvent \<Rightarrow> dom_KeyEventSigning d
           | SignaturePurposeSignedTreeHead \<Rightarrow> dom_SignedTreeHead d
           | SignaturePurposeStatusRefresh \<Rightarrow> dom_StatusRefresh d
           | SignaturePurposeStatusSubscription \<Rightarrow> dom_StatusSubscription d
           | SignaturePurposeStatusNotificationRoutes \<Rightarrow> dom_StatusNotificationRoutes d)
      in if domain = ''''
         then Inl (Wrapf ''%w: empty signature domain for %q in suite %s'' (CryptoErr ErrUnsupportedEncoding))
         else Inr domain)"

definition AppendSignatureInputForSuite ::
  "bytes \<Rightarrow> suite_id \<Rightarrow> SignaturePurpose \<Rightarrow> bytes \<Rightarrow> bytes res" where
  "AppendSignatureInputForSuite dst suiteID purpose payload =
     bind_res (RequireKnown suiteID) (\<lambda>suite.
     bind_res (signatureDomain suite purpose) (\<lambda>domain.
       let sep = enc_DomainSeparator (suite_Encoding suite);
           encoding = enc_SignatureInputEncoding (suite_Encoding suite)
       in if encoding = SignatureInputLegacyV1
          then Inr (dst @ string_bytes domain @ [sep] @ payload)
          else if encoding = SignatureInputSuiteFramedV2
          then Inr (dst @ string_bytes domain @ [sep] @ string_bytes (suite_ID suite) @ [sep] @ payload)
          else Inl (Wrapf ''%w: signature input %q for suite %s'' (CryptoErr ErrUnsupportedEncoding))))"

definition SignatureInputForSuite :: "suite_id \<Rightarrow> SignaturePurpose \<Rightarrow> bytes \<Rightarrow> bytes res" where
  "SignatureInputForSuite suiteID purpose payload = AppendSignatureInputForSuite [] suiteID purpose payload"

section \<open>Facts about providers and hashing\<close>

lemma provider_suite_known [simp]: "\<exists>s. Lookup (provider_Suite p) = Some s"
  by (cases p) auto

lemma provider_Suite_inj: "provider_Suite p = provider_Suite q \<longleftrightarrow> p = q"
  by (cases p; cases q) auto

lemma ProviderForSuite_Inr: "ProviderForSuite sid = Inr p \<longleftrightarrow> provider_Suite p = sid"
  by (cases p)
    (auto simp: ProviderForSuite_def providerForKnownSuite_def check_simps RequireAvailable_Inr RequireKnown_Inr
      Lookup_Some_iff split: if_splits)

lemma length_factory_Sum [simp, size_intros]: "length (factory_Sum prims f data) = 32"
  by (cases f) auto

lemma factory_Size_32 [simp]: "factory_Size f = 32"
  by (cases f) auto

lemma HashBytesWithProvider_length [size_intros]:
  "HashBytesWithProvider prims pr alg data = Inr h \<Longrightarrow> length h = 32"
  by (auto simp: HashBytesWithProvider_def check_simps split: option.splits)

lemma suite_hash_algorithms:
  "hash_Algorithm (suite_ContentHash intl_v1_suite) = HashSHA256"
  "hash_Algorithm (suite_ClaimHash intl_v1_suite) = HashSHA256"
  "hash_Algorithm (suite_SignatureHash intl_v1_suite) = HashSHA256"
  "hash_Algorithm (suite_RecordIDHash intl_v1_suite) = HashSHA256"
  "hash_Algorithm (suite_StorageIntegrityHash intl_v1_suite) = HashSHA256"
  "hash_Algorithm (merkle_Hash (suite_Merkle intl_v1_suite)) = HashSHA256"
  "hash_Algorithm (suite_ContentHash cn_sm_v1_suite) = HashSM3"
  "hash_Algorithm (suite_ClaimHash cn_sm_v1_suite) = HashSM3"
  "hash_Algorithm (suite_SignatureHash cn_sm_v1_suite) = HashSM3"
  "hash_Algorithm (suite_RecordIDHash cn_sm_v1_suite) = HashSM3"
  "hash_Algorithm (suite_StorageIntegrityHash cn_sm_v1_suite) = HashSM3"
  "hash_Algorithm (merkle_Hash (suite_Merkle cn_sm_v1_suite)) = HashSM3"
  by (simp_all add: intl_v1_suite_def cn_sm_v1_suite_def sha256_spec_def sm3_spec_def)

lemma HashFactoryForSuite_simps [simp]:
  "HashFactoryForSuite INTLV1 HashSHA256 = Inr sha256Factory"
  "HashFactoryForSuite CNSMV1 HashSM3 = Inr sm3Factory"
  by (simp_all add: HashFactoryForSuite_def suiteUsesHashAlgorithm_def suite_hash_algorithms)

section \<open>Domain separation of signature inputs\<close>

lemma zero_notin_string_bytes: "CHR 0x00 \<notin> set s \<Longrightarrow> 0 \<notin> set (string_bytes s)"
proof -
  have "(word_of_nat (of_char c) :: byte) = 0 \<Longrightarrow> c = CHR 0x00" for c
    using char_byte_inj [of c "CHR 0x00"] by simp
  then show "CHR 0x00 \<notin> set s \<Longrightarrow> ?thesis"
    by (force simp: string_bytes_def)
qed

lemma nul_frame_inj:
  assumes "CHR 0x00 \<notin> set d" "CHR 0x00 \<notin> set e"
    and "string_bytes d @ 0 # x = string_bytes e @ 0 # y"
  shows "d = e \<and> x = y"
proof -
  have "0 \<notin> set (string_bytes d)" "0 \<notin> set (string_bytes e)"
    using assms(1,2) by (simp_all add: zero_notin_string_bytes)
  then have "string_bytes d = string_bytes e \<and> x = y"
    using assms(3) by (simp add: append_sep_inj)
  then show ?thesis by (simp add: string_bytes_inj)
qed

fun purpose_domain :: "SignaturePurpose \<Rightarrow> string" where
  "purpose_domain SignaturePurposeClientClaim = ''trustdb.client-claim.v''"
| "purpose_domain SignaturePurposeAcceptedReceipt = ''trustdb.accepted-receipt.v''"
| "purpose_domain SignaturePurposeCommittedReceipt = ''trustdb.committed-receipt.v''"
| "purpose_domain SignaturePurposeKeyEvent = ''trustdb.key-event.v''"
| "purpose_domain SignaturePurposeSignedTreeHead = ''trustdb.signed-tree-head.v''"
| "purpose_domain SignaturePurposeStatusRefresh = ''trustdb.status-refresh.v''"
| "purpose_domain SignaturePurposeStatusSubscription = ''trustdb.status-subscription.v''"
| "purpose_domain SignaturePurposeStatusNotificationRoutes = ''trustdb.status-notification-routes.v''"

lemma purpose_domain_inj: "purpose_domain p = purpose_domain q \<longleftrightarrow> p = q"
  by (cases p; cases q) simp_all

lemma purpose_domain_nul: "CHR 0x00 \<notin> set (purpose_domain p)"
  by (cases p) simp_all

lemma signatureDomain_simps:
  "signatureDomain intl_v1_suite p = Inr (purpose_domain p @ ''1'')"
  "signatureDomain cn_sm_v1_suite p = Inr (purpose_domain p @ ''2'')"
  by (cases p; simp add: signatureDomain_def intl_v1_suite_def cn_sm_v1_suite_def Let_def)+

lemma suite_encoding_simps [simp]:
  "enc_DomainSeparator (suite_Encoding intl_v1_suite) = 0"
  "enc_DomainSeparator (suite_Encoding cn_sm_v1_suite) = 0"
  "enc_SignatureInputEncoding (suite_Encoding intl_v1_suite) = SignatureInputLegacyV1"
  "enc_SignatureInputEncoding (suite_Encoding cn_sm_v1_suite) = SignatureInputSuiteFramedV2"
  by (simp_all add: intl_v1_suite_def cn_sm_v1_suite_def)

lemma SignatureInputForSuite_simps:
  "SignatureInputForSuite INTLV1 p x = Inr (string_bytes (purpose_domain p @ ''1'') @ 0 # x)"
  "SignatureInputForSuite CNSMV1 p x =
     Inr (string_bytes (purpose_domain p @ ''2'') @ 0 # string_bytes CNSMV1 @ 0 # x)"
  by (simp_all add: SignatureInputForSuite_def AppendSignatureInputForSuite_def signatureDomain_simps Let_def
      del: string_bytes_append)

lemma SignatureInputForSuite_known:
  "SignatureInputForSuite s p x = Inr b \<Longrightarrow> s = INTLV1 \<or> s = CNSMV1"
  by (auto simp: SignatureInputForSuite_def AppendSignatureInputForSuite_def check_simps RequireKnown_Inr
      Lookup_Some_iff)

lemma suite_domain_inj: "purpose_domain p @ ''1'' \<noteq> purpose_domain q @ ''2''"
  by (cases p; cases q) simp_all

lemma SignatureInput_frame:
  assumes "SignatureInputForSuite s p x = Inr b"
  obtains d r where "b = string_bytes d @ 0 # r" "CHR 0x00 \<notin> set d"
    "s = INTLV1 \<and> d = purpose_domain p @ ''1'' \<and> r = x \<or>
     s = CNSMV1 \<and> d = purpose_domain p @ ''2'' \<and> r = string_bytes CNSMV1 @ 0 # x"
  using SignatureInputForSuite_known [OF assms] assms purpose_domain_nul [of p] that
  by (elim disjE) (simp_all add: SignatureInputForSuite_simps del: string_bytes_append)

lemma SignatureInput_separated:
  assumes "SignatureInputForSuite s p x = Inr b" "SignatureInputForSuite t q y = Inr b"
  shows "s = t \<and> p = q \<and> x = y"
proof -
  obtain d r where d: "b = string_bytes d @ 0 # r" "CHR 0x00 \<notin> set d"
    "s = INTLV1 \<and> d = purpose_domain p @ ''1'' \<and> r = x \<or>
     s = CNSMV1 \<and> d = purpose_domain p @ ''2'' \<and> r = string_bytes CNSMV1 @ 0 # x"
    by (rule SignatureInput_frame [OF assms(1)])
  obtain e u where e: "b = string_bytes e @ 0 # u" "CHR 0x00 \<notin> set e"
    "t = INTLV1 \<and> e = purpose_domain q @ ''1'' \<and> u = y \<or>
     t = CNSMV1 \<and> e = purpose_domain q @ ''2'' \<and> u = string_bytes CNSMV1 @ 0 # y"
    by (rule SignatureInput_frame [OF assms(2)])
  have "d = e \<and> r = u"
    by (rule nul_frame_inj) (use d e in simp_all)
  with d(3) e(3) show ?thesis
    using suite_domain_inj [of p q] suite_domain_inj [of q p] purpose_domain_inj [of p q] by auto
qed

section \<open>Signatures made here verify here\<close>

lemma Sign_Inr:
  assumes "Sign prims ctx sid signer msg = Inr sig"
  shows "\<exists>sg suite. signer = Some sg \<and> Lookup sid = Some suite \<and> ctx = None \<and>
      signer_Sign sg ctx msg = Inr sig \<and> sig_Alg sig = sigspec_Algorithm (suite_Signature suite) \<and>
      sig_KeyID sig = kh_KeyID (signer_Handle sg) \<and>
      validateSignatureEncoding prims suite (sig_Signature sig) = None"
  using assms
  by (auto simp: Sign_def signWithSuite_def check_simps RequireAvailable_Inr split: option.splits if_splits)

text \<open>
  What a signer promises about a public key: every signature it returns, the public key's provider
  accepts. For the software signers this is the correctness of Ed25519 and SM2.
\<close>

definition signer_correct ::
  "crypto_prims \<Rightarrow> Provider \<Rightarrow> Signer \<Rightarrow> PublicKeyDescriptor \<Rightarrow> bool" where
  "signer_correct prims p sg pk \<longleftrightarrow>
     (\<forall>msg sig. signer_Sign sg None msg = Inr sig \<longrightarrow>
        Verify_sig prims None (Some p) pk msg sig = None)"

lemma Sign_then_Verify:
  assumes "Sign prims ctx (provider_Suite p) (Some sg) msg = Inr sig" "signer_correct prims p sg pk"
  shows "Verify_sig prims None (Some p) pk msg sig = None"
  using Sign_Inr [OF assms(1)] assms(2) by (auto simp: signer_correct_def)

lemma NewEd25519Signer_correct:
  assumes signer: "NewEd25519Signer prims keyID priv = Inr sg"
    and pub: "NewEd25519PublicKey prims keyID (prim_ed25519_public prims priv) = Inr pk"
    and prim: "\<And>m. length (prim_ed25519_sign prims priv m) = 64"
      "\<And>m. prim_ed25519_verify prims (prim_ed25519_public prims priv) m (prim_ed25519_sign prims priv m)"
  shows "signer_correct prims intlV1Provider sg pk"
  unfolding signer_correct_def
proof (intro allI impI)
  fix msg sig
  assume "signer_Sign sg None msg = Inr sig"
  then have sig: "sig = \<lparr>sig_Alg = SignatureEd25519, sig_KeyID = keyID,
      sig_Signature = prim_ed25519_sign prims priv msg\<rparr>"
    using signer by (auto simp: NewEd25519Signer_def split: if_splits)
  have pk: "ValidatePublicKey prims (Some intlV1Provider) pk = None"
    "pk = \<lparr>pkd_Suite = INTLV1, pkd_KeyID = keyID, pkd_Algorithm = SignatureEd25519,
           pkd_Encoding = Ed25519PublicKeyEncoding, pkd_Bytes = prim_ed25519_public prims priv\<rparr>"
    using pub by (auto simp: NewEd25519PublicKey_def DefaultProvider_def Let_def check_simps)
  show "Verify_sig prims None (Some intlV1Provider) pk msg sig = None"
    using prim by (simp add: Verify_sig_def verifier_Verify_def pk(1)) (simp add: pk(2) sig)
qed

section \<open>A concrete instance of the primitives\<close>

text \<open>
  Primitives for evaluating examples: digests keep the first 32 bytes, an Ed25519 signature is the
  message padded or cut to 64 bytes, and no SM2 key decodes. They satisfy the laws the theorems
  assume of a signer and say nothing about cryptographic strength.
\<close>

definition pad64 :: "bytes \<Rightarrow> bytes" where
  "pad64 b = take 64 (b @ replicate 64 0)"

definition sample_prims :: crypto_prims where
  "sample_prims =
     \<lparr>prim_sha256 = take 32, prim_sm3 = take 32,
      prim_ed25519_verify = (\<lambda>pub msg sig. sig = pad64 msg),
      prim_ed25519_sign = (\<lambda>priv msg. pad64 msg),
      prim_ed25519_public = drop 32,
      prim_sm2_point = (\<lambda>b. None), prim_sm2_der = (\<lambda>b. None), prim_sm2_order = 1,
      prim_sm2_verify = (\<lambda>pub uid msg sig. False)\<rparr>"

definition sample_pk :: PublicKeyDescriptor where
  "sample_pk = \<lparr>pkd_Suite = INTLV1, pkd_KeyID = ''k'', pkd_Algorithm = SignatureEd25519,
     pkd_Encoding = Ed25519PublicKeyEncoding, pkd_Bytes = replicate 32 0\<rparr>"

definition sample_signer :: Signer where
  "sample_signer =
     \<lparr>signer_Handle = \<lparr>kh_Provider = ''software'', kh_KeyID = ''k'', kh_Algorithm = SignatureEd25519\<rparr>,
      signer_Capabilities = CapabilitySign OR CapabilityPublicKey,
      signer_PublicKey = (\<lambda>ctx. checked ctx (Inr sample_pk)),
      signer_Sign = (\<lambda>ctx message. checked ctx
        (Inr \<lparr>sig_Alg = SignatureEd25519, sig_KeyID = ''k'', sig_Signature = pad64 message\<rparr>))\<rparr>"

lemma length_pad64 [simp]: "length (pad64 b) = 64"
  by (simp add: pad64_def)

lemma TrimSpace_samples [simp]:
  "TrimSpace ''k'' = ''k''" "TrimSpace ''software'' = ''software''" "TrimSpace ''ed25519'' = ''ed25519''"
  by code_simp+

lemma sample_pk_New: "NewEd25519PublicKey sample_prims ''k'' (replicate 32 0) = Inr sample_pk"
  by (simp add: NewEd25519PublicKey_def ValidatePublicKey_def DefaultProvider_def sample_pk_def Let_def)

lemma sample_signer_New: "NewEd25519Signer sample_prims ''k'' (replicate 64 0) = Inr sample_signer"
proof -
  have "prim_ed25519_public sample_prims (replicate 64 0) = replicate 32 0"
    by (simp add: sample_prims_def)
  then show ?thesis
    using sample_pk_New by (simp add: NewEd25519Signer_def sample_signer_def sample_prims_def fun_eq_iff)
qed

lemma sample_signer_correct: "signer_correct sample_prims intlV1Provider sample_signer sample_pk"
  using sample_pk_New
  by (intro NewEd25519Signer_correct [OF sample_signer_New]) (simp_all add: sample_prims_def)

section \<open>Properties\<close>

text \<open>C21. Signature inputs are domain separated: equal bytes to be signed come from the same
suite, the same purpose and the same payload, so that no signature over one kind of object can be
presented as a signature over another.\<close>

theorem signature_input_separated:
  assumes "SignatureInputForSuite s p x = Inr b" "SignatureInputForSuite t q y = Inr b"
  shows "s = t \<and> p = q \<and> x = y"
  using SignatureInput_separated [OF assms] .

theorem signature_input_separated_witness:
  "SignatureInputForSuite CNSMV1 SignaturePurposeClientClaim [1] \<noteq>
   SignatureInputForSuite INTLV1 SignaturePurposeKeyEvent [1]"
proof
  assume "SignatureInputForSuite CNSMV1 SignaturePurposeClientClaim [1] =
    SignatureInputForSuite INTLV1 SignaturePurposeKeyEvent [1]"
  then show False
    using signature_input_separated [of CNSMV1 SignaturePurposeClientClaim "[1]" _ INTLV1 SignaturePurposeKeyEvent "[1]"]
    by (simp add: SignatureInputForSuite_simps)
qed

end
