(* ===== verification/Model_Suite.thy ===== *)
theory Model_Suite
  imports Data_Model
begin

text \<open>
  \<open>internal/modelsuite/validate.go\<close>: the suite gate of the model objects. The dynamic type
  switch of \<open>Require\<close> is a datatype with one constructor per case; \<open>bound_suites\<close> and
  \<open>bound_name\<close> are the arguments each case passes to the local closure \<open>require\<close>. The
  cases \<open>model.ClientKey\<close> and \<open>model.KeyEvent\<close>, which decode a key descriptor, are not
  part of the datatype.
\<close>

datatype suite_bound =
    SB_ClientClaim ClientClaim
  | SB_SignedClaim SignedClaim
  | SB_ServerRecord ServerRecord
  | SB_AcceptedReceipt AcceptedReceipt
  | SB_CommittedReceipt CommittedReceipt
  | SB_ProofBundle ProofBundle
  | SB_SingleProof SingleProof
  | SB_RecordIndex RecordIndex
  | SB_RecordStatus RecordStatus
  | SB_StatusRefresh StatusRefresh
  | SB_BatchRoot BatchRoot
  | SB_WALCheckpoint WALCheckpoint
  | SB_BatchManifest BatchManifest
  | SB_BatchTreeLeaf BatchTreeLeaf
  | SB_BatchTreeNode BatchTreeNode
  | SB_BatchTreeSnapshot BatchTreeSnapshot
  | SB_GlobalLogLeaf GlobalLogLeaf
  | SB_GlobalLogNode GlobalLogNode
  | SB_GlobalLogState GlobalLogState
  | SB_SignedTreeHead SignedTreeHead
  | SB_GlobalLogProof GlobalLogProof
  | SB_GlobalLogTile GlobalLogTile
  | SB_GlobalLogOutboxItem GlobalLogOutboxItem
  | SB_GlobalLogAppend GlobalLogAppend
  | SB_STHAnchorCandidate STHAnchorCandidate
  | SB_STHAnchorResult STHAnchorResult
  | SB_STHAnchorLatestReference STHAnchorLatestReference
  | SB_STHAnchorSchedule STHAnchorSchedule
  | SB_L5CoverageCheckpoint L5CoverageCheckpoint
  | SB_IdempotencyDecision IdempotencyDecision

text \<open>The identifiers a value of each type contributes, in the order of the source.\<close>

fun bound_suites :: "suite_bound \<Rightarrow> suite_id list" where
  "bound_suites (SB_ClientClaim v) = [claim_CryptoSuite v]"
| "bound_suites (SB_SignedClaim v) = [signed_CryptoSuite v, claim_CryptoSuite (signed_Claim v)]"
| "bound_suites (SB_ServerRecord v) = [rec_CryptoSuite v]"
| "bound_suites (SB_AcceptedReceipt v) = [acc_CryptoSuite v]"
| "bound_suites (SB_CommittedReceipt v) = [com_CryptoSuite v]"
| "bound_suites (SB_ProofBundle v) =
       bundle_CryptoSuite v #
        (if signed_SchemaVersion (bundle_SignedClaim v) \<noteq> ''''
         then signed_CryptoSuite (bundle_SignedClaim v) #
           (if claim_SchemaVersion (signed_Claim (bundle_SignedClaim v)) \<noteq> ''''
            then [claim_CryptoSuite (signed_Claim (bundle_SignedClaim v))] else [])
         else []) @
        (if rec_SchemaVersion (bundle_ServerRecord v) \<noteq> '''' then [rec_CryptoSuite (bundle_ServerRecord v)] else []) @
        (if acc_SchemaVersion (bundle_AcceptedReceipt v) \<noteq> ''''
         then [acc_CryptoSuite (bundle_AcceptedReceipt v)] else []) @
        (if com_SchemaVersion (bundle_CommittedReceipt v) \<noteq> ''''
         then [com_CryptoSuite (bundle_CommittedReceipt v)] else [])"
| "bound_suites (SB_SingleProof v) =
       [sproof_CryptoSuite v, bundle_CryptoSuite (sproof_ProofBundle v)] @
        (case sproof_GlobalProof v of None \<Rightarrow> []
         | Some g \<Rightarrow> [gproof_CryptoSuite g, sth_CryptoSuite (gproof_STH g)]) @
        (case sproof_AnchorResult v of None \<Rightarrow> []
         | Some a \<Rightarrow> [ares_CryptoSuite a, sth_CryptoSuite (ares_STH a)]) @
        concat (map (\<lambda>e. ident_CryptoSuite e # map certst_CryptoSuite (ident_CertificateStatuses e))
          (sproof_IdentityEvidence v))"
| "bound_suites (SB_RecordIndex v) = [ridx_CryptoSuite v]"
| "bound_suites (SB_RecordStatus v) = [rstat_CryptoSuite v]"
| "bound_suites (SB_StatusRefresh v) = [srefresh_CryptoSuite v]"
| "bound_suites (SB_BatchRoot v) = [broot_CryptoSuite v]"
| "bound_suites (SB_WALCheckpoint v) = [walcp_CryptoSuite v]"
| "bound_suites (SB_BatchManifest v) = [manifest_CryptoSuite v]"
| "bound_suites (SB_BatchTreeLeaf v) = [btleaf_CryptoSuite v]"
| "bound_suites (SB_BatchTreeNode v) = [btnode_CryptoSuite v]"
| "bound_suites (SB_BatchTreeSnapshot v) = [bsnap_CryptoSuite v]"
| "bound_suites (SB_GlobalLogLeaf v) = [gleaf_CryptoSuite v]"
| "bound_suites (SB_GlobalLogNode v) = [gnode_CryptoSuite v]"
| "bound_suites (SB_GlobalLogState v) = [gstate_CryptoSuite v]"
| "bound_suites (SB_SignedTreeHead v) = [sth_CryptoSuite v]"
| "bound_suites (SB_GlobalLogProof v) = [gproof_CryptoSuite v, sth_CryptoSuite (gproof_STH v)]"
| "bound_suites (SB_GlobalLogTile v) = [gtile_CryptoSuite v]"
| "bound_suites (SB_GlobalLogOutboxItem v) =
       gobox_CryptoSuite v #
        (if broot_SchemaVersion (gobox_BatchRoot v) \<noteq> '''' then [broot_CryptoSuite (gobox_BatchRoot v)] else []) @
        (if sth_TreeSize (gobox_STH v) \<noteq> 0 then [sth_CryptoSuite (gobox_STH v)] else [])"
| "bound_suites (SB_GlobalLogAppend v) =
       [gleaf_CryptoSuite (gapp_Leaf v), gstate_CryptoSuite (gapp_State v), sth_CryptoSuite (gapp_STH v)] @
        map gnode_CryptoSuite (gapp_Nodes v)"
| "bound_suites (SB_STHAnchorCandidate v) = [sth_CryptoSuite (cand_STH v)]"
| "bound_suites (SB_STHAnchorResult v) = [ares_CryptoSuite v, sth_CryptoSuite (ares_STH v)]"
| "bound_suites (SB_STHAnchorLatestReference v) = [alat_CryptoSuite v]"
| "bound_suites (SB_STHAnchorSchedule v) =
       sched_CryptoSuite v #
        (case sched_Pending v of None \<Rightarrow> [] | Some w \<Rightarrow> [sth_CryptoSuite (window_Target w)]) @
        (case sched_InFlight v of None \<Rightarrow> [] | Some a \<Rightarrow> [sth_CryptoSuite (attempt_Target a)])"
| "bound_suites (SB_L5CoverageCheckpoint v) = [l5cp_CryptoSuite v]"
| "bound_suites (SB_IdempotencyDecision v) =
       [iddec_CryptoSuite v, rec_CryptoSuite (iddec_Record v), acc_CryptoSuite (iddec_Accepted v)]"

fun bound_name :: "suite_bound \<Rightarrow> string" where
  "bound_name (SB_ClientClaim v) = ''client claim: %w''"
| "bound_name (SB_SignedClaim v) = ''signed claim: %w''"
| "bound_name (SB_ServerRecord v) = ''server record: %w''"
| "bound_name (SB_AcceptedReceipt v) = ''accepted receipt: %w''"
| "bound_name (SB_CommittedReceipt v) = ''committed receipt: %w''"
| "bound_name (SB_ProofBundle v) = ''proof bundle: %w''"
| "bound_name (SB_SingleProof v) = ''single proof: %w''"
| "bound_name (SB_RecordIndex v) = ''record index: %w''"
| "bound_name (SB_RecordStatus v) = ''record status: %w''"
| "bound_name (SB_StatusRefresh v) = ''status refresh: %w''"
| "bound_name (SB_BatchRoot v) = ''batch root: %w''"
| "bound_name (SB_WALCheckpoint v) = ''WAL checkpoint: %w''"
| "bound_name (SB_BatchManifest v) = ''batch manifest: %w''"
| "bound_name (SB_BatchTreeLeaf v) = ''batch tree leaf: %w''"
| "bound_name (SB_BatchTreeNode v) = ''batch tree node: %w''"
| "bound_name (SB_BatchTreeSnapshot v) = ''batch tree snapshot: %w''"
| "bound_name (SB_GlobalLogLeaf v) = ''global log leaf: %w''"
| "bound_name (SB_GlobalLogNode v) = ''global log node: %w''"
| "bound_name (SB_GlobalLogState v) = ''global log state: %w''"
| "bound_name (SB_SignedTreeHead v) = ''signed tree head: %w''"
| "bound_name (SB_GlobalLogProof v) = ''global log proof: %w''"
| "bound_name (SB_GlobalLogTile v) = ''global log tile: %w''"
| "bound_name (SB_GlobalLogOutboxItem v) = ''global log outbox: %w''"
| "bound_name (SB_GlobalLogAppend v) = ''global log append: %w''"
| "bound_name (SB_STHAnchorCandidate v) = ''STH anchor candidate: %w''"
| "bound_name (SB_STHAnchorResult v) = ''STH anchor result: %w''"
| "bound_name (SB_STHAnchorLatestReference v) = ''STH anchor latest reference: %w''"
| "bound_name (SB_STHAnchorSchedule v) = ''STH anchor schedule: %w''"
| "bound_name (SB_L5CoverageCheckpoint v) = ''L5 coverage checkpoint: %w''"
| "bound_name (SB_IdempotencyDecision v) = ''idempotency decision: %w''"

definition Require :: "suite_id \<Rightarrow> suite_bound \<Rightarrow> go_error option" where
  "Require expected val =
     (case RequireAvailable expected of
        Inl e \<Rightarrow> Some e
      | Inr _ \<Rightarrow>
          (case val of
             SB_STHAnchorLatestReference v \<Rightarrow>
               (if alat_SchemaVersion v = SchemaSTHAnchorLatestEmpty then None
                else map_option (Wrapf (bound_name val)) (RequireSame expected (bound_suites val)))
           | _ \<Rightarrow> map_option (Wrapf (bound_name val)) (RequireSame expected (bound_suites val))))"

section \<open>Facts\<close>

fun empty_reference :: "suite_bound \<Rightarrow> bool" where
  "empty_reference (SB_STHAnchorLatestReference v) \<longleftrightarrow> alat_SchemaVersion v = SchemaSTHAnchorLatestEmpty"
| "empty_reference _ \<longleftrightarrow> False"

lemma Require_None [check_simps]:
  "Require expected val = None \<longleftrightarrow>
     (\<exists>s. Lookup expected = Some s) \<and>
     (empty_reference val \<or> (\<forall>i \<in> set (bound_suites val). i = expected))"
proof (cases "RequireAvailable expected")
  case (Inl e)
  then have "\<nexists>s. Lookup expected = Some s"
    by (metis RequireAvailable_Inr sum.distinct(1))
  with Inl show ?thesis by (simp add: Require_def)
next
  case (Inr s)
  then have s: "Lookup expected = Some s" by (simp add: RequireAvailable_Inr)
  have eq: "Require expected val =
      (if empty_reference val then None
       else map_option (Wrapf (bound_name val)) (RequireSame expected (bound_suites val)))"
    by (cases val) (simp_all add: Require_def Inr del: bound_suites.simps bound_name.simps)
  show ?thesis
    unfolding eq using s by (simp add: RequireSame_None del: bound_suites.simps)
qed

end
