(* ===== verification/Cborx.thy ===== *)
theory Cborx
  imports Go_Errors
begin

text \<open>
  \<open>internal/cborx\<close>: the strict CBOR boundary. The encoder and the decoder themselves are
  the third-party package \<open>fxamacker/cbor\<close> and are parameters: \<open>enc\<close> stands for
  \<open>encMode.Marshal\<close> at one type, \<open>dec\<close> for \<open>Unmarshal\<close> of a strict mode, and a
  stream decoder returns the number of bytes it read from its reader and, on success, the value
  and the number of bytes that value occupies. A nil interface or pointer argument is
  \<open>None\<close>. A reader is the byte sequence it delivers before \<open>io.EOF\<close>; readers that fail
  are not modelled.
\<close>

type_synonym 'a encMode = "'a \<Rightarrow> bytes res"
type_synonym 'a decMode = "bytes \<Rightarrow> 'a res"

abbreviation DefaultMaxBytes :: int where "DefaultMaxBytes \<equiv> 1048576"

definition Marshal :: "'a encMode \<Rightarrow> 'a option \<Rightarrow> bytes res" where
  "Marshal enc v =
     (case v of
        None \<Rightarrow> Inl (New_err ''cborx: cannot marshal nil'')
      | Some x \<Rightarrow> map_err (Wrapf ''cborx: marshal: %w'') (enc x))"

text \<open>The buffer after the call and the error: a failed encoding is truncated away.\<close>

definition MarshalBuffer :: "'a encMode \<Rightarrow> bytes option \<Rightarrow> 'a option \<Rightarrow> bytes option \<times> go_error option" where
  "MarshalBuffer enc buf v =
     (case (v, buf) of
        (None, _) \<Rightarrow> (buf, Some (New_err ''cborx: cannot marshal nil''))
      | (_, None) \<Rightarrow> (buf, Some (New_err ''cborx: nil buffer''))
      | (Some x, Some b) \<Rightarrow>
          (case enc x of
             Inl e \<Rightarrow> (Some b, Some (Wrapf ''cborx: marshal: %w'' e))
           | Inr out \<Rightarrow> (Some (b @ out), None)))"

definition UnmarshalLimit :: "'a decMode \<Rightarrow> bytes \<Rightarrow> int \<Rightarrow> 'a res" where
  "UnmarshalLimit dec data maxBytes =
     checked (first_err
       [err_if (maxBytes \<le> 0) (New_err ''cborx: max bytes must be positive''),
        err_if (int (length data) > maxBytes) (New_err ''cborx: payload too large: %d > %d''),
        err_if (data = []) (New_err ''cborx: empty payload'')])
     (map_err (Wrapf ''cborx: unmarshal: %w'') (dec data))"

definition Unmarshal :: "'a decMode \<Rightarrow> bytes \<Rightarrow> 'a res" where
  "Unmarshal dec data = UnmarshalLimit dec data DefaultMaxBytes"

text \<open>\<open>mode\<close> is \<open>strictDecOptions(maxArrayElements, maxMapPairs).DecMode()\<close>.\<close>

definition UnmarshalLimits ::
  "(int \<Rightarrow> int \<Rightarrow> 'a decMode res) \<Rightarrow> bytes \<Rightarrow> int \<Rightarrow> int \<Rightarrow> int \<Rightarrow> 'a res" where
  "UnmarshalLimits mode data maxBytes maxArrayElements maxMapPairs =
     checked (first_err
       [err_if (maxBytes \<le> 0) (New_err ''cborx: max bytes must be positive''),
        err_if (maxArrayElements \<le> 0) (New_err ''cborx: max array elements must be positive''),
        err_if (maxMapPairs \<le> 0) (New_err ''cborx: max map pairs must be positive''),
        err_if (int (length data) > maxBytes) (New_err ''cborx: payload too large: %d > %d''),
        err_if (data = []) (New_err ''cborx: empty payload'')])
     (bind_res (map_err (Wrapf ''cborx: decode limits: %w'') (mode maxArrayElements maxMapPairs))
       (\<lambda>dec. map_err (Wrapf ''cborx: unmarshal: %w'') (dec data)))"


definition Wellformed :: "(bytes \<Rightarrow> go_error option) \<Rightarrow> bytes \<Rightarrow> go_error option" where
  "Wellformed check data =
     (if int (length data) > DefaultMaxBytes then Some (New_err ''cborx: payload too large: %d > %d'')
      else map_option (Wrapf ''cborx: wellformed: %w'') (check data))"

section \<open>Facts\<close>

lemma Marshal_Inr [check_simps]: "Marshal enc (Some x) = Inr b \<longleftrightarrow> enc x = Inr b"
  by (simp add: Marshal_def check_simps)

lemma MarshalBuffer_simps [simp]:
  "enc x = Inr out \<Longrightarrow> MarshalBuffer enc (Some b) (Some x) = (Some (b @ out), None)"
  "enc x = Inl e \<Longrightarrow> MarshalBuffer enc (Some b) (Some x) = (Some b, Some (Wrapf ''cborx: marshal: %w'' e))"
  by (simp_all add: MarshalBuffer_def)

lemma UnmarshalLimit_Inr [check_simps]:
  "UnmarshalLimit dec data m = Inr v \<longleftrightarrow>
     0 < m \<and> int (length data) \<le> m \<and> data \<noteq> [] \<and> dec data = Inr v"
  by (auto simp: UnmarshalLimit_def check_simps)


section \<open>Properties\<close>




end
