(* ===== verification/Rfc6962.thy ===== *)
theory Rfc6962
  imports Trust_Prelude
begin

text \<open>
  The abstract specification of the Merkle trees of \<open>internal/merkle\<close> and
  \<open>internal/globallog\<close>: the RFC 6962 tree hash of a list of leaf hashes, its audit paths,
  the replay of a path to a root and its consistency proofs, over an arbitrary node hash
  \<open>h\<close>. Nothing here is code of the program; the component theories prove that the code
  computes these functions, and inherit their properties.
\<close>

section \<open>The split point\<close>

text \<open>
  \<open>lpt n\<close> is the largest power of two below \<open>n\<close>, by the loop of
  \<open>largestPowerOfTwoLessThan\<close> on unbounded naturals.
\<close>

function pow2_loop :: "nat \<Rightarrow> nat \<Rightarrow> nat" where
  "pow2_loop k n = (if 0 < k \<and> 2 * k < n then pow2_loop (2 * k) n else k)"
  by pat_completeness auto
termination
  by (relation "measure (\<lambda>(k, n). n - k)") auto

declare pow2_loop.simps [simp del]

definition lpt :: "nat \<Rightarrow> nat" where
  "lpt n = (if n < 2 then 0 else pow2_loop 1 n)"

lemma pow2_loop_spec:
  "k = 2 ^ m \<Longrightarrow> k < n \<Longrightarrow> \<exists>j. pow2_loop k n = 2 ^ j \<and> 2 ^ j < n \<and> n \<le> 2 * 2 ^ j"
proof (induction k n arbitrary: m rule: pow2_loop.induct)
  case (1 k n)
  show ?case
  proof (cases "2 * k < n")
    case True
    then have "\<exists>j. pow2_loop (2 * k) n = 2 ^ j \<and> 2 ^ j < n \<and> n \<le> 2 * 2 ^ j"
      using 1(1) [of "Suc m"] 1(2) by simp
    with True 1(2) show ?thesis by (subst pow2_loop.simps) simp
  next
    case False
    with 1(2,3) have "2 ^ m < n \<and> n \<le> 2 * 2 ^ m" by simp
    then show ?thesis
      using 1(2) False by (subst pow2_loop.simps) auto
  qed
qed

lemma lpt_pow2: "2 \<le> n \<Longrightarrow> \<exists>j. lpt n = 2 ^ j \<and> 2 ^ j < n \<and> n \<le> 2 * 2 ^ j"
  using pow2_loop_spec [of 1 0 n] by (simp add: lpt_def)

lemma lpt_bounds:
  assumes "2 \<le> n"
  shows "0 < lpt n" "lpt n < n" "n \<le> 2 * lpt n"
  using lpt_pow2 [OF assms] by auto

lemma lpt_rest: "2 \<le> n \<Longrightarrow> n - lpt n < n"
  using lpt_bounds [of n] by simp

lemma lpt_small [simp]: "n < 2 \<Longrightarrow> lpt n = 0"
  by (simp add: lpt_def)

lemma pow2_unique:
  assumes "(2::nat) ^ i < n" "n \<le> 2 * 2 ^ i" "(2::nat) ^ j < n" "n \<le> 2 * 2 ^ j"
  shows "i = j"
proof -
  have "(2::nat) ^ i < 2 ^ Suc j" "(2::nat) ^ j < 2 ^ Suc i"
    using assms by auto
  then have "i < Suc j" "j < Suc i"
    by (simp_all only: power_strict_increasing_iff one_less_numeral_iff semiring_norm)
  then show ?thesis by simp
qed

lemma lpt_eqI: "2 ^ j < n \<Longrightarrow> n \<le> 2 * 2 ^ j \<Longrightarrow> lpt n = 2 ^ j"
proof -
  assume *: "2 ^ j < n" "n \<le> 2 * 2 ^ j"
  then have "2 \<le> n"
    by (metis Suc_leI dual_order.trans one_le_numeral one_le_power Suc_1 Suc_le_mono One_nat_def)
  then obtain i where "lpt n = 2 ^ i" "2 ^ i < n" "n \<le> 2 * 2 ^ i"
    using lpt_pow2 by blast
  then show ?thesis
    using pow2_unique * by blast
qed

lemma lpt_add: "0 < m \<Longrightarrow> m \<le> 2 ^ j \<Longrightarrow> lpt (2 ^ j + m) = 2 ^ j"
  by (rule lpt_eqI) auto

section \<open>Tree hash, audit path, replay\<close>

function mth :: "('d \<Rightarrow> 'd \<Rightarrow> 'd) \<Rightarrow> 'd list \<Rightarrow> 'd" where
  "mth h xs =
     (if length xs < 2 then hd xs
      else h (mth h (take (lpt (length xs)) xs)) (mth h (drop (lpt (length xs)) xs)))"
  by pat_completeness auto
termination
  by (relation "measure (\<lambda>(h, xs). length xs)") (auto simp: lpt_bounds lpt_rest not_less)

declare mth.simps [simp del]

lemma mth_single [simp]: "mth h [x] = x"
  by (simp add: mth.simps)

lemma mth_split:
  "2 \<le> length xs \<Longrightarrow>
   mth h xs = h (mth h (take (lpt (length xs)) xs)) (mth h (drop (lpt (length xs)) xs))"
  by (subst mth.simps) simp

lemma mth_append:
  assumes "length xs = 2 ^ j" "ys \<noteq> []" "length ys \<le> 2 ^ j"
  shows "mth h (xs @ ys) = h (mth h xs) (mth h ys)"
proof -
  have "lpt (length (xs @ ys)) = length xs"
    using assms lpt_add [of "length ys" j] by simp
  moreover have "2 \<le> length (xs @ ys)"
    using assms by (cases ys) (simp_all add: Suc_le_eq)
  ultimately show ?thesis
    using mth_split [of "xs @ ys" h] by simp
qed

function audit_path :: "('d \<Rightarrow> 'd \<Rightarrow> 'd) \<Rightarrow> 'd list \<Rightarrow> nat \<Rightarrow> 'd list" where
  "audit_path h xs i =
     (if length xs < 2 then []
      else let k = lpt (length xs)
           in if i < k then audit_path h (take k xs) i @ [mth h (drop k xs)]
              else audit_path h (drop k xs) (i - k) @ [mth h (take k xs)])"
  by pat_completeness auto
termination
  by (relation "measure (\<lambda>(h, xs, i). length xs)") (auto simp: lpt_bounds lpt_rest not_less)

declare audit_path.simps [simp del]

text \<open>
  Replaying a path: the leaf hash is combined with the elements of the path in order, the
  deepest first; the result is the root and the part of the path that is left.
\<close>

function replay :: "('d \<Rightarrow> 'd \<Rightarrow> 'd) \<Rightarrow> 'd \<Rightarrow> nat \<Rightarrow> nat \<Rightarrow> 'd list \<Rightarrow> ('d \<times> 'd list) option" where
  "replay h x i n ps =
     (if n < 2 then Some (x, ps)
      else let k = lpt n
           in if i < k
              then (case replay h x i k ps of
                      Some (l, p # ps') \<Rightarrow> Some (h l p, ps') | _ \<Rightarrow> None)
              else (case replay h x (i - k) (n - k) ps of
                      Some (r, p # ps') \<Rightarrow> Some (h p r, ps') | _ \<Rightarrow> None))"
  by pat_completeness auto
termination
  by (relation "measure (\<lambda>(h, x, i, n, ps). n)") (auto simp: lpt_bounds lpt_rest not_less)

declare replay.simps [simp del]

lemma replay_1 [simp]: "n < 2 \<Longrightarrow> replay h x i n ps = Some (x, ps)"
  by (simp add: replay.simps)

text \<open>Completeness: the audit path of a leaf replays to the root of the tree.\<close>

lemma replay_audit_path:
  "i < length xs \<Longrightarrow> replay h (xs ! i) i (length xs) (audit_path h xs i @ rest) = Some (mth h xs, rest)"
proof (induction h xs i arbitrary: rest rule: audit_path.induct)
  case (1 h xs i)
  show ?case
  proof (cases "length xs < 2")
    case True
    with "1.prems" have "xs = [xs ! 0] \<and> i = 0"
      by (cases xs) (auto simp: less_Suc_eq)
    then show ?thesis
      using True by (metis audit_path.simps append_Nil mth_single replay_1)
  next
    case False
    define k where "k = lpt (length xs)"
    have k: "0 < k" "k < length xs"
      using False lpt_bounds [of "length xs"] by (auto simp: k_def)
    have m: "mth h xs = h (mth h (take k xs)) (mth h (drop k xs))"
      using False mth_split [of xs h] by (simp add: k_def)
    show ?thesis
    proof (cases "i < k")
      case True
      have "replay h (take k xs ! i) i (length (take k xs))
              (audit_path h (take k xs) i @ mth h (drop k xs) # rest) =
            Some (mth h (take k xs), mth h (drop k xs) # rest)"
        by (rule "1.IH"(1)) (use False True k k_def in simp_all)
      then show ?thesis
        using False True k m
        by (subst replay.simps, subst audit_path.simps) (simp add: k_def Let_def min_def)
    next
      case i: False
      have "replay h (drop k xs ! (i - k)) (i - k) (length (drop k xs))
              (audit_path h (drop k xs) (i - k) @ mth h (take k xs) # rest) =
            Some (mth h (drop k xs), mth h (take k xs) # rest)"
        by (rule "1.IH"(2)) (use False i k "1.prems" k_def in simp_all)
      then show ?thesis
        using False i k m
        by (subst replay.simps, subst audit_path.simps) (simp add: k_def Let_def)
    qed
  qed
qed

text \<open>
  The replay a verifier runs, which also rejects path elements that fail a check \<open>c\<close> (their
  size, in the program).
\<close>

function replay_checked ::
  "('d \<Rightarrow> 'd \<Rightarrow> 'd) \<Rightarrow> ('d \<Rightarrow> bool) \<Rightarrow> 'd \<Rightarrow> nat \<Rightarrow> nat \<Rightarrow> 'd list \<Rightarrow> ('d \<times> 'd list) option" where
  "replay_checked h c x i n ps =
     (if n < 2 then Some (x, ps)
      else let k = lpt n
           in if i < k
              then (case replay_checked h c x i k ps of
                      Some (l, p # ps') \<Rightarrow> (if c p then Some (h l p, ps') else None) | _ \<Rightarrow> None)
              else (case replay_checked h c x (i - k) (n - k) ps of
                      Some (r, p # ps') \<Rightarrow> (if c p then Some (h p r, ps') else None) | _ \<Rightarrow> None))"
  by pat_completeness auto
termination
  by (relation "measure (\<lambda>(h, c, x, i, n, ps). n)") (auto simp: lpt_bounds lpt_rest not_less)

declare replay_checked.simps [simp del]

lemma replay_checked_Some:
  "replay_checked h c x i n ps = Some (r, rest) \<Longrightarrow>
   replay h x i n ps = Some (r, rest) \<and> (\<exists>us. ps = us @ rest \<and> list_all c us)"
proof (induction h c x i n ps arbitrary: r rest rule: replay_checked.induct)
  case (1 h c x i n ps)
  show ?case
  proof (cases "n < 2")
    case True
    with "1.prems" show ?thesis by (simp add: replay_checked.simps)
  next
    case n: False
    show ?thesis
    proof (cases "i < lpt n")
      case True
      have "replay_checked h c x i n ps = (case replay_checked h c x i (lpt n) ps of
          Some (l, p # ps') \<Rightarrow> (if c p then Some (h l p, ps') else None) | _ \<Rightarrow> None)"
        by (subst replay_checked.simps) (simp add: Let_def n True)
      with "1.prems" obtain l p where l: "replay_checked h c x i (lpt n) ps = Some (l, p # rest)" "c p" "r = h l p"
        by (auto split: option.splits list.splits if_splits)
      from "1.IH"(1) [OF n refl True l(1)] obtain us where
        "replay h x i (lpt n) ps = Some (l, p # rest)" "ps = us @ p # rest" "list_all c us" by blast
      with l n True show ?thesis
        by (intro conjI exI [of _ "us @ [p]"]) (subst replay.simps, simp_all add: Let_def)
    next
      case False
      have "replay_checked h c x i n ps = (case replay_checked h c x (i - lpt n) (n - lpt n) ps of
          Some (r, p # ps') \<Rightarrow> (if c p then Some (h p r, ps') else None) | _ \<Rightarrow> None)"
        by (subst replay_checked.simps) (simp add: Let_def n False)
      with "1.prems" obtain l p where l: "replay_checked h c x (i - lpt n) (n - lpt n) ps = Some (l, p # rest)" "c p" "r = h p l"
        by (auto split: option.splits list.splits if_splits)
      from "1.IH"(2) [OF n refl False l(1)] obtain us where
        "replay h x (i - lpt n) (n - lpt n) ps = Some (l, p # rest)" "ps = us @ p # rest" "list_all c us" by blast
      with l n False show ?thesis
        by (intro conjI exI [of _ "us @ [p]"]) (subst replay.simps, simp_all add: Let_def)
    qed
  qed
qed

lemma replay_suffix: "replay h x i n ps = Some (r, rest) \<Longrightarrow> \<exists>us. ps = us @ rest"
proof (induction h x i n ps arbitrary: r rest rule: replay.induct)
  case (1 h x i n ps)
  show ?case
  proof (cases "n < 2")
    case True
    with "1.prems" show ?thesis by simp
  next
    case n: False
    have "\<exists>l p us. ps = us @ p # rest"
      using "1.prems" n "1.IH"(1) [OF n refl] "1.IH"(2) [OF n refl]
      by (subst (asm) replay.simps)
        (auto simp: Let_def split: option.splits list.splits if_splits)
    then obtain p us where "ps = (us @ [p]) @ rest" by auto
    then show ?thesis by blast
  qed
qed

lemma replay_checked_all:
  "list_all c ps \<Longrightarrow> replay_checked h c x i n ps = replay h x i n ps"
proof (induction h c x i n ps rule: replay_checked.induct)
  case (1 h c x i n ps)
  show ?case
  proof (cases "n < 2")
    case True
    then show ?thesis by (simp add: replay_checked.simps)
  next
    case n: False
    have c: "c p" if "replay h x j m ps = Some (l, p # rest)" for j m l p rest
      using replay_suffix [OF that] "1.prems" by auto
    show ?thesis
      using n "1.IH"(1) [OF n refl] "1.IH"(2) [OF n refl] "1.prems" c
      by (subst replay.simps, subst replay_checked.simps)
        (auto simp: Let_def split: option.splits list.splits)
  qed
qed

lemma replay_checked_whole:
  "replay_checked h c x i n ps = Some (r, []) \<longleftrightarrow> list_all c ps \<and> replay h x i n ps = Some (r, [])"
  using replay_checked_Some [of h c x i n ps r "[]"] replay_checked_all [of c ps h x i n] by auto

section \<open>Binding\<close>

text \<open>
  The pairs a tree hash combines, and the pairs a replay combines. Two of them with the same
  node hash are a collision that can be read off the tree and the proof.
\<close>

function tree_pairs :: "('d \<Rightarrow> 'd \<Rightarrow> 'd) \<Rightarrow> 'd list \<Rightarrow> ('d \<times> 'd) list" where
  "tree_pairs h xs =
     (if length xs < 2 then []
      else let k = lpt (length xs)
           in (mth h (take k xs), mth h (drop k xs)) # tree_pairs h (take k xs) @ tree_pairs h (drop k xs))"
  by pat_completeness auto
termination
  by (relation "measure (\<lambda>(h, xs). length xs)") (auto simp: lpt_bounds lpt_rest not_less)

declare tree_pairs.simps [simp del]

function replay_pairs :: "('d \<Rightarrow> 'd \<Rightarrow> 'd) \<Rightarrow> 'd \<Rightarrow> nat \<Rightarrow> nat \<Rightarrow> 'd list \<Rightarrow> ('d \<times> 'd) list" where
  "replay_pairs h x i n ps =
     (if n < 2 then []
      else let k = lpt n
           in if i < k
              then (case replay h x i k ps of
                      Some (l, p # ps') \<Rightarrow> (l, p) # replay_pairs h x i k ps | _ \<Rightarrow> [])
              else (case replay h x (i - k) (n - k) ps of
                      Some (r, p # ps') \<Rightarrow> (p, r) # replay_pairs h x (i - k) (n - k) ps | _ \<Rightarrow> []))"
  by pat_completeness auto
termination
  by (relation "measure (\<lambda>(h, x, i, n, ps). n)") (auto simp: lpt_bounds lpt_rest not_less)

declare replay_pairs.simps [simp del]

definition collision :: "('d \<Rightarrow> 'd \<Rightarrow> 'd) \<Rightarrow> ('d \<times> 'd) list \<Rightarrow> ('d \<times> 'd) list \<Rightarrow> bool" where
  "collision h us vs \<longleftrightarrow>
     list_ex (\<lambda>(a, b). list_ex (\<lambda>(c, d). (a, b) \<noteq> (c, d) \<and> h a b = h c d) vs) us"

lemma collision_iff:
  "collision h us vs \<longleftrightarrow>
     (\<exists>a b c d. (a, b) \<in> set us \<and> (c, d) \<in> set vs \<and> (a, b) \<noteq> (c, d) \<and> h a b = h c d)"
  unfolding collision_def list_ex_iff by (simp add: Bex_def split_paired_Ex)

lemma collision_mono:
  "collision h us vs \<Longrightarrow> set us \<subseteq> set us' \<Longrightarrow> set vs \<subseteq> set vs' \<Longrightarrow> collision h us' vs'"
  unfolding collision_iff by blast

lemma collisionI:
  "(a, b) \<in> set us \<Longrightarrow> (c, d) \<in> set vs \<Longrightarrow> (a, b) \<noteq> (c, d) \<Longrightarrow> h a b = h c d \<Longrightarrow> collision h us vs"
  unfolding collision_iff by blast

lemma replay_sound:
  assumes "i < length xs" "replay h x i (length xs) ps = Some (mth h xs, rest)"
  shows "x = xs ! i \<and> ps = audit_path h xs i @ rest \<or>
    collision h (replay_pairs h x i (length xs) ps) (tree_pairs h xs)"
  using assms
proof (induction h xs i arbitrary: rest rule: audit_path.induct)
  case (1 h xs i)
  show ?case
  proof (cases "length xs < 2")
    case True
    with "1.prems"(1) have "xs = [xs ! 0] \<and> i = 0"
      by (cases xs) (auto simp: less_Suc_eq)
    with True "1.prems"(2) have "x = xs ! i \<and> ps = rest"
      by (metis mth_single option.inject prod.inject replay_1)
    with True show ?thesis by (simp add: audit_path.simps)
  next
    case False
    define k where "k = lpt (length xs)"
    have k: "0 < k" "k < length xs"
      using False lpt_bounds [of "length xs"] by (auto simp: k_def)
    have m: "mth h xs = h (mth h (take k xs)) (mth h (drop k xs))"
      using False mth_split [of xs h] by (simp add: k_def)
    have tp: "tree_pairs h xs =
        (mth h (take k xs), mth h (drop k xs)) # tree_pairs h (take k xs) @ tree_pairs h (drop k xs)"
      using False by (subst tree_pairs.simps) (simp add: k_def Let_def)
    show ?thesis
    proof (cases "i < k")
      case True
      have lt: "length (take k xs) = k" using k by simp
      obtain l p where r: "replay h x i k ps = Some (l, p # rest)" "h l p = mth h xs"
        using "1.prems"(2) False True
        by (subst (asm) replay.simps) (auto simp: k_def [symmetric] Let_def split: option.splits list.splits)
      have rp: "replay_pairs h x i (length xs) ps = (l, p) # replay_pairs h x i k ps"
        using False True r(1) by (subst replay_pairs.simps) (simp add: k_def [symmetric] Let_def)
      show ?thesis
      proof (cases "(l, p) = (mth h (take k xs), mth h (drop k xs))")
        case eq: True
        have "x = take k xs ! i \<and> ps = audit_path h (take k xs) i @ p # rest \<or>
            collision h (replay_pairs h x i (length (take k xs)) ps) (tree_pairs h (take k xs))"
          by (rule "1.IH"(1)) (use False True k eq r lt k_def in simp_all)
        then show ?thesis
        proof
          assume "x = take k xs ! i \<and> ps = audit_path h (take k xs) i @ p # rest"
          then show ?thesis
            using eq False True k by (subst audit_path.simps) (simp add: k_def [symmetric] Let_def)
        next
          assume "collision h (replay_pairs h x i (length (take k xs)) ps) (tree_pairs h (take k xs))"
          then show ?thesis
            unfolding lt rp tp by (intro disjI2) (erule collision_mono; auto)
        qed
      next
        case neq: False
        show ?thesis
          unfolding rp tp using neq m r(2)
          by (intro disjI2 collisionI [of l p _ "mth h (take k xs)" "mth h (drop k xs)"]) auto
      qed
    next
      case i: False
      have lt: "length (drop k xs) = length xs - k" by simp
      obtain l p where r: "replay h x (i - k) (length xs - k) ps = Some (l, p # rest)" "h p l = mth h xs"
        using "1.prems"(2) False i
        by (subst (asm) replay.simps) (auto simp: k_def [symmetric] Let_def split: option.splits list.splits)
      have rp: "replay_pairs h x i (length xs) ps = (p, l) # replay_pairs h x (i - k) (length xs - k) ps"
        using False i r(1) by (subst replay_pairs.simps) (simp add: k_def [symmetric] Let_def)
      show ?thesis
      proof (cases "(p, l) = (mth h (take k xs), mth h (drop k xs))")
        case eq: True
        have "x = drop k xs ! (i - k) \<and> ps = audit_path h (drop k xs) (i - k) @ p # rest \<or>
            collision h (replay_pairs h x (i - k) (length (drop k xs)) ps) (tree_pairs h (drop k xs))"
          by (rule "1.IH"(2)) (use False i k eq r k_def "1.prems"(1) in simp_all)
        then show ?thesis
        proof
          assume "x = drop k xs ! (i - k) \<and> ps = audit_path h (drop k xs) (i - k) @ p # rest"
          then show ?thesis
            using eq False i k by (subst audit_path.simps) (simp add: k_def [symmetric] Let_def)
        next
          assume "collision h (replay_pairs h x (i - k) (length (drop k xs)) ps) (tree_pairs h (drop k xs))"
          then show ?thesis
            unfolding lt rp tp by (intro disjI2) (erule collision_mono; auto)
        qed
      next
        case neq: False
        show ?thesis
          unfolding rp tp using neq m r(2)
          by (intro disjI2 collisionI [of p l _ "mth h (take k xs)" "mth h (drop k xs)"]) auto
      qed
    qed
  qed
qed

section \<open>Consistency proofs\<close>

function sub_proof :: "('d \<Rightarrow> 'd \<Rightarrow> 'd) \<Rightarrow> 'd list \<Rightarrow> nat \<Rightarrow> bool \<Rightarrow> 'd list" where
  "sub_proof h xs m complete =
     (if length xs < 2 \<or> m = length xs then (if complete then [] else [mth h xs])
      else let k = lpt (length xs)
           in if m \<le> k then sub_proof h (take k xs) m complete @ [mth h (drop k xs)]
              else sub_proof h (drop k xs) (m - k) False @ [mth h (take k xs)])"
  by pat_completeness auto
termination
  by (relation "measure (\<lambda>(h, xs, m, complete). length xs)") (auto simp: lpt_bounds lpt_rest not_less)

declare sub_proof.simps [simp del]

text \<open>
  Replaying a consistency proof between the first \<open>m\<close> and all \<open>n\<close> leaves: from the old root
  and the path to the pair of the old and the new root, with the part of the path that is left.
\<close>

function cons_replay ::
  "('d \<Rightarrow> 'd \<Rightarrow> 'd) \<Rightarrow> nat \<Rightarrow> nat \<Rightarrow> bool \<Rightarrow> 'd \<Rightarrow> 'd list \<Rightarrow> ('d \<times> 'd \<times> 'd list) option" where
  "cons_replay h m n complete old ps =
     (if n < 2 \<or> m = n then
        (if complete then Some (old, old, ps) else case ps of p # ps' \<Rightarrow> Some (p, p, ps') | [] \<Rightarrow> None)
      else let k = lpt n
           in if m \<le> k
              then (case cons_replay h m k complete old ps of
                      Some (oldr, newr, p # ps') \<Rightarrow> Some (oldr, h newr p, ps') | _ \<Rightarrow> None)
              else (case cons_replay h (m - k) (n - k) False old ps of
                      Some (oldr, newr, p # ps') \<Rightarrow> Some (h p oldr, h p newr, ps') | _ \<Rightarrow> None))"
  by pat_completeness auto
termination
  by (relation "measure (\<lambda>(h, m, n, complete, old, ps). n)") (auto simp: lpt_bounds lpt_rest not_less)

declare cons_replay.simps [simp del]

text \<open>The old root is used only when the old tree is a whole left subtree.\<close>

lemma cons_replay_old: "cons_replay h m n False old ps = cons_replay h m n False old' ps"
proof (induction n arbitrary: m ps rule: less_induct)
  case (less n)
  have "cons_replay h m' (lpt n) False old ps' = cons_replay h m' (lpt n) False old' ps'"
    "cons_replay h m' (n - lpt n) False old ps' = cons_replay h m' (n - lpt n) False old' ps'" if "2 \<le> n" for m' ps'
    using less.IH lpt_bounds [OF that] by auto
  then show ?case
    by (subst (1 2) cons_replay.simps) (simp add: Let_def)
qed

lemma cons_replay_sub_proof:
  "0 < m \<Longrightarrow> m \<le> length xs \<Longrightarrow>
   cons_replay h m (length xs) complete (mth h (take m xs)) (sub_proof h xs m complete @ rest) =
     Some (mth h (take m xs), mth h xs, rest)"
proof (induction h xs m complete arbitrary: rest rule: sub_proof.induct)
  case (1 h xs m complete)
  show ?case
  proof (cases "length xs < 2 \<or> m = length xs")
    case True
    then have "m = length xs" using "1.prems" by auto
    then show ?thesis
      by (simp add: cons_replay.simps [of h "length xs" "length xs"] sub_proof.simps [of h xs "length xs"])
  next
    case False
    define k where "k = lpt (length xs)"
    obtain j where j: "k = 2 ^ j" and k: "0 < k" "k < length xs" "length xs \<le> 2 * k"
      using False lpt_pow2 [of "length xs"] lpt_bounds [of "length xs"] by (auto simp: k_def)
    have m: "mth h xs = h (mth h (take k xs)) (mth h (drop k xs))"
      using False mth_split [of xs h] by (simp add: k_def)
    show ?thesis
    proof (cases "m \<le> k")
      case True
      have "cons_replay h m (length (take k xs)) complete (mth h (take m (take k xs)))
          (sub_proof h (take k xs) m complete @ mth h (drop k xs) # rest) =
          Some (mth h (take m (take k xs)), mth h (take k xs), mth h (drop k xs) # rest)"
        by (rule "1.IH"(1)) (use False True k k_def "1.prems" in auto)
      moreover have "take m (take k xs) = take m xs" using True by simp
      ultimately show ?thesis
        using False True k m by (subst cons_replay.simps, subst sub_proof.simps) (simp add: k_def Let_def min_def)
    next
      case mk: False
      have "cons_replay h (m - k) (length (drop k xs)) False (mth h (take (m - k) (drop k xs)))
          (sub_proof h (drop k xs) (m - k) False @ mth h (take k xs) # rest) =
          Some (mth h (take (m - k) (drop k xs)), mth h (drop k xs), mth h (take k xs) # rest)"
        by (rule "1.IH"(2)) (use False mk k k_def "1.prems" in auto)
      then have IH: "cons_replay h (m - k) (length xs - k) False old
          (sub_proof h (drop k xs) (m - k) False @ mth h (take k xs) # rest) =
          Some (mth h (take (m - k) (drop k xs)), mth h (drop k xs), mth h (take k xs) # rest)" for old
        by (subst cons_replay_old [of h _ _ old _ "mth h (take (m - k) (drop k xs))"]) simp
      have "take m xs = take k xs @ take (m - k) (drop k xs)"
        using mk by (metis le_add_diff_inverse nat_le_linear take_add)
      moreover have "mth h (take k xs @ take (m - k) (drop k xs)) = h (mth h (take k xs)) (mth h (take (m - k) (drop k xs)))"
        using mk k j "1.prems" by (intro mth_append [of _ j]) auto
      moreover have "cons_replay h m (length xs) complete old ps =
          (case cons_replay h (m - k) (length xs - k) False old ps of
             Some (oldr, newr, p # ps') \<Rightarrow> Some (h p oldr, h p newr, ps') | _ \<Rightarrow> None)" for old ps
        using False mk by (subst cons_replay.simps) (simp add: k_def Let_def)
      moreover have "sub_proof h xs m complete = sub_proof h (drop k xs) (m - k) False @ [mth h (take k xs)]"
        using False mk by (subst sub_proof.simps) (simp add: k_def Let_def)
      ultimately show ?thesis by (simp add: IH m)
    qed
  qed
qed

end
