(* ===== verification/Merkle_Tree.thy ===== *)
theory Merkle_Tree
  imports Trust_Crypto Model_Suite Cborx Rfc6962
begin

text \<open>
  \<open>internal/merkle\<close> (\<open>profile.go\<close>, \<open>merkle.go\<close>): the batch Merkle trees. A
  profile fixes suite, algorithm, hash and domain prefixes; a tree stores every node of the
  recursion in one slice with a map from ranges to positions; proofs are read from that storage;
  \<open>Verify\<close> replays a path.

  Tree sizes while building are slice lengths and are naturals. The verifier takes the index and
  the tree size from a proof, so it works on 64-bit words cast to Go's \<open>int\<close>, and its loops
  are partial functions: \<open>None\<close> is a call that does not return (or exhausts the stack).
  The node map is an association list with the newest entry first; Go iterates it in an
  unspecified order, so results of \<open>Nodes\<close> and \<open>CompactNodes\<close> matter only as sets.
\<close>

section \<open>Profiles\<close>

abbreviation DigestSize :: nat where "DigestSize \<equiv> 32"

datatype hash_kind = hashKindSHA256 | hashKindSM3

record Profile =
  prof_suite :: suite_id
  prof_algorithm :: string
  prof_hashAlg :: string
  prof_hashKind :: hash_kind
  prof_leafPrefix :: byte
  prof_nodePrefix :: byte
  prof_digestBytes :: nat

definition ProfileForAlgorithm :: "suite_id \<Rightarrow> string \<Rightarrow> Profile res" where
  "ProfileForAlgorithm suiteID treeAlgorithm =
     bind_res (RequireKnown suiteID) (\<lambda>suite.
     let spec = suite_Merkle suite in
     if treeAlgorithm \<noteq> merkle_Algorithm spec
     then Inl (New_err ''merkle: tree algorithm %q does not match suite %s profile %q'')
     else bind_res (HashFactoryForSuite suiteID (hash_Algorithm (merkle_Hash spec))) (\<lambda>factory.
     if hash_DigestBytes (merkle_Hash spec) \<noteq> DigestSize \<or> factory_Size factory \<noteq> DigestSize
     then Inl (New_err ''merkle: suite %s digest size %d is unsupported'')
     else if merkle_LeafPrefix spec = merkle_NodePrefix spec
     then Inl (New_err ''merkle: suite %s has ambiguous domain prefixes'')
     else bind_res
       (if factory_Algorithm factory = HashSHA256 then Inr hashKindSHA256
        else if factory_Algorithm factory = HashSM3 then Inr hashKindSM3
        else Inl (New_err ''merkle: suite %s uses unsupported hash %q''))
     (\<lambda>hashKind. Inr
       \<lparr>prof_suite = suiteID, prof_algorithm = treeAlgorithm,
        prof_hashAlg = factory_Algorithm factory, prof_hashKind = hashKind,
        prof_leafPrefix = merkle_LeafPrefix spec, prof_nodePrefix = merkle_NodePrefix spec,
        prof_digestBytes = hash_DigestBytes (merkle_Hash spec)\<rparr>)))"

definition ProfileForSuite :: "suite_id \<Rightarrow> Profile res" where
  "ProfileForSuite suiteID =
     bind_res (RequireKnown suiteID) (\<lambda>suite. ProfileForAlgorithm suiteID (merkle_Algorithm (suite_Merkle suite)))"

text \<open>\<open>mustProfile(cryptosuite.INTLV1)\<close>, the value of the package variable.\<close>

definition defaultProfile :: Profile where
  "defaultProfile =
     \<lparr>prof_suite = INTLV1, prof_algorithm = MerkleRFC6962SHA256, prof_hashAlg = HashSHA256,
      prof_hashKind = hashKindSHA256, prof_leafPrefix = 0, prof_nodePrefix = 1, prof_digestBytes = 32\<rparr>"

definition profile_Size :: "Profile \<Rightarrow> nat" where
  "profile_Size p = prof_digestBytes p"

text \<open>
  \<open>hashKind\<close> is never zero here: a \<open>Profile\<close> with another kind can only be the zero
  value, whose use is a panic in Go.
\<close>

definition profile_valid :: "Profile \<Rightarrow> bool" where
  "profile_valid p \<longleftrightarrow>
     prof_suite p \<noteq> '''' \<and> prof_algorithm p \<noteq> '''' \<and> prof_hashAlg p \<noteq> '''' \<and>
     prof_digestBytes p = DigestSize \<and> prof_leafPrefix p \<noteq> prof_nodePrefix p"

definition hashBytes :: "crypto_prims \<Rightarrow> Profile \<Rightarrow> bytes \<Rightarrow> digest" where
  "hashBytes prims p data =
     (case prof_hashKind p of
        hashKindSHA256 \<Rightarrow> array32 (prim_sha256 prims data)
      | hashKindSM3 \<Rightarrow> array32 (prim_sm3 prims data))"

definition EmptyRootForSuite :: "crypto_prims \<Rightarrow> suite_id \<Rightarrow> string \<Rightarrow> bytes res" where
  "EmptyRootForSuite prims suiteID treeAlgorithm =
     bind_res (ProfileForAlgorithm suiteID treeAlgorithm) (\<lambda>profile. Inr (hashBytes prims profile []))"

definition HashLeafPayloadForSuite :: "crypto_prims \<Rightarrow> suite_id \<Rightarrow> string \<Rightarrow> bytes \<Rightarrow> bytes res" where
  "HashLeafPayloadForSuite prims suiteID treeAlgorithm payload =
     bind_res (ProfileForAlgorithm suiteID treeAlgorithm)
       (\<lambda>profile. Inr (hashBytes prims profile (prof_leafPrefix profile # payload)))"

section \<open>Nodes and ranges\<close>

definition bytesToHash :: "bytes \<Rightarrow> digest" where
  "bytesToHash b = array32 b"

definition hashNode :: "crypto_prims \<Rightarrow> Profile \<Rightarrow> digest \<Rightarrow> digest \<Rightarrow> digest" where
  "hashNode prims profile left right = hashBytes prims profile (prof_nodePrefix profile # left @ right)"

definition HashNodeForSuite :: "crypto_prims \<Rightarrow> suite_id \<Rightarrow> string \<Rightarrow> bytes \<Rightarrow> bytes \<Rightarrow> bytes res" where
  "HashNodeForSuite prims suiteID treeAlgorithm left right =
     bind_res (ProfileForAlgorithm suiteID treeAlgorithm) (\<lambda>profile.
     if length left \<noteq> profile_Size profile then Inl (New_err ''merkle: left node has size %d'')
     else if length right \<noteq> profile_Size profile then Inl (New_err ''merkle: right node has size %d'')
     else Inr (hashNode prims profile (bytesToHash left) (bytesToHash right)))"

text \<open>\<open>largestPowerOfTwoLessThan\<close> where its argument is a slice length.\<close>

definition largestPowerOfTwoLessThan :: "nat \<Rightarrow> nat" where
  "largestPowerOfTwoLessThan n = (if n < 2 then 0 else pow2_loop 1 n)"

lemma largestPowerOfTwoLessThan_lpt [simp]: "largestPowerOfTwoLessThan n = lpt n"
  by (simp add: largestPowerOfTwoLessThan_def lpt_def)

function rangeLevel_loop :: "nat \<Rightarrow> nat \<Rightarrow> nat \<Rightarrow> nat" where
  "rangeLevel_loop width level sz =
     (if 0 < width \<and> width < sz then rangeLevel_loop (2 * width) (level + 1) sz else level)"
  by pat_completeness auto
termination
  by (relation "measure (\<lambda>(width, level, sz). sz - width)") auto

declare rangeLevel_loop.simps [simp del]

definition rangeLevel :: "nat \<Rightarrow> uint64" where
  "rangeLevel sz = (if sz \<le> 1 then 0 else word_of_nat (rangeLevel_loop 1 0 sz))"

function merklePathLen :: "nat \<Rightarrow> nat" where
  "merklePathLen n = (if n \<le> 1 then 0 else 1 + merklePathLen (largestPowerOfTwoLessThan n))"
  by pat_completeness auto
termination
  by (relation "measure id") (auto simp: lpt_bounds not_le)

declare merklePathLen.simps [simp del]

section \<open>Trees\<close>

type_synonym nodeRange = "nat \<times> nat"

record Tree =
  tree_profile :: Profile
  tree_leafHashes :: "digest list"
  tree_root :: digest
  tree_nodeIndex :: "(nodeRange \<times> nat) list"
  tree_nodeHashes :: "digest list"

text \<open>
  The pointer arguments \<open>nodeIndex\<close> and \<open>nodeHashes\<close> are passed and returned. Every call
  has \<open>size \<ge> 1\<close>: callers reject an empty tree and both parts of a split are non-empty.
\<close>

function buildRange ::
  "crypto_prims \<Rightarrow> Profile \<Rightarrow> digest list \<Rightarrow> (nodeRange \<times> nat) list \<Rightarrow> digest list \<Rightarrow> nat \<Rightarrow> nat \<Rightarrow>
   digest \<times> (nodeRange \<times> nat) list \<times> digest list" where
  "buildRange prims profile leaves nodeIndex nodeHashes start sz =
     (let (out, nodeIndex, nodeHashes) =
        (if sz \<le> 1 then (leaves ! start, nodeIndex, nodeHashes)
         else
           let k = largestPowerOfTwoLessThan sz;
               (left, nodeIndex, nodeHashes) = buildRange prims profile leaves nodeIndex nodeHashes start k;
               (right, nodeIndex, nodeHashes) =
                 buildRange prims profile leaves nodeIndex nodeHashes (start + k) (sz - k)
           in (hashNode prims profile left right, nodeIndex, nodeHashes))
      in (out, ((start, sz), length nodeHashes) # nodeIndex, nodeHashes @ [out]))"
  by pat_completeness auto
termination
  by (relation "measure (\<lambda>(prims, profile, leaves, nodeIndex, nodeHashes, start, sz). sz)")
    (auto simp: lpt_bounds lpt_rest not_le)

declare buildRange.simps [simp del]

definition buildFromLeafHashes :: "crypto_prims \<Rightarrow> Profile \<Rightarrow> digest list \<Rightarrow> Tree" where
  "buildFromLeafHashes prims profile leaves =
     (let (root, nodeIndex, nodeHashes) = buildRange prims profile leaves [] [] 0 (length leaves)
      in \<lparr>tree_profile = profile, tree_leafHashes = leaves, tree_root = root,
          tree_nodeIndex = nodeIndex, tree_nodeHashes = nodeHashes\<rparr>)"

text \<open>The leaf buffer comes from a pool and is reset, so it is empty before the prefix is written.\<close>

definition hashLeafArray :: "crypto_prims \<Rightarrow> ServerRecord encMode \<Rightarrow> Profile \<Rightarrow> ServerRecord \<Rightarrow> digest res" where
  "hashLeafArray prims enc profile record =
     (case MarshalBuffer enc (Some [prof_leafPrefix profile]) (Some record) of
        (_, Some e) \<Rightarrow> Inl e
      | (buf, None) \<Rightarrow> Inr (hashBytes prims profile (the buf)))"

definition HashLeafForSuite ::
  "crypto_prims \<Rightarrow> ServerRecord encMode \<Rightarrow> suite_id \<Rightarrow> string \<Rightarrow> ServerRecord \<Rightarrow> bytes res" where
  "HashLeafForSuite prims enc suiteID treeAlgorithm record =
     bind_res (ProfileForAlgorithm suiteID treeAlgorithm) (\<lambda>profile.
     checked (map_option (Wrapf ''merkle: record crypto_suite: %w'') (Require suiteID (SB_ServerRecord record)))
       (hashLeafArray prims enc profile record))"

fun build_leaves ::
  "crypto_prims \<Rightarrow> ServerRecord encMode \<Rightarrow> Profile \<Rightarrow> suite_id \<Rightarrow> ServerRecord list \<Rightarrow> digest list res" where
  "build_leaves prims enc profile suiteID [] = Inr []"
| "build_leaves prims enc profile suiteID (r # rs) =
     checked (map_option (Wrapf ''merkle: record %d crypto_suite: %w'') (Require suiteID (SB_ServerRecord r)))
       (bind_res (map_err (Wrapf ''merkle: hash leaf %d: %w'') (hashLeafArray prims enc profile r)) (\<lambda>leaf.
          bind_res (build_leaves prims enc profile suiteID rs) (\<lambda>leaves. Inr (leaf # leaves))))"

definition BuildForSuite ::
  "crypto_prims \<Rightarrow> ServerRecord encMode \<Rightarrow> suite_id \<Rightarrow> string \<Rightarrow> ServerRecord list \<Rightarrow> Tree res" where
  "BuildForSuite prims enc suiteID treeAlgorithm records =
     bind_res (ProfileForAlgorithm suiteID treeAlgorithm) (\<lambda>profile.
     if records = [] then Inl (New_err ''merkle: cannot build empty tree'')
     else bind_res (build_leaves prims enc profile suiteID records) (\<lambda>leaves.
       Inr (buildFromLeafHashes prims profile leaves)))"

definition Build :: "crypto_prims \<Rightarrow> ServerRecord encMode \<Rightarrow> ServerRecord list \<Rightarrow> Tree res" where
  "Build prims enc records = BuildForSuite prims enc INTLV1 MerkleRFC6962SHA256 records"

fun copy_leaves :: "Profile \<Rightarrow> bytes list \<Rightarrow> digest list res" where
  "copy_leaves profile [] = Inr []"
| "copy_leaves profile (l # ls) =
     (if length l \<noteq> profile_Size profile then Inl (New_err ''merkle: leaf %d has size %d'')
      else bind_res (copy_leaves profile ls) (\<lambda>copied. Inr (array32 l # copied)))"

definition RootFromLeavesForSuite :: "crypto_prims \<Rightarrow> suite_id \<Rightarrow> string \<Rightarrow> bytes list \<Rightarrow> bytes res" where
  "RootFromLeavesForSuite prims suiteID treeAlgorithm leaves =
     bind_res (ProfileForAlgorithm suiteID treeAlgorithm) (\<lambda>profile.
     if leaves = [] then Inl (New_err ''merkle: empty leaves'')
     else bind_res (copy_leaves profile leaves) (\<lambda>copied.
       Inr (tree_root (buildFromLeafHashes prims profile copied))))"

definition RootFromLeaves :: "crypto_prims \<Rightarrow> bytes list \<Rightarrow> bytes res" where
  "RootFromLeaves prims leaves = RootFromLeavesForSuite prims INTLV1 MerkleRFC6962SHA256 leaves"

section \<open>Reading a tree\<close>

definition LeafHash :: "Tree \<Rightarrow> int \<Rightarrow> bytes res" where
  "LeafHash t index =
     (if index < 0 \<or> index \<ge> int (length (tree_leafHashes t))
      then Inl (New_err ''merkle: leaf index out of range: %d'')
      else Inr (tree_leafHashes t ! nat index))"

text \<open>\<open>t.nodeHashes[t.nodeIndex[r]]\<close>; a missing key reads position 0.\<close>

definition node_at :: "Tree \<Rightarrow> nodeRange \<Rightarrow> digest" where
  "node_at t r = tree_nodeHashes t ! (case map_of (tree_nodeIndex t) r of None \<Rightarrow> 0 | Some i \<Rightarrow> i)"

function appendAuditPath :: "Tree \<Rightarrow> digest list \<Rightarrow> nat \<Rightarrow> nat \<Rightarrow> nat \<Rightarrow> digest list" where
  "appendAuditPath t path start sz index =
     (if sz \<le> 1 then path
      else let k = largestPowerOfTwoLessThan sz
           in if index < k
              then appendAuditPath t path start k index @ [node_at t (start + k, sz - k)]
              else appendAuditPath t path (start + k) (sz - k) (index - k) @ [node_at t (start, k)])"
  by pat_completeness auto
termination
  by (relation "measure (\<lambda>(t, path, start, sz, index). sz)") (auto simp: lpt_bounds lpt_rest not_le)

declare appendAuditPath.simps [simp del]

function appendAuditPathRanges :: "Tree \<Rightarrow> nodeRange list \<Rightarrow> nat \<Rightarrow> nat \<Rightarrow> nat \<Rightarrow> nodeRange list" where
  "appendAuditPathRanges t path start sz index =
     (if sz \<le> 1 then path
      else let k = largestPowerOfTwoLessThan sz
           in if index < k
              then appendAuditPathRanges t path start k index @ [(start + k, sz - k)]
              else appendAuditPathRanges t path (start + k) (sz - k) (index - k) @ [(start, k)])"
  by pat_completeness auto
termination
  by (relation "measure (\<lambda>(t, path, start, sz, index). sz)") (auto simp: lpt_bounds lpt_rest not_le)

declare appendAuditPathRanges.simps [simp del]

definition auditPath :: "Tree \<Rightarrow> nat \<Rightarrow> digest list" where
  "auditPath t index = appendAuditPath t [] 0 (length (tree_leafHashes t)) index"

definition Proof :: "Tree \<Rightarrow> int \<Rightarrow> bytes list res" where
  "Proof t index =
     (if index < 0 \<or> index \<ge> int (length (tree_leafHashes t))
      then Inl (New_err ''merkle: leaf index out of range: %d'')
      else Inr (auditPath t (nat index)))"

definition Proofs :: "Tree \<Rightarrow> bytes list list" where
  "Proofs t = map (auditPath t) [0..<length (tree_leafHashes t)]"

definition ProofView :: "Tree \<Rightarrow> int \<Rightarrow> bytes list res" where
  "ProofView t index =
     (if index < 0 \<or> index \<ge> int (length (tree_leafHashes t))
      then Inl (New_err ''merkle: leaf index out of range: %d'')
      else Inr (map (node_at t)
        (appendAuditPathRanges t [] 0 (length (tree_leafHashes t)) (nat index))))"

record Leaf =
  leaf_Index :: uint64
  leaf_Hash :: bytes

record Node =
  node_Level :: uint64
  node_StartIndex :: uint64
  node_Width :: uint64
  node_Hash :: bytes

definition Leaves :: "Tree \<Rightarrow> Leaf list" where
  "Leaves t = map (\<lambda>i. \<lparr>leaf_Index = word_of_nat i, leaf_Hash = tree_leafHashes t ! i\<rparr>)
     [0..<length (tree_leafHashes t)]"

definition Nodes :: "Tree \<Rightarrow> Node list" where
  "Nodes t = map (\<lambda>((start, sz), index).
       \<lparr>node_Level = rangeLevel sz, node_StartIndex = word_of_nat start,
        node_Width = word_of_nat sz, node_Hash = tree_nodeHashes t ! index\<rparr>)
     (tree_nodeIndex t)"

text \<open>A leaf slice is shorter than \<open>2 ^ 63\<close>, so \<open>uint64(len(leaves))\<close> is its length.\<close>

definition AuditPathFromLeavesForSuite ::
  "crypto_prims \<Rightarrow> suite_id \<Rightarrow> string \<Rightarrow> bytes list \<Rightarrow> uint64 \<Rightarrow> bytes list res" where
  "AuditPathFromLeavesForSuite prims suiteID treeAlgorithm leaves index =
     bind_res (ProfileForAlgorithm suiteID treeAlgorithm) (\<lambda>profile.
     if leaves = [] then Inl (New_err ''merkle: empty leaves'')
     else if unat index \<ge> length leaves then Inl (New_err ''merkle: leaf index out of range: %d'')
     else bind_res (copy_leaves profile leaves) (\<lambda>copied.
       Proof (buildFromLeafHashes prims profile copied) (uint index)))"

section \<open>Verification\<close>

text \<open>The loop of \<open>largestPowerOfTwoLessThan\<close> on a 64-bit \<open>int\<close>, where the shift wraps.\<close>

partial_function (option) pow2_loop64 :: "int \<Rightarrow> int \<Rightarrow> int option" where
  "pow2_loop64 k n = (if wrap64 (2 * k) < n then pow2_loop64 (wrap64 (2 * k)) n else Some k)"

declare pow2_loop64.simps [code]

definition largestPowerOfTwoLessThan64 :: "int \<Rightarrow> int option" where
  "largestPowerOfTwoLessThan64 n = (if n < 2 then Some 0 else pow2_loop64 1 n)"

text \<open>
  The result is the digest, the flag \<open>ok\<close> and the position after the elements read. The
  subtractions stay in range: a split \<open>k\<close> is zero or lies between 1 and the tree size.
\<close>

partial_function (option) rebuild ::
  "crypto_prims \<Rightarrow> Profile \<Rightarrow> bytes \<Rightarrow> int \<Rightarrow> int \<Rightarrow> bytes list \<Rightarrow> nat \<Rightarrow> (digest \<times> bool \<times> nat) option" where
  "rebuild prims profile leafHash index treeSize path pos =
     (if treeSize = 1 then Some (bytesToHash leafHash, True, pos)
      else Option.bind (largestPowerOfTwoLessThan64 treeSize) (\<lambda>k.
        if index < k
        then Option.bind (rebuild prims profile leafHash index k path pos) (\<lambda>(left, ok, pos).
          if \<not> ok \<or> pos \<ge> length path then Some (replicate 32 0, False, pos)
          else if length (path ! pos) \<noteq> profile_Size profile then Some (replicate 32 0, False, pos + 1)
          else Some (hashNode prims profile left (bytesToHash (path ! pos)), True, pos + 1))
        else Option.bind (rebuild prims profile leafHash (index - k) (treeSize - k) path pos) (\<lambda>(right, ok, pos).
          if \<not> ok \<or> pos \<ge> length path then Some (replicate 32 0, False, pos)
          else if length (path ! pos) \<noteq> profile_Size profile then Some (replicate 32 0, False, pos + 1)
          else Some (hashNode prims profile (bytesToHash (path ! pos)) right, True, pos + 1))))"

declare rebuild.simps [code]

definition verifyWithProfile ::
  "crypto_prims \<Rightarrow> Profile \<Rightarrow> bytes \<Rightarrow> uint64 \<Rightarrow> uint64 \<Rightarrow> bytes list \<Rightarrow> bytes \<Rightarrow> bool option" where
  "verifyWithProfile prims profile leafHash index treeSize path root =
     (if length leafHash \<noteq> profile_Size profile \<or> length root \<noteq> profile_Size profile \<or>
         treeSize = 0 \<or> index \<ge> treeSize
      then Some False
      else Option.bind (rebuild prims profile leafHash (sint index) (sint treeSize) path 0)
        (\<lambda>(got, ok, pos). if \<not> ok \<or> pos \<noteq> length path then Some False else Some (got = root)))"

definition VerifyForSuite ::
  "crypto_prims \<Rightarrow> suite_id \<Rightarrow> string \<Rightarrow> bytes \<Rightarrow> uint64 \<Rightarrow> uint64 \<Rightarrow> bytes list \<Rightarrow> bytes \<Rightarrow> bool res option" where
  "VerifyForSuite prims suiteID treeAlgorithm leafHash index treeSize path root =
     (case ProfileForAlgorithm suiteID treeAlgorithm of
        Inl e \<Rightarrow> Some (Inl e)
      | Inr profile \<Rightarrow>
          map_option Inr (verifyWithProfile prims profile leafHash index treeSize path root))"

definition Verify :: "crypto_prims \<Rightarrow> bytes \<Rightarrow> uint64 \<Rightarrow> uint64 \<Rightarrow> bytes list \<Rightarrow> bytes \<Rightarrow> bool option" where
  "Verify prims leafHash index treeSize path root =
     verifyWithProfile prims defaultProfile leafHash index treeSize path root"

end
