(* ===== verification/Merkle_Correct.thy ===== *)
theory Merkle_Correct
  imports Merkle_Tree
begin

text \<open>
  Correctness of \<open>internal/merkle\<close>: the tree the code builds is the RFC 6962 tree of its
  leaves, stored proofs are its audit paths, and the 64-bit verifier decides exactly the replay
  of the specification for tree sizes up to \<open>2 ^ 62\<close>.
\<close>

section \<open>Profiles: facts\<close>

lemma HashFactoryForSuite_merkle:
  "HashFactoryForSuite INTLV1 HashSHA256 = Inr sha256Factory"
  "HashFactoryForSuite CNSMV1 HashSM3 = Inr sm3Factory"
  by (simp_all add: HashFactoryForSuite_def suiteUsesHashAlgorithm_def intl_v1_suite_def
      cn_sm_v1_suite_def sha256_spec_def sm3_spec_def)

lemma suite_Merkle_simps [simp]:
  "suite_Merkle intl_v1_suite =
     \<lparr>merkle_Algorithm = MerkleRFC6962SHA256, merkle_Hash = sha256_spec,
      merkle_LeafPrefix = 0, merkle_NodePrefix = 1\<rparr>"
  "suite_Merkle cn_sm_v1_suite =
     \<lparr>merkle_Algorithm = MerkleRFC6962SM3, merkle_Hash = sm3_spec,
      merkle_LeafPrefix = 0, merkle_NodePrefix = 1\<rparr>"
  by (simp_all add: intl_v1_suite_def cn_sm_v1_suite_def)

definition smProfile :: Profile where
  "smProfile =
     \<lparr>prof_suite = CNSMV1, prof_algorithm = MerkleRFC6962SM3, prof_hashAlg = HashSM3,
      prof_hashKind = hashKindSM3, prof_leafPrefix = 0, prof_nodePrefix = 1, prof_digestBytes = 32\<rparr>"

lemma ProfileForAlgorithm_default:
  "ProfileForAlgorithm INTLV1 MerkleRFC6962SHA256 = Inr defaultProfile"
  "ProfileForAlgorithm CNSMV1 MerkleRFC6962SM3 = Inr smProfile"
  by (simp_all add: ProfileForAlgorithm_def HashFactoryForSuite_merkle sha256_spec_def sm3_spec_def
      defaultProfile_def smProfile_def)

lemma ProfileForAlgorithm_Inr:
  "ProfileForAlgorithm sid alg = Inr p \<longleftrightarrow>
     sid = INTLV1 \<and> alg = MerkleRFC6962SHA256 \<and> p = defaultProfile \<or>
     sid = CNSMV1 \<and> alg = MerkleRFC6962SM3 \<and> p = smProfile"
proof
  assume ok: "ProfileForAlgorithm sid alg = Inr p"
  then obtain s where s: "Lookup sid = Some s" "alg = merkle_Algorithm (suite_Merkle s)"
    by (auto simp: ProfileForAlgorithm_def bind_res_Inr RequireKnown_Inr Let_def split: if_splits)
  then consider "sid = INTLV1" "alg = MerkleRFC6962SHA256" | "sid = CNSMV1" "alg = MerkleRFC6962SM3"
    by (auto simp: Lookup_Some_iff)
  then show "sid = INTLV1 \<and> alg = MerkleRFC6962SHA256 \<and> p = defaultProfile \<or>
     sid = CNSMV1 \<and> alg = MerkleRFC6962SM3 \<and> p = smProfile"
    using ok ProfileForAlgorithm_default by cases auto
qed (auto simp: ProfileForAlgorithm_default)

lemma ProfileForSuite_Inr:
  "ProfileForSuite sid = Inr p \<longleftrightarrow> sid = INTLV1 \<and> p = defaultProfile \<or> sid = CNSMV1 \<and> p = smProfile"
  by (auto simp: ProfileForSuite_def bind_res_Inr RequireKnown_Inr Lookup_Some_iff ProfileForAlgorithm_Inr)

text \<open>What the operations need of a profile: 32-byte digests and distinct domain prefixes.\<close>

lemma ProfileForAlgorithm_valid:
  assumes "ProfileForAlgorithm sid alg = Inr p"
  shows "profile_valid p" "profile_Size p = 32" "prof_leafPrefix p = 0" "prof_nodePrefix p = 1"
  using assms
  by (auto simp: ProfileForAlgorithm_Inr profile_valid_def profile_Size_def defaultProfile_def smProfile_def)

lemma length_hashBytes [simp, size_intros]: "length (hashBytes prims p b) = 32"
  by (simp add: hashBytes_def split: hash_kind.split)

lemma length_hashNode [simp, size_intros]: "length (hashNode prims p l r) = 32"
  by (simp add: hashNode_def)

lemma bytesToHash_id [simp]: "length b = 32 \<Longrightarrow> bytesToHash b = b"
  by (simp add: bytesToHash_def)

lemma profile_Size_valid [simp]: "profile_valid p \<Longrightarrow> profile_Size p = 32"
  by (simp add: profile_valid_def profile_Size_def)

section \<open>The 64-bit split point\<close>

lemma pow2_loop64_small:
  "k = 2 ^ m \<Longrightarrow> k < n \<Longrightarrow> n \<le> 2 ^ 62 \<Longrightarrow> pow2_loop64 (int k) (int n) = Some (int (pow2_loop k n))"
proof (induction k n arbitrary: m rule: pow2_loop.induct)
  case (1 k n)
  have k: "0 < k" "k < 2 ^ 62" using "1.prems" by auto
  then have w: "wrap64 (2 * int k) = 2 * int k"
    by (intro wrap64_id) (auto simp: less_imp_le)
  show ?case
  proof (cases "2 * k < n")
    case True
    then have "pow2_loop64 (int (2 * k)) (int n) = Some (int (pow2_loop (2 * k) n))"
      using "1.prems" k by (intro "1.IH" [of "Suc m"]) auto
    then show ?thesis
      using True k by (subst pow2_loop64.simps, subst pow2_loop.simps) (simp add: w)
  next
    case False
    then show ?thesis
      using k by (subst pow2_loop64.simps, subst pow2_loop.simps) (simp add: w)
  qed
qed

lemma largestPowerOfTwoLessThan64_small:
  "n \<le> 2 ^ 62 \<Longrightarrow> largestPowerOfTwoLessThan64 (int n) = Some (int (lpt n))"
  using pow2_loop64_small [of 1 0 n] by (simp add: largestPowerOfTwoLessThan64_def lpt_def)

lemma wrap64_top: "wrap64 (2 ^ 63) = - (2 ^ 63)" "wrap64 (- (2 ^ 64)) = 0"
  by (simp_all add: wrap64_def signed_take_bit_eq_if_positive)

definition overflowing :: "int \<Rightarrow> bool" where
  "overflowing k \<longleftrightarrow> k = 0 \<or> k = - (2 ^ 63) \<or> (\<exists>m \<le> 62. k = 2 ^ m)"

lemma overflowing_step:
  assumes "overflowing k"
  shows "overflowing (wrap64 (2 * k))"
proof -
  consider "k = 0" | "k = - (2 ^ 63)" | "k = 2 ^ 62" | m where "m < 62" "k = 2 ^ m"
    using assms unfolding overflowing_def le_less by blast
  then show ?thesis
  proof cases
    case 1
    then show ?thesis by (simp add: wrap64_def overflowing_def)
  next
    case 2
    then show ?thesis using wrap64_top(2) by (simp add: overflowing_def)
  next
    case 3
    then show ?thesis using wrap64_top(1) by (simp add: overflowing_def)
  next
    case (4 m)
    have "(2::int) ^ Suc m < 2 ^ 63" using 4(1) by (intro power_strict_increasing) auto
    then have "wrap64 (2 ^ Suc m) = 2 ^ Suc m"
      by (intro wrap64_id) (auto intro: order_trans [of _ 0])
    then show ?thesis
      using 4 unfolding overflowing_def by (intro disjI2 exI [of _ "Suc m"]) auto
  qed
qed

lemma overflowing_le: "overflowing k \<Longrightarrow> k \<le> 2 ^ 62"
  unfolding overflowing_def using power_increasing [of _ 62 "2::int"] by auto

lemma pow2_loop64_stuck:
  "pow2_loop64 k n = Some y \<Longrightarrow> \<not> (2 ^ 62 < n \<and> overflowing k)"
proof (rule pow2_loop64.raw_induct [where P = "\<lambda>k n y. \<not> (2 ^ 62 < n \<and> overflowing k)"])
  fix loop k n y
  assume IH: "\<And>k n y. loop k n = Some y \<Longrightarrow> \<not> (2 ^ 62 < n \<and> overflowing k)"
    and run: "(if wrap64 (2 * k) < n then loop (wrap64 (2 * k)) n else Some k) = Some y"
  show "\<not> (2 ^ 62 < n \<and> overflowing k)"
  proof
    assume *: "2 ^ 62 < n \<and> overflowing k"
    then have "overflowing (wrap64 (2 * k))" by (simp add: overflowing_step)
    moreover have "wrap64 (2 * k) < n"
      using overflowing_le [OF calculation] * by simp
    ultimately show False using IH [of "wrap64 (2 * k)" n y] run * by simp
  qed
qed

lemma largestPowerOfTwoLessThan64_large: "2 ^ 62 < n \<Longrightarrow> largestPowerOfTwoLessThan64 n = None"
proof -
  assume n: "2 ^ 62 < n"
  have "overflowing 1" unfolding overflowing_def by (intro disjI2 exI [of _ 0]) simp
  with n pow2_loop64_stuck [of 1 n] have "pow2_loop64 1 n = None"
    by (metis not_Some_eq)
  with n show ?thesis by (simp add: largestPowerOfTwoLessThan64_def)
qed

section \<open>Rebuilding a root\<close>

text \<open>
  \<open>matches path R B\<close>: the outcome \<open>B\<close> of \<open>rebuild\<close> is what the specification's replay
  \<open>R\<close> says, with the rest of the path given by the position.
\<close>

definition matches :: "'d list \<Rightarrow> ('d \<times> 'd list) option \<Rightarrow> ('d \<times> bool \<times> nat) option \<Rightarrow> bool" where
  "matches path R B \<longleftrightarrow>
     (case R of
        None \<Rightarrow> (\<exists>r pos. B = Some (r, False, pos))
      | Some (x, rest) \<Rightarrow> (\<exists>pos \<le> length path. B = Some (x, True, pos) \<and> rest = drop pos path))"

lemma matches_step:
  fixes path :: "bytes list"
  assumes "matches path R B" "sz = 32"
  shows "matches path
    (case R of Some (l, q # ps') \<Rightarrow> (if length q = 32 then Some (g l q, ps') else None) | _ \<Rightarrow> None)
    (Option.bind B (\<lambda>(l, ok, pos).
       if \<not> ok \<or> pos \<ge> length path then Some (z, False, pos)
       else if length (path ! pos) \<noteq> sz then Some (z, False, pos + 1)
       else Some (g l (bytesToHash (path ! pos)), True, pos + 1)))"
proof (cases R)
  case None
  with assms show ?thesis by (auto simp: matches_def)
next
  case (Some lr)
  obtain l rest where lr: "lr = (l, rest)" by (cases lr)
  with Some assms obtain pos where pos: "pos \<le> length path" "B = Some (l, True, pos)" "rest = drop pos path"
    by (auto simp: matches_def)
  show ?thesis
  proof (cases "pos < length path")
    case True
    then have "rest = path ! pos # drop (Suc pos) path"
      using pos by (simp add: Cons_nth_drop_Suc)
    with True Some lr pos(2) assms(2) show ?thesis
      by (auto simp: matches_def Suc_le_eq)
  next
    case False
    with Some lr pos show ?thesis by (simp add: matches_def)
  qed
qed

lemma rebuild_matches:
  assumes p: "profile_Size p = 32"
  shows "1 \<le> n \<Longrightarrow> n \<le> 2 ^ 62 \<Longrightarrow> pos \<le> length path \<Longrightarrow>
    matches path
      (replay_checked (hashNode prims p) (\<lambda>b. length b = 32) (bytesToHash leaf) i n (drop pos path))
      (rebuild prims p leaf (int i) (int n) path pos)"
proof (induction n arbitrary: i rule: less_induct)
  case (less n)
  let ?R = "\<lambda>i n. replay_checked (hashNode prims p) (\<lambda>b. length b = 32) (bytesToHash leaf) i n (drop pos path)"
  let ?B = "\<lambda>i n. rebuild prims p leaf (int i) (int n) path pos"
  show ?case
  proof (cases "n = 1")
    case True
    with less.prems(3) show ?thesis
      by (subst replay_checked.simps, subst rebuild.simps) (auto simp: matches_def)
  next
    case False
    with less.prems have n: "2 \<le> n" by simp
    define k where "k = lpt n"
    have k: "0 < k" "k < n" using lpt_bounds [OF n] by (auto simp: k_def)
    have s: "largestPowerOfTwoLessThan64 (int n) = Some (int k)"
      using less.prems(2) unfolding k_def by (rule largestPowerOfTwoLessThan64_small)
    have n1: "int n \<noteq> 1" "\<not> n < 2" using n by auto
    show ?thesis
    proof (cases "i < k")
      case True
      have IH: "matches path (?R i k) (?B i k)"
        using less.prems k by (intro less.IH) auto
      have "?R i n = (case ?R i k of Some (l, q # ps') \<Rightarrow>
          (if length q = 32 then Some (hashNode prims p l q, ps') else None) | _ \<Rightarrow> None)"
        using True n1 by (subst replay_checked.simps) (simp only: k_def [symmetric] Let_def if_False if_True)
      moreover have "?B i n = Option.bind (?B i k) (\<lambda>(l, ok, pos).
          if \<not> ok \<or> pos \<ge> length path then Some (replicate 32 0, False, pos)
          else if length (path ! pos) \<noteq> profile_Size p then Some (replicate 32 0, False, pos + 1)
          else Some (hashNode prims p l (bytesToHash (path ! pos)), True, pos + 1))"
        using True n1 by (subst rebuild.simps) (simp add: s)
      ultimately show ?thesis
        using matches_step [OF IH p] by simp
    next
      case False
      have e: "int i - int k = int (i - k)" "int n - int k = int (n - k)"
        using False k by auto
      have IH: "matches path (?R (i - k) (n - k)) (?B (i - k) (n - k))"
        using less.prems k by (intro less.IH) auto
      have "?R i n = (case ?R (i - k) (n - k) of Some (l, q # ps') \<Rightarrow>
          (if length q = 32 then Some (hashNode prims p q l, ps') else None) | _ \<Rightarrow> None)"
        using False n1 by (subst replay_checked.simps) (simp only: k_def [symmetric] Let_def if_False)
      moreover have "?B i n = Option.bind (?B (i - k) (n - k)) (\<lambda>(l, ok, pos).
          if \<not> ok \<or> pos \<ge> length path then Some (replicate 32 0, False, pos)
          else if length (path ! pos) \<noteq> profile_Size p then Some (replicate 32 0, False, pos + 1)
          else Some (hashNode prims p (bytesToHash (path ! pos)) l, True, pos + 1))"
        using False n1 by (subst rebuild.simps) (simp add: s e [symmetric] del: of_nat_diff)
      ultimately show ?thesis
        using matches_step [OF IH p, where g = "\<lambda>l q. hashNode prims p q l"] by simp
    qed
  qed
qed

lemma verifyWithProfile_small:
  assumes p: "profile_valid p" and n: "unat treeSize \<le> 2 ^ 62"
  shows "verifyWithProfile prims p leaf index treeSize path root =
    Some (length leaf = 32 \<and> length root = 32 \<and> index < treeSize \<and>
      list_all (\<lambda>b. length b = 32) path \<and>
      replay (hashNode prims p) leaf (unat index) (unat treeSize) path = Some (root, []))"
proof (cases "length leaf = 32 \<and> length root = 32 \<and> index < treeSize")
  case False
  with p show ?thesis by (auto simp: verifyWithProfile_def)
next
  case True
  have i: "unat index < unat treeSize" using True by (simp add: word_less_nat_alt)
  have casts: "sint treeSize = int (unat treeSize)" "sint index = int (unat index)"
    using n i by (intro sint_small; simp)+
  let ?R = "replay_checked (hashNode prims p) (\<lambda>b. length b = 32) (bytesToHash leaf)
      (unat index) (unat treeSize) (drop 0 path)"
  have m: "matches path ?R (rebuild prims p leaf (sint index) (sint treeSize) path 0)"
    unfolding casts using p n i by (intro rebuild_matches) auto
  have "verifyWithProfile prims p leaf index treeSize path root = Some (?R = Some (root, []))"
  proof (cases ?R)
    case None
    with m obtain r pos where "rebuild prims p leaf (sint index) (sint treeSize) path 0 = Some (r, False, pos)"
      by (auto simp: matches_def)
    with None True p show ?thesis by (auto simp: verifyWithProfile_def)
  next
    case (Some xr)
    with m obtain pos where pos: "pos \<le> length path" "snd xr = drop pos path"
        "rebuild prims p leaf (sint index) (sint treeSize) path 0 = Some (fst xr, True, pos)"
      by (cases xr) (auto simp: matches_def)
    have "pos = length path \<longleftrightarrow> snd xr = []" using pos(1,2) by auto
    with Some True p pos(3) show ?thesis by (cases xr) (auto simp: verifyWithProfile_def)
  qed
  then show ?thesis
    using True by (simp add: replay_checked_whole)
qed

text \<open>Outside that range the verifier does not return.\<close>

lemma rebuild_nonpositive:
  "rebuild prims p leaf index treeSize path pos = Some y \<Longrightarrow> 0 < treeSize"
proof (rule rebuild.raw_induct [where P = "\<lambda>prims p leaf index treeSize path pos y. 0 < treeSize"])
  fix reb :: "crypto_prims \<Rightarrow> Profile \<Rightarrow> bytes \<Rightarrow> int \<Rightarrow> int \<Rightarrow> bytes list \<Rightarrow> nat \<Rightarrow> (digest \<times> bool \<times> nat) option"
    and prims p leaf index treeSize path pos y
  assume IH: "\<And>prims p leaf index treeSize path pos y.
      reb prims p leaf index treeSize path pos = Some y \<Longrightarrow> 0 < treeSize"
    and run: "(if treeSize = 1 then Some (bytesToHash leaf, True, pos)
      else Option.bind (largestPowerOfTwoLessThan64 treeSize) (\<lambda>k.
        if index < k
        then Option.bind (reb prims p leaf index k path pos) (\<lambda>(left, ok, pos).
          if \<not> ok \<or> pos \<ge> length path then Some (replicate 32 0, False, pos)
          else if length (path ! pos) \<noteq> profile_Size p then Some (replicate 32 0, False, pos + 1)
          else Some (hashNode prims p left (bytesToHash (path ! pos)), True, pos + 1))
        else Option.bind (reb prims p leaf (index - k) (treeSize - k) path pos) (\<lambda>(right, ok, pos).
          if \<not> ok \<or> pos \<ge> length path then Some (replicate 32 0, False, pos)
          else if length (path ! pos) \<noteq> profile_Size p then Some (replicate 32 0, False, pos + 1)
          else Some (hashNode prims p (bytesToHash (path ! pos)) right, True, pos + 1)))) = Some y"
  show "0 < treeSize"
  proof (rule ccontr)
    assume "\<not> 0 < treeSize"
    then have "largestPowerOfTwoLessThan64 treeSize = Some 0" "treeSize \<noteq> 1"
      by (auto simp: largestPowerOfTwoLessThan64_def)
    with run \<open>\<not> 0 < treeSize\<close> show False
      by (auto simp: bind_eq_Some_conv split: if_splits dest: IH)
  qed
qed

lemma rebuild_large:
  assumes "treeSize \<le> 0 \<or> 2 ^ 62 < treeSize"
  shows "rebuild prims p leaf index treeSize path pos = None"
  using assms
proof
  assume "treeSize \<le> 0"
  then show ?thesis
    using rebuild_nonpositive [of prims p leaf index treeSize path pos]
    by (cases "rebuild prims p leaf index treeSize path pos") auto
next
  assume "2 ^ 62 < treeSize"
  then show ?thesis
    by (subst rebuild.simps) (simp add: largestPowerOfTwoLessThan64_large)
qed

lemma sint_split:
  assumes "unat (w :: 64 word) > 2 ^ 62"
  shows "sint w \<le> 0 \<or> 2 ^ 62 < sint w"
proof (cases "sint w \<le> 0")
  case False
  have "sint w < 2 ^ 64" using sint_lt [of w] by simp
  then have "take_bit 64 (sint w) = sint w" using False by (simp add: take_bit_int_eq_self)
  then have "uint w = sint w" using uint_sint [of w] by simp
  moreover have "int (2 ^ 62) < int (unat w)" using assms by (simp only: of_nat_less_iff)
  ultimately have "2 ^ 62 < sint w" by (simp only: of_nat_power of_nat_numeral uint_nat [symmetric])
  then show ?thesis by (rule disjI2)
qed simp

lemma verifyWithProfile_large:
  assumes "profile_valid p" "2 ^ 62 < unat treeSize" "index < treeSize" "length leaf = 32" "length root = 32"
  shows "verifyWithProfile prims p leaf index treeSize path root = None"
proof -
  have "treeSize \<noteq> 0" using assms(2) by auto
  with assms show ?thesis
    using rebuild_large [OF sint_split [OF assms(2)]] by (simp add: verifyWithProfile_def)
qed

section \<open>Building a tree\<close>

definition leaf_slice :: "'a list \<Rightarrow> nodeRange \<Rightarrow> 'a list" where
  "leaf_slice xs r = take (snd r) (drop (fst r) xs)"

lemma length_leaf_slice: "s + n \<le> length xs \<Longrightarrow> length (leaf_slice xs (s, n)) = n"
  by (simp add: leaf_slice_def)

lemma leaf_slice_split:
  assumes "k \<le> n" "s + n \<le> length xs"
  shows "take k (leaf_slice xs (s, n)) = leaf_slice xs (s, k)" "drop k (leaf_slice xs (s, n)) = leaf_slice xs (s + k, n - k)"
  using assms by (simp_all add: leaf_slice_def min_def drop_take ac_simps)

lemma leaf_slice_whole: "leaf_slice xs (0, length xs) = xs"
  by (simp add: leaf_slice_def)

lemma mth_leaf_slice:
  assumes "2 \<le> n" "s + n \<le> length xs"
  shows "mth h (leaf_slice xs (s, n)) =
    h (mth h (leaf_slice xs (s, lpt n))) (mth h (leaf_slice xs (s + lpt n, n - lpt n)))"
proof -
  have "lpt n \<le> n" using lpt_bounds(2) [OF assms(1)] by simp
  with assms show ?thesis
    using mth_split [of "leaf_slice xs (s, n)" h] leaf_slice_split [of "lpt n" n s xs] by (simp add: length_leaf_slice)
qed

text \<open>The ranges of the recursion below \<open>(start, sz)\<close>.\<close>

function tree_ranges :: "nat \<Rightarrow> nat \<Rightarrow> nodeRange list" where
  "tree_ranges start sz =
     (start, sz) # (if sz < 2 then [] else tree_ranges start (lpt sz) @ tree_ranges (start + lpt sz) (sz - lpt sz))"
  by pat_completeness auto
termination
  by (relation "measure (\<lambda>(start, sz). sz)") (auto simp: lpt_bounds lpt_rest not_less)

declare tree_ranges.simps [simp del]

lemma tree_ranges_self [simp]: "(start, sz) \<in> set (tree_ranges start sz)"
  by (subst tree_ranges.simps) simp

lemma tree_ranges_split:
  "2 \<le> sz \<Longrightarrow> set (tree_ranges start sz) =
     insert (start, sz) (set (tree_ranges start (lpt sz)) \<union> set (tree_ranges (start + lpt sz) (sz - lpt sz)))"
  by (subst tree_ranges.simps) simp

text \<open>The storage invariant: every recorded position holds the tree hash of its range.\<close>

definition storage_ok ::
  "('d \<Rightarrow> 'd \<Rightarrow> 'd) \<Rightarrow> 'd list \<Rightarrow> (nodeRange \<times> nat) list \<Rightarrow> 'd list \<Rightarrow> bool" where
  "storage_ok h leaves idx hs \<longleftrightarrow>
     (\<forall>(r, i) \<in> set idx. i < length hs \<and> hs ! i = mth h (leaf_slice leaves r))"

lemma storage_ok_Nil [simp]: "storage_ok h leaves [] hs"
  by (simp add: storage_ok_def)

lemma storage_ok_add:
  "storage_ok h leaves idx hs \<Longrightarrow> out = mth h (leaf_slice leaves r) \<Longrightarrow>
   storage_ok h leaves ((r, length hs) # idx) (hs @ [out])"
  by (auto simp: storage_ok_def nth_append less_Suc_eq)

lemma buildRange_ok:
  assumes "1 \<le> sz" "start + sz \<le> length leaves" "storage_ok (hashNode prims p) leaves idx hs"
    "buildRange prims p leaves idx hs start sz = (out, idx', hs')"
  shows "out = mth (hashNode prims p) (leaf_slice leaves (start, sz)) \<and>
    storage_ok (hashNode prims p) leaves idx' hs' \<and>
    fst ` set idx' = fst ` set idx \<union> set (tree_ranges start sz)"
  using assms
proof (induction sz arbitrary: start idx hs out idx' hs' rule: less_induct)
  case (less sz)
  let ?h = "hashNode prims p"
  show ?case
  proof (cases "sz = 1")
    case True
    have out: "out = leaves ! start" "idx' = ((start, sz), length hs) # idx" "hs' = hs @ [out]"
      using less.prems(4) True by (auto simp: buildRange.simps [of _ _ _ _ _ _ "Suc 0"])
    have "leaf_slice leaves (start, sz) = [leaves ! start]"
      using less.prems(2) True by (simp add: leaf_slice_def take_Suc hd_drop_conv_nth)
    then show ?thesis
      using out less.prems(3) True storage_ok_add [of ?h leaves idx hs out "(start, sz)"]
      by (auto simp: tree_ranges.simps [of start "Suc 0"])
  next
    case False
    with less.prems(1) have sz: "2 \<le> sz" by simp
    define k where "k = lpt sz"
    have k: "0 < k" "k < sz" using lpt_bounds [OF sz] by (auto simp: k_def)
    obtain l idx1 hs1 where L: "buildRange prims p leaves idx hs start k = (l, idx1, hs1)"
      by (metis prod.exhaust)
    obtain r idx2 hs2 where R: "buildRange prims p leaves idx1 hs1 (start + k) (sz - k) = (r, idx2, hs2)"
      by (metis prod.exhaust)
    have out: "out = ?h l r" "idx' = ((start, sz), length hs2) # idx2" "hs' = hs2 @ [out]"
      using less.prems(4) sz L R
      by (auto simp: buildRange.simps [of _ _ _ _ _ _ sz] k_def [symmetric])
    have l: "l = mth ?h (leaf_slice leaves (start, k)) \<and> storage_ok ?h leaves idx1 hs1 \<and>
        fst ` set idx1 = fst ` set idx \<union> set (tree_ranges start k)"
      using less.prems(2,3) k by (intro less.IH [OF k(2) _ _ _ L]) auto
    have r: "r = mth ?h (leaf_slice leaves (start + k, sz - k)) \<and> storage_ok ?h leaves idx2 hs2 \<and>
        fst ` set idx2 = fst ` set idx1 \<union> set (tree_ranges (start + k) (sz - k))"
      using less.prems(2) k l by (intro less.IH [OF _ _ _ _ R]) auto
    have "out = mth ?h (leaf_slice leaves (start, sz))"
      using out(1) l r mth_leaf_slice [OF sz less.prems(2), of ?h] by (simp add: k_def)
    then show ?thesis
      using out l r storage_ok_add [of ?h leaves idx2 hs2 out "(start, sz)"]
        tree_ranges_split [OF sz, of start] by (auto simp: k_def [symmetric])
  qed
qed

section \<open>Reading a tree\<close>

text \<open>The invariant of a tree: every range of the recursion is stored with its tree hash.\<close>

definition tree_ok :: "crypto_prims \<Rightarrow> Tree \<Rightarrow> bool" where
  "tree_ok prims t \<longleftrightarrow>
     tree_leafHashes t \<noteq> [] \<and>
     storage_ok (hashNode prims (tree_profile t)) (tree_leafHashes t) (tree_nodeIndex t) (tree_nodeHashes t) \<and>
     fst ` set (tree_nodeIndex t) = set (tree_ranges 0 (length (tree_leafHashes t))) \<and>
     tree_root t = mth (hashNode prims (tree_profile t)) (tree_leafHashes t)"

lemma buildFromLeafHashes_fields [simp]:
  "tree_profile (buildFromLeafHashes prims p leaves) = p"
  "tree_leafHashes (buildFromLeafHashes prims p leaves) = leaves"
  by (simp_all add: buildFromLeafHashes_def split: prod.split)

lemma buildFromLeafHashes_ok:
  assumes "leaves \<noteq> []"
  shows "tree_ok prims (buildFromLeafHashes prims p leaves)"
proof -
  obtain root idx hs where b: "buildRange prims p leaves [] [] 0 (length leaves) = (root, idx, hs)"
    by (metis prod.exhaust)
  have "root = mth (hashNode prims p) (leaf_slice leaves (0, length leaves)) \<and>
      storage_ok (hashNode prims p) leaves idx hs \<and>
      fst ` set idx = set (tree_ranges 0 (length leaves))"
    using assms buildRange_ok [OF _ _ _ b] by (simp add: Suc_le_eq)
  then show ?thesis
    using assms by (simp add: tree_ok_def buildFromLeafHashes_def b leaf_slice_whole)
qed

lemma node_at_ok:
  assumes "tree_ok prims t" "r \<in> set (tree_ranges 0 (length (tree_leafHashes t)))"
  shows "node_at t r = mth (hashNode prims (tree_profile t)) (leaf_slice (tree_leafHashes t) r)"
proof -
  have "r \<in> fst ` set (tree_nodeIndex t)" using assms by (simp add: tree_ok_def)
  then obtain i where i: "map_of (tree_nodeIndex t) r = Some i"
    by (metis map_of_eq_None_iff not_Some_eq)
  then have "(r, i) \<in> set (tree_nodeIndex t)" by (rule map_of_SomeD)
  with assms(1) have "tree_nodeHashes t ! i = mth (hashNode prims (tree_profile t)) (leaf_slice (tree_leafHashes t) r)"
    by (auto simp: tree_ok_def storage_ok_def)
  with i show ?thesis by (simp add: node_at_def)
qed

lemma appendAuditPath_ok:
  assumes t: "tree_ok prims t"
  shows "1 \<le> sz \<Longrightarrow> start + sz \<le> length (tree_leafHashes t) \<Longrightarrow>
    set (tree_ranges start sz) \<subseteq> set (tree_ranges 0 (length (tree_leafHashes t))) \<Longrightarrow>
    appendAuditPath t path start sz index =
      path @ audit_path (hashNode prims (tree_profile t)) (leaf_slice (tree_leafHashes t) (start, sz)) index"
proof (induction sz arbitrary: start index rule: less_induct)
  case (less sz)
  let ?h = "hashNode prims (tree_profile t)" and ?L = "tree_leafHashes t"
  show ?case
  proof (cases "sz = 1")
    case True
    with less.prems show ?thesis
      by (subst appendAuditPath.simps, subst audit_path.simps) (simp add: length_leaf_slice)
  next
    case False
    with less.prems(1) have sz: "2 \<le> sz" by simp
    define k where "k = lpt sz"
    have k: "0 < k" "k < sz" using lpt_bounds [OF sz] by (auto simp: k_def)
    have sub: "set (tree_ranges start k) \<subseteq> set (tree_ranges 0 (length ?L))"
        "set (tree_ranges (start + k) (sz - k)) \<subseteq> set (tree_ranges 0 (length ?L))"
      using less.prems(3) tree_ranges_split [OF sz, of start] by (auto simp: k_def [symmetric])
    have n: "node_at t (start, k) = mth ?h (leaf_slice ?L (start, k))"
        "node_at t (start + k, sz - k) = mth ?h (leaf_slice ?L (start + k, sz - k))"
      using sub by (auto intro!: node_at_ok [OF t])
    have len: "length (leaf_slice ?L (start, sz)) = sz"
      using less.prems(2) by (rule length_leaf_slice)
    have sp: "take k (leaf_slice ?L (start, sz)) = leaf_slice ?L (start, k)"
        "drop k (leaf_slice ?L (start, sz)) = leaf_slice ?L (start + k, sz - k)"
      using leaf_slice_split [of k sz start ?L] k less.prems(2) by auto
    show ?thesis
    proof (cases "index < k")
      case True
      have "appendAuditPath t path start k index = path @ audit_path ?h (leaf_slice ?L (start, k)) index"
        using k less.prems(2) sub by (intro less.IH) auto
      then show ?thesis
        using True sz n sp len
        by (subst appendAuditPath.simps, subst audit_path.simps) (simp add: k_def [symmetric] Let_def)
    next
      case False
      have "appendAuditPath t path (start + k) (sz - k) (index - k) =
          path @ audit_path ?h (leaf_slice ?L (start + k, sz - k)) (index - k)"
        using k less.prems(2) sub by (intro less.IH) auto
      then show ?thesis
        using False sz n sp len
        by (subst appendAuditPath.simps, subst audit_path.simps) (simp add: k_def [symmetric] Let_def)
    qed
  qed
qed

lemma auditPath_ok:
  assumes "tree_ok prims t"
  shows "auditPath t i = audit_path (hashNode prims (tree_profile t)) (tree_leafHashes t) i"
proof -
  have "1 \<le> length (tree_leafHashes t)" using assms by (auto simp: tree_ok_def Suc_le_eq)
  then show ?thesis
    using appendAuditPath_ok [OF assms, of "length (tree_leafHashes t)" 0 "[]" i]
    by (simp add: auditPath_def leaf_slice_whole)
qed

lemma map_node_at_ranges:
  "map (node_at t) (appendAuditPathRanges t path start sz index) =
   appendAuditPath t (map (node_at t) path) start sz index"
proof (induction t path start sz index rule: appendAuditPathRanges.induct)
  case (1 t path start sz index)
  then show ?case
    by (subst appendAuditPathRanges.simps, subst appendAuditPath.simps) (simp add: Let_def)
qed

lemma ProofView_Proof: "ProofView t index = Proof t index"
  by (simp add: ProofView_def Proof_def auditPath_def map_node_at_ranges)

section \<open>Sizes\<close>

lemma mth_length:
  assumes "\<And>a b. length (h a b) = 32" "list_all (\<lambda>b. length b = 32) xs" "xs \<noteq> []"
  shows "length (mth h xs) = (32 :: nat)"
  using assms
proof (cases "length xs < 2")
  case True
  with assms(2,3) show ?thesis by (cases xs) (auto simp: mth.simps)
next
  case False
  then show ?thesis using assms(1) by (subst mth.simps) simp
qed

lemma audit_path_sizes:
  assumes "\<And>a b. length (h a b) = (32 :: nat)"
  shows "list_all (\<lambda>b. length b = 32) xs \<Longrightarrow> list_all (\<lambda>b. length b = 32) (audit_path h xs i)"
  using assms
proof (induction h xs i rule: audit_path.induct)
  case (1 h xs i)
  show ?case
  proof (cases "length xs < 2")
    case True
    then show ?thesis by (simp add: audit_path.simps)
  next
    case False
    define k where "k = lpt (length xs)"
    have k: "0 < k" "k < length xs" using lpt_bounds [of "length xs"] False by (auto simp: k_def)
    have td: "list_all (\<lambda>b. length b = 32) (take k xs)" "list_all (\<lambda>b. length b = 32) (drop k xs)"
      using "1.prems"(1) by (auto simp: list_all_iff dest: in_set_takeD in_set_dropD)
    moreover have "take k xs \<noteq> []" "drop k xs \<noteq> []" using k by auto
    ultimately have "length (mth h (take k xs)) = 32" "length (mth h (drop k xs)) = 32"
      using mth_length [of h] "1.prems"(2) by blast+
    then show ?thesis
      using False td "1.IH" "1.prems"(2)
      by (subst audit_path.simps) (simp add: k_def [symmetric] Let_def)
  qed
qed

lemma merklePathLen_pow2: "n \<le> 2 ^ m \<Longrightarrow> merklePathLen n \<le> m"
proof (induction m arbitrary: n)
  case 0
  then show ?case by (simp add: merklePathLen.simps)
next
  case (Suc m)
  show ?case
  proof (cases "n \<le> 1")
    case True
    then show ?thesis by (simp add: merklePathLen.simps)
  next
    case False
    then obtain j where j: "lpt n = 2 ^ j" "2 ^ j < n" using lpt_pow2 [of n] by auto
    then have "(2::nat) ^ j < 2 ^ Suc m" using Suc.prems by simp
    then have "j \<le> m" by (simp only: power_strict_increasing_iff one_less_numeral_iff semiring_norm less_Suc_eq_le)
    then have "lpt n \<le> 2 ^ m" using j by (simp add: power_increasing)
    with Suc.IH False show ?thesis by (subst merklePathLen.simps) simp
  qed
qed

lemma merklePathLen_exact: "merklePathLen (2 ^ m) = m"
proof (induction m)
  case 0
  then show ?case by (simp add: merklePathLen.simps)
next
  case (Suc m)
  have "lpt (2 ^ Suc m) = 2 ^ m" by (rule lpt_eqI) auto
  moreover have "(1::nat) < 2 ^ Suc m" by (rule one_less_power) simp_all
  ultimately show ?case using Suc by (subst merklePathLen.simps) (simp add: not_le)
qed

lemma audit_path_length: "xs \<noteq> [] \<Longrightarrow> length (audit_path h xs i) \<le> merklePathLen (length xs)"
proof (induction h xs i rule: audit_path.induct)
  case (1 h xs i)
  show ?case
  proof (cases "length xs < 2")
    case True
    then show ?thesis by (simp add: audit_path.simps)
  next
    case False
    define k where "k = lpt (length xs)"
    obtain j where j: "k = 2 ^ j" "2 ^ j < length xs" "length xs \<le> 2 * 2 ^ j"
      using lpt_pow2 [of "length xs"] False by (auto simp: k_def)
    have ne: "take k xs \<noteq> []" "drop k xs \<noteq> []" using j by (auto simp del: power_eq_0_iff)
    show ?thesis
    proof (cases "i < k")
      case True
      then show ?thesis
        using False "1.IH"(1) [OF False k_def True ne(1)] j
        by (subst audit_path.simps, subst merklePathLen.simps)
          (simp add: k_def [symmetric] Let_def min_def)
    next
      case i: False
      have "merklePathLen (length xs - k) \<le> merklePathLen k"
        using merklePathLen_pow2 [of "length xs - k" j] j by (simp add: merklePathLen_exact)
      then show ?thesis
        using False "1.IH"(2) [OF False k_def i ne(2)] i
        by (subst audit_path.simps, subst merklePathLen.simps) (simp add: k_def [symmetric] Let_def)
    qed
  qed
qed

section \<open>The operations on slices of leaves\<close>

lemma copy_leaves_Inr:
  assumes "profile_valid p"
  shows "copy_leaves p ls = Inr ds \<longleftrightarrow> ds = ls \<and> list_all (\<lambda>b. length b = 32) ls"
  using assms by (induction ls arbitrary: ds) (auto simp: bind_res_Inr)

lemma RootFromLeaves_Inr:
  "RootFromLeavesForSuite prims sid alg leaves = Inr root \<longleftrightarrow>
     (\<exists>p. ProfileForAlgorithm sid alg = Inr p \<and> leaves \<noteq> [] \<and> list_all (\<lambda>b. length b = 32) leaves \<and>
       root = mth (hashNode prims p) leaves)"
  using buildFromLeafHashes_ok [of leaves prims]
  by (auto simp: RootFromLeavesForSuite_def bind_res_Inr copy_leaves_Inr ProfileForAlgorithm_valid tree_ok_def)

lemma AuditPathFromLeaves_Inr:
  "AuditPathFromLeavesForSuite prims sid alg leaves i = Inr path \<longleftrightarrow>
     (\<exists>p. ProfileForAlgorithm sid alg = Inr p \<and> unat i < length leaves \<and> list_all (\<lambda>b. length b = 32) leaves \<and>
       path = audit_path (hashNode prims p) leaves (unat i))"
proof -
  have *: "Proof (buildFromLeafHashes prims p leaves) (uint i) =
      Inr (audit_path (hashNode prims p) leaves (unat i))" if "unat i < length leaves" for p
  proof -
    have "uint i < int (length leaves)" using that by (simp only: uint_nat of_nat_less_iff)
    moreover have "tree_ok prims (buildFromLeafHashes prims p leaves)"
      using that by (intro buildFromLeafHashes_ok) auto
    ultimately show ?thesis
      using auditPath_ok [of prims "buildFromLeafHashes prims p leaves"]
      by (auto simp: Proof_def not_less)
  qed
  show ?thesis
    by (auto simp: AuditPathFromLeavesForSuite_def bind_res_Inr copy_leaves_Inr ProfileForAlgorithm_valid * not_le)
qed

lemma unat_of_length: "length xs \<le> 2 ^ 62 \<Longrightarrow> unat (word_of_nat (length xs) :: uint64) = length xs"
  by (simp add: unat_of_nat)

lemma VerifyForSuite_length:
  assumes p: "ProfileForAlgorithm sid alg = Inr p" and n: "length leaves \<le> 2 ^ 62"
  shows "VerifyForSuite prims sid alg leaf i (word_of_nat (length leaves)) path root = Some (Inr ok) \<longleftrightarrow>
    ok = (length leaf = 32 \<and> length root = 32 \<and> unat i < length leaves \<and>
      list_all (\<lambda>b. length b = 32) path \<and>
      replay (hashNode prims p) leaf (unat i) (length leaves) path = Some (root, []))"
  using verifyWithProfile_small [of p "word_of_nat (length leaves)" prims leaf i path root]
    ProfileForAlgorithm_valid(1) [OF p] n
  by (auto simp: VerifyForSuite_def p unat_of_length word_less_nat_alt)

text \<open>The byte strings a verifier and a builder feed to the hash.\<close>

definition node_inputs :: "Profile \<Rightarrow> (digest \<times> digest) list \<Rightarrow> bytes list" where
  "node_inputs p ps = map (\<lambda>(l, r). prof_nodePrefix p # l @ r) ps"

definition verifier_inputs :: "crypto_prims \<Rightarrow> Profile \<Rightarrow> bytes \<Rightarrow> nat \<Rightarrow> nat \<Rightarrow> bytes list \<Rightarrow> bytes list" where
  "verifier_inputs prims p leaf i n path = node_inputs p (replay_pairs (hashNode prims p) leaf i n path)"

definition builder_inputs :: "crypto_prims \<Rightarrow> Profile \<Rightarrow> bytes list \<Rightarrow> bytes list" where
  "builder_inputs prims p leaves = node_inputs p (tree_pairs (hashNode prims p) leaves)"

definition digest_pairs :: "(digest \<times> digest) list \<Rightarrow> bool" where
  "digest_pairs ps \<longleftrightarrow> list_all (\<lambda>(a, b). length a = 32 \<and> length b = 32) ps"

lemma digest_pairs_Cons [simp]:
  "digest_pairs [] " "digest_pairs ((a, b) # ps) \<longleftrightarrow> length a = 32 \<and> length b = 32 \<and> digest_pairs ps"
  "digest_pairs (ps @ qs) \<longleftrightarrow> digest_pairs ps \<and> digest_pairs qs"
  by (auto simp: digest_pairs_def)

lemma tree_pairs_digests:
  assumes "\<And>a b. length (h a b) = 32"
  shows "list_all (\<lambda>b. length b = 32) xs \<Longrightarrow> digest_pairs (tree_pairs h xs)"
  using assms
proof (induction h xs rule: tree_pairs.induct)
  case (1 h xs)
  show ?case
  proof (cases "length xs < 2")
    case True
    then show ?thesis by (simp add: tree_pairs.simps)
  next
    case False
    define k where "k = lpt (length xs)"
    have k: "0 < k" "k < length xs" using lpt_bounds [of "length xs"] False by (auto simp: k_def)
    have td: "list_all (\<lambda>b. length b = 32) (take k xs)" "list_all (\<lambda>b. length b = 32) (drop k xs)"
      using "1.prems"(1) by (auto simp: list_all_iff dest: in_set_takeD in_set_dropD)
    moreover have "take k xs \<noteq> []" "drop k xs \<noteq> []" using k by auto
    ultimately have "length (mth h (take k xs)) = 32" "length (mth h (drop k xs)) = 32"
      using mth_length [of h] "1.prems"(2) by blast+
    then show ?thesis
      using False td "1.IH" "1.prems"(2)
      by (subst tree_pairs.simps) (simp add: k_def [symmetric] Let_def)
  qed
qed

lemma replay_length:
  assumes "\<And>a b. length (h a b) = 32" "length x = 32" "replay h x i n ps = Some (r, rest)"
  shows "length r = (32 :: nat)"
  using assms by (subst (asm) replay.simps) (auto simp: Let_def split: if_splits option.splits list.splits)

lemma replay_pairs_digests:
  assumes "\<And>a b. length (h a b) = 32"
  shows "length x = 32 \<Longrightarrow> list_all (\<lambda>b. length b = 32) ps \<Longrightarrow> digest_pairs (replay_pairs h x i n ps)"
  using assms
proof (induction h x i n ps rule: replay_pairs.induct)
  case (1 h x i n ps)
  have len: "length l = 32 \<and> length q = 32" if "replay h x j m ps = Some (l, q # rest)" for j m l q rest
    using replay_suffix [OF that] replay_length [OF "1.prems"(3,1) that] "1.prems"(2) by auto
  show ?case
    using "1.IH" "1.prems" len
    by (subst replay_pairs.simps) (auto simp: Let_def split: option.splits list.splits)
qed

lemma collision_inputs:
  assumes "collision (hashNode prims p) us vs" "digest_pairs us" "digest_pairs vs"
  shows "\<exists>x \<in> set (node_inputs p us). \<exists>y \<in> set (node_inputs p vs).
    x \<noteq> y \<and> hashBytes prims p x = hashBytes prims p y"
proof -
  obtain a b c d where ab: "(a, b) \<in> set us" "(c, d) \<in> set vs" "(a, b) \<noteq> (c, d)"
      "hashNode prims p a b = hashNode prims p c d"
    using assms(1) unfolding collision_iff by blast
  have "length a = length c" using ab(1,2) assms(2,3) unfolding digest_pairs_def list_all_iff by fastforce
  with ab(3) have "a @ b \<noteq> c @ d" by auto
  moreover have "prof_nodePrefix p # a @ b \<in> set (node_inputs p us)"
      "prof_nodePrefix p # c @ d \<in> set (node_inputs p vs)"
    using ab(1,2) unfolding node_inputs_def by force+
  ultimately show ?thesis
    using ab(4)
    by (intro bexI [of _ "prof_nodePrefix p # a @ b"] bexI [of _ "prof_nodePrefix p # c @ d"]) (auto simp: hashNode_def)
qed

lemma lpt_two [simp]: "lpt (Suc (Suc 0)) = 1"
  using lpt_add [of 1 0] by simp

lemma mth_two: "mth h [a, b] = h a b"
  using mth_append [of "[a]" 0 "[b]"] by simp

lemma audit_path_two: "audit_path h [a, b] 0 = [b]" "audit_path h [a, b] (Suc 0) = [a]"
  by (simp_all add: audit_path.simps [of _ "[a, b]"] audit_path.simps [of _ "[a]"] audit_path.simps [of _ "[b]"])

section \<open>Properties\<close>

text \<open>C1. The tree built from a non-empty slice of leaf hashes is the RFC 6962 tree: its root is
the Merkle tree hash of the leaves, \<open>Proof\<close> returns the audit path of every index in range and
an error for every other integer, and the zero-copy \<open>ProofView\<close> returns the same.\<close>

theorem merkle_tree_refines_rfc6962:
  assumes "leaves \<noteq> []"
  shows "tree_root (buildFromLeafHashes prims p leaves) = mth (hashNode prims p) leaves \<and>
    Proof (buildFromLeafHashes prims p leaves) i =
      (if 0 \<le> i \<and> i < int (length leaves) then Inr (audit_path (hashNode prims p) leaves (nat i))
       else Inl (New_err ''merkle: leaf index out of range: %d'')) \<and>
    ProofView (buildFromLeafHashes prims p leaves) i = Proof (buildFromLeafHashes prims p leaves) i"
proof -
  have ok: "tree_ok prims (buildFromLeafHashes prims p leaves)"
    using assms by (rule buildFromLeafHashes_ok)
  then show ?thesis
    using auditPath_ok [OF ok] by (auto simp: tree_ok_def Proof_def ProofView_Proof)
qed

theorem merkle_tree_refines_rfc6962_witness:
  "tree_root (buildFromLeafHashes sample_prims defaultProfile [replicate 32 0, replicate 32 1]) =
   hashNode sample_prims defaultProfile (replicate 32 0) (replicate 32 1)"
  using merkle_tree_refines_rfc6962 [of "[replicate 32 0, replicate 32 1]" sample_prims defaultProfile 0]
  by (simp add: mth_two)

text \<open>C2. Every proof the package hands out is accepted by its verifier: when
\<open>RootFromLeavesForSuite\<close> and \<open>AuditPathFromLeavesForSuite\<close> succeed on the same leaves, at
most \<open>2 ^ 62\<close> of them, \<open>VerifyForSuite\<close> returns true for the leaf at that index.\<close>

theorem merkle_proofs_verify:
  assumes "RootFromLeavesForSuite prims sid alg leaves = Inr root"
    and "AuditPathFromLeavesForSuite prims sid alg leaves i = Inr path"
    and "length leaves \<le> 2 ^ 62"
  shows "VerifyForSuite prims sid alg (leaves ! unat i) i (word_of_nat (length leaves)) path root = Some (Inr True)"
proof -
  obtain p where p: "ProfileForAlgorithm sid alg = Inr p" "leaves \<noteq> []" "list_all (\<lambda>b. length b = 32) leaves"
      "root = mth (hashNode prims p) leaves"
    using assms(1) by (auto simp: RootFromLeaves_Inr)
  have path: "unat i < length leaves" "path = audit_path (hashNode prims p) leaves (unat i)"
    using assms(2) p(1) by (auto simp: AuditPathFromLeaves_Inr)
  have "length (leaves ! unat i) = 32" using p(3) path(1) by (simp add: list_all_iff)
  moreover have "length root = 32" using mth_length [of "hashNode prims p" leaves] p by simp
  moreover have "list_all (\<lambda>b. length b = 32) path" using audit_path_sizes [of "hashNode prims p" leaves] p path by simp
  moreover have "replay (hashNode prims p) (leaves ! unat i) (unat i) (length leaves) path = Some (root, [])"
    using replay_audit_path [OF path(1), of "hashNode prims p" "[]"] p path by simp
  ultimately show ?thesis
    using path(1) by (simp add: VerifyForSuite_length [OF p(1) assms(3)])
qed

theorem merkle_proofs_verify_witness:
  "VerifyForSuite sample_prims INTLV1 MerkleRFC6962SHA256 (replicate 32 1) 1 2 [replicate 32 0]
     (hashNode sample_prims defaultProfile (replicate 32 0) (replicate 32 1)) = Some (Inr True)"
  using merkle_proofs_verify [of sample_prims INTLV1 MerkleRFC6962SHA256 "[replicate 32 0, replicate 32 1]"
      "hashNode sample_prims defaultProfile (replicate 32 0) (replicate 32 1)" 1 "[replicate 32 0]"]
  by (simp add: RootFromLeaves_Inr AuditPathFromLeaves_Inr ProfileForAlgorithm_default mth_two audit_path_two)

text \<open>C11. A root binds every leaf: when \<open>VerifyForSuite\<close> accepts a leaf hash and a path against
the root of a tree of at most \<open>2 ^ 62\<close> leaves, then the leaf is the one at that index and the
path is the stored audit path, unless an input the verifier hashed and a different input the builder
hashed have the same digest.\<close>

theorem merkle_verify_binding:
  assumes "RootFromLeavesForSuite prims sid alg leaves = Inr root"
    and "VerifyForSuite prims sid alg leaf i (word_of_nat (length leaves)) path root = Some (Inr True)"
    and "length leaves \<le> 2 ^ 62"
    and "ProfileForAlgorithm sid alg = Inr p"
  shows "leaf = leaves ! unat i \<and> AuditPathFromLeavesForSuite prims sid alg leaves i = Inr path \<or>
    (\<exists>x \<in> set (verifier_inputs prims p leaf (unat i) (length leaves) path).
     \<exists>y \<in> set (builder_inputs prims p leaves). x \<noteq> y \<and> hashBytes prims p x = hashBytes prims p y)"
proof -
  let ?h = "hashNode prims p"
  have r: "list_all (\<lambda>b. length b = 32) leaves" "root = mth ?h leaves"
    using assms(1,4) by (auto simp: RootFromLeaves_Inr)
  have v: "length leaf = 32" "unat i < length leaves" "list_all (\<lambda>b. length b = 32) path"
      "replay ?h leaf (unat i) (length leaves) path = Some (root, [])"
    using assms(2) VerifyForSuite_length [OF assms(4,3), of prims leaf i path root True] by simp_all
  consider "leaf = leaves ! unat i" "path = audit_path ?h leaves (unat i)"
    | "collision ?h (replay_pairs ?h leaf (unat i) (length leaves) path) (tree_pairs ?h leaves)"
    using replay_sound [OF v(2), of ?h leaf path "[]"] v(4) r(2) by auto
  then show ?thesis
  proof cases
    case 1
    then show ?thesis using assms(4) v(2) r(1) by (auto simp: AuditPathFromLeaves_Inr)
  next
    case 2
    then show ?thesis
      unfolding verifier_inputs_def builder_inputs_def
      using collision_inputs replay_pairs_digests [of ?h leaf path] tree_pairs_digests [of ?h leaves] v r
      by (intro disjI2) auto
  qed
qed

theorem merkle_verify_binding_witness:
  "AuditPathFromLeavesForSuite sample_prims INTLV1 MerkleRFC6962SHA256 [replicate 32 0] 0 = Inr []"
  using merkle_verify_binding [of sample_prims INTLV1 MerkleRFC6962SHA256 "[replicate 32 0]" "replicate 32 0"
      "replicate 32 0" 0 "[]" defaultProfile]
    VerifyForSuite_length [OF ProfileForAlgorithm_default(1), of "[replicate 32 0]" sample_prims
      "replicate 32 0" 0 "[]" "replicate 32 0" True]
  by (simp add: RootFromLeaves_Inr ProfileForAlgorithm_default builder_inputs_def node_inputs_def tree_pairs.simps)

text \<open>C12. The verifier returns exactly on tree sizes up to \<open>2 ^ 62\<close>: with a leaf hash and a
root of the right size and an index below the tree size, a larger tree size makes the split-point
loop overflow and the call never returns; every other call returns.\<close>

theorem merkle_verify_returns_iff:
  assumes "profile_valid p"
  shows "verifyWithProfile prims p leaf i n path root = None \<longleftrightarrow>
    length leaf = 32 \<and> length root = 32 \<and> i < n \<and> 2 ^ 62 < unat n"
proof (cases "unat n \<le> 2 ^ 62")
  case True
  then show ?thesis using verifyWithProfile_small [OF assms True] by simp
next
  case n: False
  show ?thesis
  proof (cases "length leaf = 32 \<and> length root = 32 \<and> i < n")
    case True
    with n show ?thesis using verifyWithProfile_large [OF assms, of n] by simp
  next
    case False
    with assms show ?thesis by (auto simp: verifyWithProfile_def)
  qed
qed

theorem merkle_verify_returns_iff_witness:
  "verifyWithProfile sample_prims defaultProfile (replicate 32 0) 0 (2 ^ 63) [] (replicate 32 0) = None"
  using merkle_verify_returns_iff [of defaultProfile sample_prims "replicate 32 0" 0 "2 ^ 63" "[]" "replicate 32 0"]
  by (simp add: profile_valid_def defaultProfile_def)

text \<open>C27. Path lengths are logarithmic: a tree of at most \<open>2 ^ m\<close> leaves gives paths of at most
\<open>m\<close> hashes, and never more than the capacity \<open>merklePathLen\<close> reserves.\<close>

theorem merkle_path_length:
  assumes "Proof (buildFromLeafHashes prims p leaves) i = Inr path" "length leaves \<le> 2 ^ m"
  shows "length path \<le> merklePathLen (length leaves) \<and> length path \<le> m"
proof -
  have ne: "leaves \<noteq> []" using assms(1) by (auto simp: Proof_def split: if_splits)
  have "path = audit_path (hashNode prims p) leaves (nat i)"
    using assms(1) auditPath_ok [OF buildFromLeafHashes_ok [OF ne]] by (auto simp: Proof_def split: if_splits)
  then show ?thesis
    using audit_path_length [OF ne, of "hashNode prims p" "nat i"] merklePathLen_pow2 [OF assms(2)] by simp
qed

theorem merkle_path_length_witness:
  "\<exists>path. Proof (buildFromLeafHashes sample_prims defaultProfile
       [replicate 32 0, replicate 32 1, replicate 32 2]) 1 = Inr path \<and> length path \<le> 2"
  using merkle_path_length [of sample_prims defaultProfile "[replicate 32 0, replicate 32 1, replicate 32 2]" 1 _ 2]
  by (simp add: Proof_def)

end
