(* ===== verification/Anchor_Schedule.thy ===== *)
theory Anchor_Schedule
  imports Cborx Data_Model "HOL-Library.Product_Lexorder"
begin

text \<open>
  \<open>internal/anchorschedule/schedule.go\<close>: the durable schedule that anchors signed tree heads
  at one external sink. A schedule has at most one pending window, whose target coalesces newer tree
  heads without moving its deadline, and at most one in-flight attempt, whose target never changes.
  All operations are pure functions of the stored schedule; the stores apply them with
  compare-and-swap.

  A Go result \<open>(schedule, changed, error)\<close> is \<open>(schedule \<times> bool) res\<close>;
  \<open>Claim\<close> returns the attempt only when it succeeded. A nil byte slice is \<open>None\<close> for
  the one field whose nil-ness the code inspects, \<open>ProviderState\<close>. The validation of a FISCO
  BCOS proof container, a package of its own, is the parameter \<open>fisco\<close>; nothing is assumed of
  it. \<open>sort.Slice\<close> with the schedule keys is a sort by the key triple.
\<close>

abbreviation MaxLastErrorBytes :: nat where "MaxLastErrorBytes \<equiv> 4096"
abbreviation MaxProviderStateBytes :: nat where "MaxProviderStateBytes \<equiv> 16777216"
abbreviation fiscobcos_SinkName :: string where "fiscobcos_SinkName \<equiv> ''fisco-bcos''"
abbreviation fiscobcos_MaxProofBytes :: nat where "fiscobcos_MaxProofBytes \<equiv> 16777216"

type_synonym proof_check = "SignedTreeHead \<Rightarrow> STHAnchorResult \<Rightarrow> go_error option"

section \<open>Keys and targets\<close>

definition ValidateKey :: "STHAnchorScheduleKey \<Rightarrow> go_error option" where
  "ValidateKey key = err_if (skey_SinkName key = '''') (New CodeInvalidArgument ''anchor schedule sink_name is required'')"

definition ScheduleKey :: "STHAnchorResultKey \<Rightarrow> STHAnchorScheduleKey" where
  "ScheduleKey key = \<lparr>skey_NodeID = reskey_NodeID key, skey_LogID = reskey_LogID key, skey_SinkName = reskey_SinkName key\<rparr>"

definition ValidateResultKey :: "STHAnchorResultKey \<Rightarrow> go_error option" where
  "ValidateResultKey key = first_err
     [ValidateKey (ScheduleKey key),
      err_if (reskey_TreeSize key = 0) (New CodeInvalidArgument ''anchor result tree_size is required'')]"

definition SameKey :: "STHAnchorScheduleKey \<Rightarrow> STHAnchorScheduleKey \<Rightarrow> bool" where
  "SameKey left right \<longleftrightarrow>
     skey_NodeID left = skey_NodeID right \<and> skey_LogID left = skey_LogID right \<and>
     skey_SinkName left = skey_SinkName right"

definition ResultKey :: "STHAnchorResult \<Rightarrow> STHAnchorResultKey" where
  "ResultKey result =
     \<lparr>reskey_NodeID = ares_NodeID result, reskey_LogID = ares_LogID result,
      reskey_SinkName = ares_SinkName result, reskey_TreeSize = ares_TreeSize result\<rparr>"

definition SameResultKey :: "STHAnchorResultKey \<Rightarrow> STHAnchorResultKey \<Rightarrow> bool" where
  "SameResultKey left right \<longleftrightarrow>
     reskey_TreeSize left = reskey_TreeSize right \<and> SameKey (ScheduleKey left) (ScheduleKey right)"

definition SameTarget :: "SignedTreeHead \<Rightarrow> SignedTreeHead \<Rightarrow> bool" where
  "SameTarget left right \<longleftrightarrow>
     sth_SchemaVersion left = sth_SchemaVersion right \<and>
     sth_CryptoSuite left = sth_CryptoSuite right \<and>
     sth_TreeAlg left = sth_TreeAlg right \<and>
     sth_TreeSize left = sth_TreeSize right \<and>
     sth_RootHash left = sth_RootHash right \<and>
     sth_TimestampUnixN left = sth_TimestampUnixN right \<and>
     sth_NodeID left = sth_NodeID right \<and>
     sth_LogID left = sth_LogID right \<and>
     sig_Alg (sth_Signature left) = sig_Alg (sth_Signature right) \<and>
     sig_KeyID (sth_Signature left) = sig_KeyID (sth_Signature right) \<and>
     sig_Signature (sth_Signature left) = sig_Signature (sth_Signature right)"

definition validateTarget :: "STHAnchorScheduleKey \<Rightarrow> SignedTreeHead \<Rightarrow> go_error option" where
  "validateTarget key sth =
     (case RequireAvailable (sth_CryptoSuite sth) of
        Inl e \<Rightarrow> Some (Wrap CodeInvalidArgument ''signed tree head crypto_suite'' (Some e))
      | Inr suite \<Rightarrow> first_err
          [err_if (sth_SchemaVersion sth \<noteq> SchemaSignedTreeHead \<or>
                   sth_TreeAlg sth \<noteq> merkle_Algorithm (suite_Merkle suite) \<or>
                   sth_TreeSize sth = 0 \<or>
                   length (sth_RootHash sth) \<noteq> hash_DigestBytes (merkle_Hash (suite_Merkle suite)) \<or>
                   sth_TimestampUnixN sth \<le> 0 \<or>
                   sig_Alg (sth_Signature sth) \<noteq> sigspec_Algorithm (suite_Signature suite) \<or>
                   sig_KeyID (sth_Signature sth) = '''' \<or>
                   sig_Signature (sth_Signature sth) = [])
             (New CodeInvalidArgument ''valid signed tree head is required''),
           err_if (sth_NodeID sth \<noteq> skey_NodeID key \<or> sth_LogID sth \<noteq> skey_LogID key)
             (New CodeInvalidArgument ''signed tree head identity does not match anchor schedule key'')])"

definition ValidateCandidate :: "STHAnchorCandidate \<Rightarrow> go_error option" where
  "ValidateCandidate candidate = first_err
     [ValidateKey (cand_Key candidate),
      validateTarget (cand_Key candidate) (cand_STH candidate),
      err_if (cand_ObservedAtUnixN candidate \<le> 0)
        (New CodeInvalidArgument ''anchor candidate observed_at is required''),
      err_if (cand_DueAtUnixN candidate < cand_ObservedAtUnixN candidate)
        (New CodeInvalidArgument ''anchor candidate due_at precedes observed_at'')]"

section \<open>Results\<close>

definition ValidateResult :: "proof_check \<Rightarrow> STHAnchorScheduleKey \<Rightarrow> STHAnchorResult \<Rightarrow> go_error option" where
  "ValidateResult fisco key result =
     (case ValidateKey key of Some e \<Rightarrow> Some e | None \<Rightarrow>
     (case RequireAvailable (ares_CryptoSuite result) of
        Inl e \<Rightarrow> Some (Wrap CodeInvalidArgument ''anchor result crypto_suite'' (Some e))
      | Inr suite \<Rightarrow> first_err
          ([err_if (ares_SchemaVersion result \<noteq> SchemaSTHAnchorResult \<or> ares_TreeSize result = 0 \<or>
                   length (ares_RootHash result) \<noteq> hash_DigestBytes (suite_AnchorDigest suite) \<or>
                   ares_AnchorID result = '''' \<or> ares_PublishedAtUnixN result \<le> 0)
             (New CodeInvalidArgument ''valid STH anchor result is required''),
           err_if (\<not> ValidAnchorEvidenceStage (ares_EvidenceStage result))
             (New CodeInvalidArgument ''known anchor evidence stage is required''),
           err_if (ares_NodeID result \<noteq> skey_NodeID key \<or> ares_LogID result \<noteq> skey_LogID key \<or>
                   ares_SinkName result \<noteq> skey_SinkName key)
             (New CodeInvalidArgument ''anchor result identity does not match schedule key''),
           map_option (\<lambda>e. Wrap CodeInvalidArgument ''anchor result signed tree head is invalid'' (Some e))
             (validateTarget key (ares_STH result)),
           map_option (\<lambda>e. Wrap CodeInvalidArgument ''anchor result crypto_suite'' (Some e))
             (RequireSame (ares_CryptoSuite result) [sth_CryptoSuite (ares_STH result)]),
           err_if (ares_TreeSize result \<noteq> sth_TreeSize (ares_STH result) \<or>
                   ares_RootHash result \<noteq> sth_RootHash (ares_STH result))
             (New CodeInvalidArgument ''anchor result does not bind its signed tree head'')] @
           (if ares_SinkName result = fiscobcos_SinkName
            then
              [err_if (ares_EvidenceStage result \<noteq> AnchorEvidenceStageRaw)
                 (New CodeInvalidArgument ''FISCO BCOS anchor result must remain raw until dedicated offline verification''),
               err_if (ares_Proof result = [] \<or> length (ares_Proof result) > fiscobcos_MaxProofBytes)
                 (New CodeInvalidArgument ''FISCO BCOS anchor proof is empty or oversized''),
               map_option (\<lambda>e. Wrap CodeInvalidArgument ''invalid FISCO BCOS anchor proof container'' (Some e))
                 (fisco (ares_STH result) result)]
            else []))))"

definition ResultMatchesTarget :: "STHAnchorResult \<Rightarrow> SignedTreeHead \<Rightarrow> bool" where
  "ResultMatchesTarget result target \<longleftrightarrow>
     ares_TreeSize result = sth_TreeSize target \<and> ares_RootHash result = sth_RootHash target \<and>
     SameTarget (ares_STH result) target"

definition fill_result ::
  "STHAnchorScheduleKey \<Rightarrow> STHAnchorAttempt \<Rightarrow> STHAnchorResult \<Rightarrow> int64 \<Rightarrow> STHAnchorResult" where
  "fill_result key attempt result publishedAtUnixN =
     (let target = attempt_Target attempt in
      \<lparr>ares_SchemaVersion = (if ares_SchemaVersion result = '''' then SchemaSTHAnchorResult else ares_SchemaVersion result),
       ares_CryptoSuite = (if ares_CryptoSuite result = '''' then sth_CryptoSuite target else ares_CryptoSuite result),
       ares_NodeID = (if ares_NodeID result = '''' then skey_NodeID key else ares_NodeID result),
       ares_LogID = (if ares_LogID result = '''' then skey_LogID key else ares_LogID result),
       ares_TreeSize = (if ares_TreeSize result = 0 then sth_TreeSize target else ares_TreeSize result),
       ares_SinkName = (if ares_SinkName result = '''' then skey_SinkName key else ares_SinkName result),
       ares_AnchorID = ares_AnchorID result,
       ares_RootHash = (if ares_RootHash result = [] then sth_RootHash target else ares_RootHash result),
       ares_STH = (if sth_TreeSize (ares_STH result) = 0 then target else ares_STH result),
       ares_Proof = ares_Proof result,
       ares_EvidenceStage = ares_EvidenceStage result,
       ares_PublishedAtUnixN = (if ares_PublishedAtUnixN result = 0 then publishedAtUnixN else ares_PublishedAtUnixN result)\<rparr>)"

definition BindAttemptResult ::
  "proof_check \<Rightarrow> STHAnchorScheduleKey \<Rightarrow> STHAnchorAttempt \<Rightarrow> STHAnchorResult \<Rightarrow> int64 \<Rightarrow> STHAnchorResult res" where
  "BindAttemptResult fisco key attempt result publishedAtUnixN =
     (let filled = fill_result key attempt result publishedAtUnixN in
      checked (ValidateResult fisco key filled)
        (if \<not> ResultMatchesTarget filled (attempt_Target attempt)
         then Inl (New CodeDataLoss ''anchor result does not match immutable in-flight target'')
         else Inr filled))"

section \<open>Schedules\<close>

definition hasLease :: "STHAnchorAttempt \<Rightarrow> bool" where
  "hasLease attempt \<longleftrightarrow>
     attempt_LeaseOwner attempt \<noteq> '''' \<or> attempt_LeaseToken attempt \<noteq> '''' \<or> attempt_LeaseUntilUnixN attempt \<noteq> 0"

definition validate_pending :: "STHAnchorScheduleKey \<Rightarrow> STHAnchorWindow \<Rightarrow> go_error option" where
  "validate_pending key pending = first_err
     [err_if (window_Generation pending = 0 \<or> window_OpenedAtUnixN pending \<le> 0 \<or>
              window_DueAtUnixN pending < window_OpenedAtUnixN pending \<or>
              window_UpdatedAtUnixN pending < window_OpenedAtUnixN pending)
        (New CodeDataLoss ''invalid pending anchor window''),
      map_option (\<lambda>e. Wrap CodeDataLoss ''invalid pending anchor target'' (Some e))
        (validateTarget key (window_Target pending))]"

definition validate_attempt :: "STHAnchorScheduleKey \<Rightarrow> STHAnchorAttempt \<Rightarrow> go_error option" where
  "validate_attempt key attempt = first_err
     [err_if (attempt_Generation attempt = 0 \<or> attempt_OpenedAtUnixN attempt \<le> 0 \<or>
              attempt_DueAtUnixN attempt < attempt_OpenedAtUnixN attempt \<or> attempt_Attempts attempt < 0 \<or>
              attempt_NextAttemptUnixN attempt < 0 \<or> attempt_LastAttemptUnixN attempt \<le> 0)
        (New CodeDataLoss ''invalid in-flight anchor attempt''),
      err_if (length (attempt_LastErrorMessage attempt) > MaxLastErrorBytes)
        (New CodeDataLoss ''in-flight anchor error exceeds size limit''),
      err_if (case attempt_ProviderState attempt of None \<Rightarrow> False | Some b \<Rightarrow> length b > MaxProviderStateBytes)
        (New CodeDataLoss ''in-flight anchor provider state exceeds size limit''),
      err_if (attempt_ProviderState attempt = Some [])
        (New CodeDataLoss ''in-flight anchor provider state is non-canonical''),
      err_if (attempt_NextAttemptUnixN attempt > 0 \<and>
              attempt_NextAttemptUnixN attempt < attempt_LastAttemptUnixN attempt)
        (New CodeDataLoss ''in-flight anchor retry precedes last attempt''),
      err_if (hasLease attempt \<and>
              (attempt_LeaseOwner attempt = '''' \<or> attempt_LeaseToken attempt = '''' \<or>
               attempt_LeaseUntilUnixN attempt \<le> attempt_LastAttemptUnixN attempt))
        (New CodeDataLoss ''in-flight anchor lease is incomplete''),
      err_if (attempt_TerminalFailure attempt \<and>
              (attempt_Attempts attempt = 0 \<or> attempt_LastErrorMessage attempt = '''' \<or>
               attempt_NextAttemptUnixN attempt \<noteq> 0 \<or> hasLease attempt))
        (New CodeDataLoss ''terminal anchor failure state is invalid''),
      err_if (\<not> attempt_TerminalFailure attempt \<and> \<not> hasLease attempt \<and> attempt_Attempts attempt > 0 \<and>
              attempt_NextAttemptUnixN attempt = 0)
        (New CodeDataLoss ''retryable anchor attempt has no retry deadline''),
      map_option (\<lambda>e. Wrap CodeDataLoss ''invalid in-flight anchor target'' (Some e))
        (validateTarget key (attempt_Target attempt))]"

definition highestGeneration :: "STHAnchorSchedule \<Rightarrow> uint64" where
  "highestGeneration schedule =
     (let g = (case sched_Pending schedule of None \<Rightarrow> 0 | Some w \<Rightarrow> window_Generation w)
      in case sched_InFlight schedule of
           None \<Rightarrow> g
         | Some a \<Rightarrow> if attempt_Generation a > g then attempt_Generation a else g)"

definition ValidateSchedule :: "STHAnchorSchedule \<Rightarrow> go_error option" where
  "ValidateSchedule schedule = first_err
     [err_if (sched_SchemaVersion schedule \<noteq> SchemaSTHAnchorSchedule)
        (New CodeDataLoss ''unexpected anchor schedule schema''),
      map_option (\<lambda>e. Wrap CodeDataLoss ''invalid anchor schedule crypto_suite'' (Some e))
        (err_of (RequireAvailable (sched_CryptoSuite schedule))),
      map_option (\<lambda>e. Wrap CodeDataLoss ''invalid anchor schedule key'' (Some e)) (ValidateKey (sched_Key schedule)),
      err_if (sched_NextGeneration schedule = 0) (New CodeDataLoss ''anchor schedule next_generation is zero''),
      err_if (sched_Revision schedule = 0) (New CodeDataLoss ''anchor schedule revision is zero''),
      (case sched_Pending schedule of None \<Rightarrow> None | Some w \<Rightarrow> validate_pending (sched_Key schedule) w),
      (case sched_InFlight schedule of None \<Rightarrow> None | Some a \<Rightarrow> validate_attempt (sched_Key schedule) a),
      (case (sched_Pending schedule, sched_InFlight schedule) of
         (Some w, Some a) \<Rightarrow> first_err
           [err_if (window_Generation w \<le> attempt_Generation a)
              (New CodeDataLoss ''pending anchor generation does not follow in-flight generation''),
            err_if (sth_TreeSize (window_Target w) \<le> sth_TreeSize (attempt_Target a))
              (New CodeDataLoss ''pending anchor target does not advance in-flight target'')]
       | _ \<Rightarrow> None),
      err_if (sched_NextGeneration schedule \<le> highestGeneration schedule)
        (New CodeDataLoss ''anchor schedule next_generation does not advance active work'')]"

definition scheduleTargets :: "STHAnchorSchedule \<Rightarrow> SignedTreeHead list" where
  "scheduleTargets schedule =
     (case sched_InFlight schedule of None \<Rightarrow> [] | Some a \<Rightarrow> [attempt_Target a]) @
     (case sched_Pending schedule of None \<Rightarrow> [] | Some w \<Rightarrow> [window_Target w])"

section \<open>Operations\<close>

text \<open>
  \<open>stored\<close> is the schedule read from the store when \<open>exists\<close> is true. The loop over
  \<open>scheduleTargets\<close> ends the call with an error or an unchanged schedule, or falls through.
\<close>

fun merge_targets :: "SignedTreeHead \<Rightarrow> SignedTreeHead list \<Rightarrow> (go_error option) option" where
  "merge_targets sth [] = None"
| "merge_targets sth (target # targets) =
     (if sth_TreeSize sth = sth_TreeSize target \<and> \<not> SameTarget sth target
      then Some (Some (New CodeDataLoss ''anchor candidate conflicts with scheduled target''))
      else if sth_TreeSize sth \<le> sth_TreeSize target then Some None
      else merge_targets sth targets)"

definition coalesce :: "STHAnchorSchedule \<Rightarrow> STHAnchorCandidate \<Rightarrow> STHAnchorSchedule" where
  "coalesce current candidate =
     (let merged =
        (case sched_Pending current of
           Some pending \<Rightarrow> current\<lparr>sched_Pending := Some (pending\<lparr>window_Target := cand_STH candidate,
             window_UpdatedAtUnixN :=
               (if cand_ObservedAtUnixN candidate > window_UpdatedAtUnixN pending
                then cand_ObservedAtUnixN candidate else window_UpdatedAtUnixN pending)\<rparr>)\<rparr>
         | None \<Rightarrow>
             let generation = (if sched_NextGeneration current = 0 then 1 else sched_NextGeneration current)
             in current\<lparr>sched_Pending := Some
                  \<lparr>window_Generation = generation, window_Target = cand_STH candidate,
                   window_OpenedAtUnixN = cand_ObservedAtUnixN candidate,
                   window_DueAtUnixN = cand_DueAtUnixN candidate,
                   window_UpdatedAtUnixN = cand_ObservedAtUnixN candidate\<rparr>,
                sched_NextGeneration := generation + 1\<rparr>)
      in merged\<lparr>sched_Revision := sched_Revision current + 1\<rparr>)"

definition new_schedule :: "STHAnchorCandidate \<Rightarrow> STHAnchorSchedule" where
  "new_schedule candidate =
     \<lparr>sched_SchemaVersion = SchemaSTHAnchorSchedule, sched_CryptoSuite = sth_CryptoSuite (cand_STH candidate),
      sched_Key = cand_Key candidate, sched_Revision = 0, sched_NextGeneration = 1,
      sched_Pending = None, sched_InFlight = None\<rparr>"

definition MergeCandidate ::
  "proof_check \<Rightarrow> STHAnchorSchedule option \<Rightarrow> STHAnchorCandidate \<Rightarrow> STHAnchorResult option \<Rightarrow>
   (STHAnchorSchedule \<times> bool) res" where
  "MergeCandidate fisco stored candidate latest =
     checked (ValidateCandidate candidate)
    (checked (case stored of None \<Rightarrow> None | Some current \<Rightarrow> first_err
       [ValidateSchedule current,
        err_if (\<not> SameKey (sched_Key current) (cand_Key candidate))
          (New CodeDataLoss ''anchor schedule key does not match candidate''),
        map_option (\<lambda>e. Wrap CodeDataLoss ''anchor candidate crypto_suite'' (Some e))
          (RequireSame (sched_CryptoSuite current) [sth_CryptoSuite (cand_STH candidate)])])
    (let current = (case stored of None \<Rightarrow> new_schedule candidate | Some current \<Rightarrow> current);
         sth = cand_STH candidate;
         schedule_it =
           (case merge_targets sth (scheduleTargets current) of
              Some (Some e) \<Rightarrow> Inl e
            | Some None \<Rightarrow> Inr (current, False)
            | None \<Rightarrow> Inr (coalesce current candidate, True))
     in case latest of
          None \<Rightarrow> schedule_it
        | Some l \<Rightarrow>
            checked (ValidateResult fisco (cand_Key candidate) l)
           (if sth_TreeSize sth = ares_TreeSize l \<and>
               (sth_RootHash sth \<noteq> ares_RootHash l \<or> skey_NodeID (cand_Key candidate) \<noteq> ares_NodeID l \<or>
                skey_LogID (cand_Key candidate) \<noteq> ares_LogID l)
            then Inl (New CodeDataLoss ''anchor candidate conflicts with published result'')
            else if sth_TreeSize sth \<le> ares_TreeSize l
            then (if stored = None then Inr (current\<lparr>sched_Revision := 1\<rparr>, True) else Inr (current, False))
            else schedule_it)))"

definition ClaimAttempt ::
  "STHAnchorSchedule \<Rightarrow> int64 \<Rightarrow> int64 \<Rightarrow> string \<Rightarrow> string \<Rightarrow> (STHAnchorSchedule \<times> STHAnchorAttempt option) res" where
  "ClaimAttempt current nowUnixN leaseUntilUnixN leaseOwner leaseToken =
     checked (ValidateSchedule current)
    (if nowUnixN \<le> 0 \<or> leaseUntilUnixN \<le> nowUnixN \<or> leaseOwner = '''' \<or> leaseToken = ''''
     then Inl (New CodeInvalidArgument ''valid anchor lease fields are required'')
     else case sched_InFlight current of
       Some attempt \<Rightarrow>
         (if attempt_TerminalFailure attempt then Inr (current, None)
          else if attempt_NextAttemptUnixN attempt > nowUnixN \<or> attempt_LeaseUntilUnixN attempt > nowUnixN
          then Inr (current, None)
          else
            let claimed = attempt\<lparr>attempt_LeaseOwner := leaseOwner, attempt_LeaseToken := leaseToken,
                  attempt_LeaseUntilUnixN := leaseUntilUnixN, attempt_LastAttemptUnixN := nowUnixN,
                  attempt_NextAttemptUnixN := nowUnixN\<rparr>
            in Inr (current\<lparr>sched_InFlight := Some claimed, sched_Revision := sched_Revision current + 1\<rparr>, Some claimed))
     | None \<Rightarrow>
         (case sched_Pending current of
            None \<Rightarrow> Inr (current, None)
          | Some pending \<Rightarrow>
              if window_DueAtUnixN pending > nowUnixN then Inr (current, None)
              else
                let claimed =
                  \<lparr>attempt_Generation = window_Generation pending, attempt_Target = window_Target pending,
                   attempt_OpenedAtUnixN = window_OpenedAtUnixN pending,
                   attempt_DueAtUnixN = window_DueAtUnixN pending, attempt_ProviderState = None,
                   attempt_Attempts = 0, attempt_NextAttemptUnixN = 0, attempt_LastAttemptUnixN = nowUnixN,
                   attempt_LastErrorMessage = '''', attempt_TerminalFailure = False,
                   attempt_LeaseOwner = leaseOwner, attempt_LeaseToken = leaseToken,
                   attempt_LeaseUntilUnixN = leaseUntilUnixN\<rparr>
                in Inr (current\<lparr>sched_Pending := None, sched_InFlight := Some claimed,
                          sched_Revision := sched_Revision current + 1\<rparr>, Some claimed)))"

text \<open>The guard the four owner operations share: an in-flight attempt with this generation and token.\<close>

definition owned_attempt :: "STHAnchorSchedule \<Rightarrow> uint64 \<Rightarrow> string \<Rightarrow> STHAnchorAttempt res" where
  "owned_attempt current generation leaseToken =
     checked (ValidateSchedule current)
    (case sched_InFlight current of
       None \<Rightarrow> Inl (New CodeNotFound ''in-flight anchor attempt not found'')
     | Some attempt \<Rightarrow>
         if generation = 0 \<or> attempt_Generation attempt \<noteq> generation \<or> leaseToken = '''' \<or>
            attempt_LeaseToken attempt \<noteq> leaseToken
         then Inl (New CodeFailedPrecondition ''anchor attempt generation or lease token does not match'')
         else Inr attempt)"

text \<open>The bytes of a possibly nil slice.\<close>

definition slice_bytes :: "bytes option \<Rightarrow> bytes" where
  "slice_bytes b = (case b of None \<Rightarrow> [] | Some x \<Rightarrow> x)"

definition set_in_flight :: "STHAnchorSchedule \<Rightarrow> STHAnchorAttempt \<Rightarrow> STHAnchorSchedule" where
  "set_in_flight current attempt =
     current\<lparr>sched_InFlight := Some attempt, sched_Revision := sched_Revision current + 1\<rparr>"

definition CompareAndSwapProviderState ::
  "STHAnchorSchedule \<Rightarrow> uint64 \<Rightarrow> string \<Rightarrow> int64 \<Rightarrow> bytes option \<Rightarrow> bytes option \<Rightarrow> STHAnchorSchedule res" where
  "CompareAndSwapProviderState current generation leaseToken nowUnixN expectedProviderState nextProviderState =
     bind_res (owned_attempt current generation leaseToken) (\<lambda>attempt.
     if nowUnixN \<le> 0 \<or> attempt_LeaseUntilUnixN attempt \<le> nowUnixN
     then Inl (New CodeFailedPrecondition ''anchor attempt lease is not live'')
     else if slice_bytes (attempt_ProviderState attempt) \<noteq> slice_bytes expectedProviderState
     then Inl (New CodeFailedPrecondition ''anchor provider state compare-and-swap conflict'')
     else if slice_bytes nextProviderState = [] \<or> length (slice_bytes nextProviderState) > MaxProviderStateBytes
     then Inl (New CodeInvalidArgument ''anchor provider state is empty or oversized'')
     else if slice_bytes (attempt_ProviderState attempt) = slice_bytes nextProviderState
     then Inl (New CodeInvalidArgument ''anchor provider state update is unchanged'')
     else Inr (set_in_flight current (attempt\<lparr>attempt_ProviderState := Some (slice_bytes nextProviderState)\<rparr>)))"

definition Reschedule ::
  "STHAnchorSchedule \<Rightarrow> uint64 \<Rightarrow> string \<Rightarrow> int \<Rightarrow> int64 \<Rightarrow> string \<Rightarrow> STHAnchorSchedule res" where
  "Reschedule current generation leaseToken attempts nextAttemptUnixN lastError =
     bind_res (owned_attempt current generation leaseToken) (\<lambda>attempt.
     if attempts \<le> attempt_Attempts attempt \<or> nextAttemptUnixN < attempt_LastAttemptUnixN attempt \<or>
        lastError = '''' \<or> length lastError > MaxLastErrorBytes
     then Inl (New CodeInvalidArgument ''invalid anchor retry state'')
     else Inr (set_in_flight current (attempt\<lparr>attempt_Attempts := attempts,
       attempt_NextAttemptUnixN := nextAttemptUnixN, attempt_LastErrorMessage := lastError,
       attempt_TerminalFailure := False, attempt_LeaseOwner := '''', attempt_LeaseToken := '''',
       attempt_LeaseUntilUnixN := 0\<rparr>)))"

definition Fail_attempt :: "STHAnchorSchedule \<Rightarrow> uint64 \<Rightarrow> string \<Rightarrow> int \<Rightarrow> string \<Rightarrow> STHAnchorSchedule res" where
  "Fail_attempt current generation leaseToken attempts lastError =
     bind_res (owned_attempt current generation leaseToken) (\<lambda>attempt.
     if attempts \<le> attempt_Attempts attempt \<or> lastError = '''' \<or> length lastError > MaxLastErrorBytes
     then Inl (New CodeInvalidArgument ''invalid terminal anchor failure state'')
     else Inr (set_in_flight current (attempt\<lparr>attempt_Attempts := attempts,
       attempt_NextAttemptUnixN := 0, attempt_LastErrorMessage := lastError,
       attempt_TerminalFailure := True, attempt_LeaseOwner := '''', attempt_LeaseToken := '''',
       attempt_LeaseUntilUnixN := 0\<rparr>)))"

definition reconcile_in_flight :: "STHAnchorSchedule \<Rightarrow> STHAnchorResult \<Rightarrow> (STHAnchorAttempt option \<times> bool) res" where
  "reconcile_in_flight current result =
     (case sched_InFlight current of
        Some a \<Rightarrow>
          if sth_TreeSize (attempt_Target a) = ares_TreeSize result
          then (if \<not> ResultMatchesTarget result (attempt_Target a)
                then Inl (New CodeDataLoss ''stored anchor result conflicts with in-flight target'')
                else Inr (None, True))
          else Inr (Some a, False)
      | None \<Rightarrow> Inr (None, False))"

definition reconcile_pending :: "STHAnchorSchedule \<Rightarrow> STHAnchorResult \<Rightarrow> (STHAnchorWindow option \<times> bool) res" where
  "reconcile_pending current result =
     (case sched_Pending current of
        Some w \<Rightarrow>
          if sth_TreeSize (window_Target w) \<le> ares_TreeSize result
          then (if sth_TreeSize (window_Target w) = ares_TreeSize result \<and>
                   sth_RootHash (window_Target w) \<noteq> ares_RootHash result
                then Inl (New CodeDataLoss ''pending anchor target conflicts with completed result'')
                else Inr (None, True))
          else Inr (Some w, False)
      | None \<Rightarrow> Inr (None, False))"

definition reconcileCompleted :: "STHAnchorSchedule \<Rightarrow> STHAnchorResult \<Rightarrow> STHAnchorSchedule res" where
  "reconcileCompleted current result =
     bind_res (reconcile_in_flight current result) (\<lambda>(inFlight, changed1).
     bind_res (reconcile_pending current result) (\<lambda>(pending, changed2).
     Inr (current\<lparr>sched_InFlight := inFlight, sched_Pending := pending,
       sched_Revision := (if changed1 \<or> changed2 then sched_Revision current + 1 else sched_Revision current)\<rparr>)))"

definition Complete ::
  "proof_check \<Rightarrow> STHAnchorSchedule \<Rightarrow> uint64 \<Rightarrow> string \<Rightarrow> STHAnchorResult \<Rightarrow> STHAnchorSchedule res" where
  "Complete fisco current generation leaseToken result =
     bind_res (owned_attempt current generation leaseToken) (\<lambda>attempt.
     checked (ValidateResult fisco (sched_Key current) result)
    (if \<not> ResultMatchesTarget result (attempt_Target attempt)
     then Inl (New CodeFailedPrecondition ''anchor result does not match in-flight target'')
     else reconcileCompleted current result))"

definition ReconcileCompleted ::
  "proof_check \<Rightarrow> STHAnchorSchedule \<Rightarrow> STHAnchorResult \<Rightarrow> (STHAnchorSchedule \<times> bool) res" where
  "ReconcileCompleted fisco current result =
     checked (ValidateSchedule current)
    (checked (ValidateResult fisco (sched_Key current) result)
    (bind_res (reconcileCompleted current result) (\<lambda>next.
       Inr (next, sched_Revision next \<noteq> sched_Revision current))))"

definition ClearLeaseForRestore :: "STHAnchorSchedule \<Rightarrow> STHAnchorSchedule res" where
  "ClearLeaseForRestore current =
     checked (ValidateSchedule current)
    (case sched_InFlight current of
       None \<Rightarrow> Inr current
     | Some attempt \<Rightarrow>
         if attempt_LeaseOwner attempt = '''' \<and> attempt_LeaseToken attempt = '''' \<and>
            attempt_LeaseUntilUnixN attempt = 0
         then Inr current
         else Inr (set_in_flight current (attempt\<lparr>attempt_LeaseOwner := '''', attempt_LeaseToken := '''',
                attempt_LeaseUntilUnixN := 0\<rparr>)))"

section \<open>Publication targets, references and result order\<close>

record select_state =
  sel_seen :: "(uint64 \<times> SignedTreeHead) list"
  sel_windowStart :: SignedTreeHead
  sel_highest :: SignedTreeHead

definition select_step :: "uint64 \<Rightarrow> select_state \<Rightarrow> SignedTreeHead \<Rightarrow> select_state res" where
  "select_step coveredTreeSize st sth =
     (if sth_TreeSize sth = 0 then Inl (New CodeInvalidArgument ''anchor publication STH tree_size is required'')
      else bind_res
        (case map_of (sel_seen st) (sth_TreeSize sth) of
           Some existing \<Rightarrow>
             if \<not> SameTarget existing sth
             then Inl (New CodeDataLoss ''anchor publication contains conflicting STHs at one tree size'')
             else Inr (sel_seen st)
         | None \<Rightarrow> Inr ((sth_TreeSize sth, sth) # sel_seen st)) (\<lambda>seen.
      Inr \<lparr>sel_seen = seen,
           sel_windowStart =
             (if sth_TreeSize sth > coveredTreeSize \<and>
                 (sth_TreeSize (sel_windowStart st) = 0 \<or> sth_TreeSize sth < sth_TreeSize (sel_windowStart st))
              then sth else sel_windowStart st),
           sel_highest =
             (if sth_TreeSize (sel_highest st) = 0 \<or> sth_TreeSize sth > sth_TreeSize (sel_highest st)
              then sth else sel_highest st)\<rparr>))"

fun select_loop :: "uint64 \<Rightarrow> select_state \<Rightarrow> SignedTreeHead list \<Rightarrow> select_state res" where
  "select_loop coveredTreeSize st [] = Inr st"
| "select_loop coveredTreeSize st (sth # sths) =
     bind_res (select_step coveredTreeSize st sth) (\<lambda>st'. select_loop coveredTreeSize st' sths)"

definition SelectPublicationTargets ::
  "SignedTreeHead list \<Rightarrow> uint64 \<Rightarrow> (SignedTreeHead \<times> SignedTreeHead) res" where
  "SelectPublicationTargets sths coveredTreeSize =
     (if sths = [] then Inl (New CodeInvalidArgument ''anchor publication requires at least one STH'')
      else bind_res (select_loop coveredTreeSize
          \<lparr>sel_seen = [], sel_windowStart = zero_SignedTreeHead, sel_highest = zero_SignedTreeHead\<rparr> sths) (\<lambda>st.
        Inr ((if sth_TreeSize (sel_windowStart st) = 0 then sel_highest st else sel_windowStart st),
             sel_highest st)))"

definition ValidateLatestReference :: "STHAnchorLatestReference \<Rightarrow> go_error option" where
  "ValidateLatestReference ref =
     (if alat_SchemaVersion ref \<noteq> SchemaSTHAnchorLatest
      then Some (New CodeDataLoss ''unexpected latest anchor reference schema'')
      else case ValidateResultKey (alat_Key ref) of
        Some e \<Rightarrow> Some (Wrap CodeDataLoss ''invalid latest anchor result key'' (Some e))
      | None \<Rightarrow>
     (case RequireAvailable (alat_CryptoSuite ref) of
        Inl e \<Rightarrow> Some (Wrap CodeDataLoss ''invalid latest anchor crypto_suite'' (Some e))
      | Inr suite \<Rightarrow>
        err_if (length (alat_RootHash ref) \<noteq> hash_DigestBytes (suite_AnchorDigest suite) \<or> alat_AnchorID ref = '''')
          (New CodeDataLoss ''invalid latest anchor result binding'')))"

definition LatestReference :: "STHAnchorResult \<Rightarrow> STHAnchorLatestReference" where
  "LatestReference result =
     \<lparr>alat_SchemaVersion = SchemaSTHAnchorLatest, alat_CryptoSuite = ares_CryptoSuite result,
      alat_Key = ResultKey result, alat_RootHash = ares_RootHash result, alat_AnchorID = ares_AnchorID result\<rparr>"

definition EmptyLatestReference :: "STHAnchorScheduleKey option \<Rightarrow> STHAnchorLatestReference" where
  "EmptyLatestReference stream =
     \<lparr>alat_SchemaVersion = SchemaSTHAnchorLatestEmpty, alat_CryptoSuite = '''',
      alat_Key =
        (case stream of
           None \<Rightarrow> \<lparr>reskey_NodeID = '''', reskey_LogID = '''', reskey_SinkName = '''', reskey_TreeSize = 0\<rparr>
         | Some k \<Rightarrow> \<lparr>reskey_NodeID = skey_NodeID k, reskey_LogID = skey_LogID k,
                      reskey_SinkName = skey_SinkName k, reskey_TreeSize = 0\<rparr>),
      alat_RootHash = [], alat_AnchorID = ''''\<rparr>"

definition ValidEmptyLatestReference :: "STHAnchorLatestReference \<Rightarrow> bool" where
  "ValidEmptyLatestReference ref \<longleftrightarrow>
     alat_SchemaVersion ref = SchemaSTHAnchorLatestEmpty \<and> reskey_TreeSize (alat_Key ref) = 0 \<and>
     alat_RootHash ref = [] \<and> alat_AnchorID ref = ''''"

definition EmptyLatestReferenceMatches :: "STHAnchorLatestReference \<Rightarrow> STHAnchorScheduleKey option \<Rightarrow> bool" where
  "EmptyLatestReferenceMatches ref stream =
     (if \<not> ValidEmptyLatestReference ref then False
      else let actual = ScheduleKey (alat_Key ref)
           in case stream of
                None \<Rightarrow> actual = \<lparr>skey_NodeID = '''', skey_LogID = '''', skey_SinkName = ''''\<rparr>
              | Some k \<Rightarrow> SameKey actual k)"

definition ReferenceMatchesResult :: "STHAnchorLatestReference \<Rightarrow> STHAnchorResult \<Rightarrow> bool" where
  "ReferenceMatchesResult ref result \<longleftrightarrow>
     SameResultKey (alat_Key ref) (ResultKey result) \<and> alat_RootHash ref = ares_RootHash result \<and>
     alat_AnchorID ref = ares_AnchorID result"

definition ValidateCandidateAgainstExactResult ::
  "proof_check \<Rightarrow> STHAnchorCandidate \<Rightarrow> STHAnchorResult \<Rightarrow> go_error option" where
  "ValidateCandidateAgainstExactResult fisco candidate result = first_err
     [map_option (\<lambda>e. Wrap CodeDataLoss ''stored exact-tree anchor result is invalid'' (Some e))
        (ValidateResult fisco (ScheduleKey (ResultKey result)) result),
      err_if (ares_TreeSize result \<noteq> sth_TreeSize (cand_STH candidate))
        (New CodeDataLoss ''stored anchor result tree size does not match lookup''),
      err_if (ares_NodeID result \<noteq> skey_NodeID (cand_Key candidate) \<or>
              ares_LogID result \<noteq> skey_LogID (cand_Key candidate) \<or>
              ares_RootHash result \<noteq> sth_RootHash (cand_STH candidate))
        (New CodeDataLoss ''anchor candidate conflicts with immutable exact-tree result'')]"

definition SameResultBinding :: "STHAnchorResult \<Rightarrow> STHAnchorResult \<Rightarrow> bool" where
  "SameResultBinding left right \<longleftrightarrow>
     ares_NodeID left = ares_NodeID right \<and> ares_LogID left = ares_LogID right \<and>
     ares_TreeSize left = ares_TreeSize right \<and> ares_SinkName left = ares_SinkName right \<and>
     ares_AnchorID left = ares_AnchorID right \<and> ares_RootHash left = ares_RootHash right \<and>
     SameTarget (ares_STH left) (ares_STH right)"

definition SameStoredResult :: "STHAnchorResult encMode \<Rightarrow> STHAnchorResult \<Rightarrow> STHAnchorResult \<Rightarrow> bool" where
  "SameStoredResult enc left right =
     (if ares_SinkName left \<noteq> ''fisco-bcos'' \<and> ares_SinkName right \<noteq> ''fisco-bcos''
      then SameResultBinding left right
      else case (Marshal enc (Some left), Marshal enc (Some right)) of
             (Inr leftCBOR, Inr rightCBOR) \<Rightarrow> leftCBOR = rightCBOR
           | _ \<Rightarrow> False)"

definition Sort_schedules :: "STHAnchorSchedule list \<Rightarrow> STHAnchorSchedule list" where
  "Sort_schedules schedules =
     sort_key (\<lambda>s. (skey_NodeID (sched_Key s), skey_LogID (sched_Key s), skey_SinkName (sched_Key s))) schedules"

end
