(* ===== verification/Transition_Systems.thy ===== *)
theory Transition_Systems
  imports Trust_Prelude
begin

text \<open>
  Reachability and invariants of a state machine given by an initial predicate and a step relation,
  and quantities that never decrease along its runs. The durable state machines of the program (the
  anchor schedule, the L5 coverage checkpoint) interpret these locales on their own operations.
\<close>

inductive run :: "('s \<Rightarrow> 's \<Rightarrow> bool) \<Rightarrow> 's \<Rightarrow> 's \<Rightarrow> bool" for step where
  run_refl [intro]: "run step s s"
| run_step [intro]: "run step s t \<Longrightarrow> step t u \<Longrightarrow> run step s u"

lemma run_trans: "run step t u \<Longrightarrow> run step s t \<Longrightarrow> run step s u"
  by (induction rule: run.induct) auto

locale invariant_system =
  fixes init :: "'s \<Rightarrow> bool"
    and step :: "'s \<Rightarrow> 's \<Rightarrow> bool"
    and inv :: "'s \<Rightarrow> bool"
  assumes init_inv: "init s \<Longrightarrow> inv s"
    and step_inv: "inv s \<Longrightarrow> step s t \<Longrightarrow> inv t"
begin

lemma run_inv: "run step s t \<Longrightarrow> inv s \<Longrightarrow> inv t"
  by (induction rule: run.induct) (auto dest: step_inv)

lemma reachable_inv: "init s \<Longrightarrow> run step s t \<Longrightarrow> inv t"
  using run_inv init_inv by blast

end

locale monotone_system = invariant_system +
  fixes le :: "'s \<Rightarrow> 's \<Rightarrow> bool"
  assumes le_refl: "le s s"
    and le_trans: "le s t \<Longrightarrow> le t u \<Longrightarrow> le s u"
    and step_le: "inv s \<Longrightarrow> step s t \<Longrightarrow> le s t"
begin

lemma run_le: "run step s t \<Longrightarrow> inv s \<Longrightarrow> le s t"
proof (induction rule: run.induct)
  case (run_refl s)
  show ?case by (rule le_refl)
next
  case (run_step s t u)
  then have "inv t" using run_inv by blast
  with run_step show ?case using step_le le_trans by blast
qed

end

end
