(* ===== verification/Anchor_Invariants.thy ===== *)
theory Anchor_Invariants
  imports Anchor_Schedule Model_Suite Transition_Systems
begin

text \<open>
  Correctness of the anchor schedule: every operation keeps \<open>ValidateSchedule\<close> (and the stronger
  invariant that makes \<open>ClearLeaseForRestore\<close> safe), the in-flight target is immutable, the
  pending deadline does not slide, leases exclude each other and stale tokens are fenced off.
\<close>

section \<open>Validation as predicates\<close>

lemma ValidateKey_None: "ValidateKey k = None \<longleftrightarrow> skey_SinkName k \<noteq> ''''"
  by (simp add: ValidateKey_def check_simps)

lemma SameKey_eq: "SameKey l r \<longleftrightarrow> l = r"
  by (cases l, cases r) (simp add: SameKey_def)

lemma SameTarget_eq: "SameTarget l r \<longleftrightarrow> l = r"
proof -
  obtain ls lc la ln lr lt lo ll lg where l: "l = \<lparr>sth_SchemaVersion = ls, sth_CryptoSuite = lc, sth_TreeAlg = la,
      sth_TreeSize = ln, sth_RootHash = lr, sth_TimestampUnixN = lt, sth_NodeID = lo, sth_LogID = ll, sth_Signature = lg\<rparr>"
    by (cases l)
  obtain rs rc ra rn rr rt ro rl rg where r: "r = \<lparr>sth_SchemaVersion = rs, sth_CryptoSuite = rc, sth_TreeAlg = ra,
      sth_TreeSize = rn, sth_RootHash = rr, sth_TimestampUnixN = rt, sth_NodeID = ro, sth_LogID = rl, sth_Signature = rg\<rparr>"
    by (cases r)
  have "lg = rg \<longleftrightarrow> sig_Alg lg = sig_Alg rg \<and> sig_KeyID lg = sig_KeyID rg \<and> sig_Signature lg = sig_Signature rg"
    by (cases lg, cases rg) auto
  then show ?thesis by (auto simp: SameTarget_def l r)
qed

lemma ResultMatchesTarget_eq:
  "ResultMatchesTarget r t \<longleftrightarrow> ares_STH r = t \<and> ares_TreeSize r = sth_TreeSize t \<and> ares_RootHash r = sth_RootHash t"
  by (auto simp: ResultMatchesTarget_def SameTarget_eq)

lemma validateTarget_size: "validateTarget k t = None \<Longrightarrow> sth_TreeSize t \<noteq> 0"
  by (auto simp: validateTarget_def check_simps split: sum.splits)

lemma validateTarget_suite: "validateTarget k t = None \<Longrightarrow> \<exists>s. Lookup (sth_CryptoSuite t) = Some s"
  by (auto simp: validateTarget_def check_simps RequireAvailable_Inr split: sum.splits)

definition window_ok :: "STHAnchorScheduleKey \<Rightarrow> STHAnchorWindow \<Rightarrow> bool" where
  "window_ok k w \<longleftrightarrow>
     window_Generation w \<noteq> 0 \<and> 0 < window_OpenedAtUnixN w \<and> window_OpenedAtUnixN w \<le> window_DueAtUnixN w \<and>
     window_OpenedAtUnixN w \<le> window_UpdatedAtUnixN w \<and> validateTarget k (window_Target w) = None"

definition attempt_ok :: "STHAnchorScheduleKey \<Rightarrow> STHAnchorAttempt \<Rightarrow> bool" where
  "attempt_ok k a \<longleftrightarrow>
     attempt_Generation a \<noteq> 0 \<and> 0 < attempt_OpenedAtUnixN a \<and> attempt_OpenedAtUnixN a \<le> attempt_DueAtUnixN a \<and>
     0 \<le> attempt_Attempts a \<and> 0 \<le> attempt_NextAttemptUnixN a \<and> 0 < attempt_LastAttemptUnixN a \<and>
     length (attempt_LastErrorMessage a) \<le> MaxLastErrorBytes \<and>
     length (slice_bytes (attempt_ProviderState a)) \<le> MaxProviderStateBytes \<and>
     attempt_ProviderState a \<noteq> Some [] \<and>
     (0 < attempt_NextAttemptUnixN a \<longrightarrow> attempt_LastAttemptUnixN a \<le> attempt_NextAttemptUnixN a) \<and>
     (hasLease a \<longrightarrow> attempt_LeaseOwner a \<noteq> '''' \<and> attempt_LeaseToken a \<noteq> '''' \<and>
        attempt_LastAttemptUnixN a < attempt_LeaseUntilUnixN a) \<and>
     (attempt_TerminalFailure a \<longrightarrow> attempt_Attempts a \<noteq> 0 \<and> attempt_LastErrorMessage a \<noteq> '''' \<and>
        attempt_NextAttemptUnixN a = 0 \<and> \<not> hasLease a) \<and>
     (\<not> attempt_TerminalFailure a \<and> \<not> hasLease a \<and> 0 < attempt_Attempts a \<longrightarrow> attempt_NextAttemptUnixN a \<noteq> 0) \<and>
     validateTarget k (attempt_Target a) = None"

lemma validate_pending_None: "validate_pending k w = None \<longleftrightarrow> window_ok k w"
  by (auto simp: validate_pending_def window_ok_def check_simps)


lemma validate_attempt_None: "validate_attempt k a = None \<longleftrightarrow> attempt_ok k a"
proof -
  have "(case attempt_ProviderState a of None \<Rightarrow> False | Some b \<Rightarrow> length b > MaxProviderStateBytes) \<longleftrightarrow>
      \<not> length (slice_bytes (attempt_ProviderState a)) \<le> MaxProviderStateBytes"
    by (simp add: slice_bytes_def not_le split: option.split)
  then show ?thesis
    unfolding validate_attempt_def attempt_ok_def first_err_None err_if_None map_option_None
    by (simp only: list.set ball_simps insert_iff empty_iff not_le not_less de_Morgan_disj de_Morgan_conj simp_thms conj_assoc err_if_None map_option_None imp_conv_disj) blast
qed
lemma ValidateSchedule_None:
  "ValidateSchedule s = None \<longleftrightarrow>
     sched_SchemaVersion s = SchemaSTHAnchorSchedule \<and>
     (\<exists>suite. Lookup (sched_CryptoSuite s) = Some suite) \<and>
     skey_SinkName (sched_Key s) \<noteq> '''' \<and>
     sched_NextGeneration s \<noteq> 0 \<and> sched_Revision s \<noteq> 0 \<and>
     (\<forall>w. sched_Pending s = Some w \<longrightarrow>
        window_ok (sched_Key s) w \<and> window_Generation w < sched_NextGeneration s) \<and>
     (\<forall>a. sched_InFlight s = Some a \<longrightarrow>
        attempt_ok (sched_Key s) a \<and> attempt_Generation a < sched_NextGeneration s) \<and>
     (\<forall>w a. sched_Pending s = Some w \<and> sched_InFlight s = Some a \<longrightarrow>
        attempt_Generation a < window_Generation w \<and>
        sth_TreeSize (attempt_Target a) < sth_TreeSize (window_Target w))"
proof -
  have hg: "highestGeneration s < g \<longleftrightarrow> g \<noteq> 0 \<and>
      (\<forall>w. sched_Pending s = Some w \<longrightarrow> window_Generation w < g) \<and>
      (\<forall>a. sched_InFlight s = Some a \<longrightarrow> attempt_Generation a < g)" for g
    by (cases "sched_Pending s"; cases "sched_InFlight s")
      (auto simp: highestGeneration_def Let_def word_neq_0_conv split: if_splits intro: le_less_trans)
  show ?thesis
    by (cases "sched_Pending s"; cases "sched_InFlight s")
      (simp_all add: ValidateSchedule_def check_simps validate_pending_None validate_attempt_None ValidateKey_None
        RequireAvailable_Inr hg not_le, auto)
qed

section \<open>The invariant of a stored schedule\<close>

text \<open>
  \<open>sched_inv\<close> is \<open>ValidateSchedule\<close>, one suite throughout, and: an attempt that was retried
  and has not failed terminally has a retry time, even while it is leased. The last part is what
  \<open>Claim\<close> maintains by writing the claim time and what \<open>ClearLeaseForRestore\<close> needs.
  \<open>Revision\<close> and \<open>NextGeneration\<close> are incremented without a guard, so a step is
  considered from states whose counters are not at \<open>2 ^ 64 - 1\<close>.
\<close>

definition sched_inv :: "STHAnchorSchedule \<Rightarrow> bool" where
  "sched_inv s \<longleftrightarrow>
     ValidateSchedule s = None \<and>
     (\<forall>a. sched_InFlight s = Some a \<and> \<not> attempt_TerminalFailure a \<and> 0 < attempt_Attempts a \<longrightarrow>
        0 < attempt_NextAttemptUnixN a) \<and>
     (\<forall>t \<in> set (scheduleTargets s). sth_CryptoSuite t = sched_CryptoSuite s)"

definition counters_left :: "STHAnchorSchedule \<Rightarrow> bool" where
  "counters_left s \<longleftrightarrow> sched_Revision s \<noteq> - 1 \<and> sched_NextGeneration s \<noteq> - 1"

lemma sched_inv_Valid: "sched_inv s \<Longrightarrow> ValidateSchedule s = None"
  by (simp add: sched_inv_def)

text \<open>Replacing the in-flight attempt by one with the same generation and target.\<close>

lemma set_in_flight_inv:
  assumes s: "sched_inv s" "sched_InFlight s = Some a" "counters_left s"
    and a': "attempt_ok (sched_Key s) a'" "attempt_Generation a' = attempt_Generation a"
      "attempt_Target a' = attempt_Target a"
      "\<not> attempt_TerminalFailure a' \<Longrightarrow> 0 < attempt_Attempts a' \<Longrightarrow> 0 < attempt_NextAttemptUnixN a'"
  shows "sched_inv (set_in_flight s a')"
  using assms inc_nonzero [of "sched_Revision s"]
  unfolding sched_inv_def ValidateSchedule_None set_in_flight_def counters_left_def
  by (auto simp: scheduleTargets_def split: option.splits)

lemma owned_attempt_Inr:
  "owned_attempt s g tok = Inr a \<longleftrightarrow>
     ValidateSchedule s = None \<and> sched_InFlight s = Some a \<and> attempt_Generation a = g \<and> g \<noteq> 0 \<and>
     attempt_LeaseToken a = tok \<and> tok \<noteq> ''''"
  by (auto simp: owned_attempt_def check_simps split: option.splits)

lemma sched_inv_attempt: "sched_inv s \<Longrightarrow> sched_InFlight s = Some a \<Longrightarrow> attempt_ok (sched_Key s) a"
  by (auto simp: sched_inv_def ValidateSchedule_None)

lemma slice_bytes_Some [simp]: "slice_bytes (Some b) = b"
  by (simp add: slice_bytes_def)

lemma hasLease_ProviderState [simp]: "hasLease (a\<lparr>attempt_ProviderState := b\<rparr>) = hasLease a"
  by (simp add: hasLease_def)

lemma CompareAndSwapProviderState_inv:
  assumes "sched_inv s" "counters_left s"
    "CompareAndSwapProviderState s g tok now expected next = Inr s'"
  shows "sched_inv s'"
proof -
  obtain a where a: "sched_InFlight s = Some a" "slice_bytes next \<noteq> []"
      "length (slice_bytes next) \<le> MaxProviderStateBytes"
      "s' = set_in_flight s (a\<lparr>attempt_ProviderState := Some (slice_bytes next)\<rparr>)"
    using assms(3)
    by (auto simp: CompareAndSwapProviderState_def bind_res_Inr owned_attempt_Inr split: if_splits)
  have "attempt_ok (sched_Key s) (a\<lparr>attempt_ProviderState := Some (slice_bytes next)\<rparr>)"
    using sched_inv_attempt [OF assms(1) a(1)] a(2,3) by (simp add: attempt_ok_def)
  then show ?thesis
    unfolding a(4) using assms(1,2) a(1)
    by (intro set_in_flight_inv [OF assms(1) a(1) assms(2)]) (auto simp: sched_inv_def)
qed

lemma Reschedule_inv:
  assumes "sched_inv s" "counters_left s" "Reschedule s g tok n next err = Inr s'"
  shows "sched_inv s'"
proof -
  obtain a a' where a: "sched_InFlight s = Some a" "attempt_Attempts a < n" "attempt_LastAttemptUnixN a \<le> next"
      "err \<noteq> ''''" "length err \<le> MaxLastErrorBytes" "s' = set_in_flight s a'"
      "a' = a\<lparr>attempt_Attempts := n, attempt_NextAttemptUnixN := next, attempt_LastErrorMessage := err,
         attempt_TerminalFailure := False, attempt_LeaseOwner := '''', attempt_LeaseToken := '''',
         attempt_LeaseUntilUnixN := 0\<rparr>"
    using assms(3) by (auto simp: Reschedule_def bind_res_Inr owned_attempt_Inr not_le not_less split: if_splits)
  have ok: "attempt_ok (sched_Key s) a" by (rule sched_inv_attempt [OF assms(1) a(1)])
  have "attempt_ok (sched_Key s) a'" "0 < next"
    using ok a(2-5) by (auto simp: attempt_ok_def hasLease_def a(7))
  then show ?thesis
    unfolding a(6) by (intro set_in_flight_inv [OF assms(1) a(1) assms(2)]) (auto simp: a(7))
qed

lemma Fail_attempt_inv:
  assumes "sched_inv s" "counters_left s" "Fail_attempt s g tok n err = Inr s'"
  shows "sched_inv s'"
proof -
  obtain a a' where a: "sched_InFlight s = Some a" "attempt_Attempts a < n"
      "err \<noteq> ''''" "length err \<le> MaxLastErrorBytes" "s' = set_in_flight s a'"
      "a' = a\<lparr>attempt_Attempts := n, attempt_NextAttemptUnixN := 0, attempt_LastErrorMessage := err,
         attempt_TerminalFailure := True, attempt_LeaseOwner := '''', attempt_LeaseToken := '''',
         attempt_LeaseUntilUnixN := 0\<rparr>"
    using assms(3) by (auto simp: Fail_attempt_def bind_res_Inr owned_attempt_Inr not_le not_less split: if_splits)
  have ok: "attempt_ok (sched_Key s) a" by (rule sched_inv_attempt [OF assms(1) a(1)])
  have "attempt_ok (sched_Key s) a'"
    using ok a(2-4) by (auto simp: attempt_ok_def hasLease_def a(6))
  then show ?thesis
    unfolding a(5) by (intro set_in_flight_inv [OF assms(1) a(1) assms(2)]) (auto simp: a(6))
qed

lemma ClearLeaseForRestore_inv:
  assumes "sched_inv s" "counters_left s" "ClearLeaseForRestore s = Inr s'"
  shows "sched_inv s'"
proof (cases "s' = s")
  case True
  with assms(1) show ?thesis by simp
next
  case False
  then obtain a a' where a: "sched_InFlight s = Some a" "s' = set_in_flight s a'" "hasLease a"
      "a' = a\<lparr>attempt_LeaseOwner := '''', attempt_LeaseToken := '''', attempt_LeaseUntilUnixN := 0\<rparr>"
    using assms(3)
    by (auto simp: ClearLeaseForRestore_def check_simps hasLease_def split: option.splits if_splits)
  have retry: "\<not> attempt_TerminalFailure a \<Longrightarrow> 0 < attempt_Attempts a \<Longrightarrow> 0 < attempt_NextAttemptUnixN a"
    using assms(1) a(1) by (auto simp: sched_inv_def)
  have "attempt_ok (sched_Key s) a'"
    using sched_inv_attempt [OF assms(1) a(1)] a(3) retry by (auto simp: attempt_ok_def hasLease_def a(4))
  with retry show ?thesis
    unfolding a(2) by (intro set_in_flight_inv [OF assms(1) a(1) assms(2)]) (auto simp: a(4))
qed

lemma ClaimAttempt_cases:
  assumes "ClaimAttempt s now until owner tok = Inr (s', claimed)"
  obtains (idle) "s' = s" "claimed = None"
  | (retry) a c where "sched_InFlight s = Some a" "\<not> attempt_TerminalFailure a"
      "attempt_NextAttemptUnixN a \<le> now" "attempt_LeaseUntilUnixN a \<le> now" "0 < now" "now < until"
      "owner \<noteq> ''''" "tok \<noteq> ''''" "claimed = Some c" "s' = set_in_flight s c"
      "c = a\<lparr>attempt_LeaseOwner := owner, attempt_LeaseToken := tok, attempt_LeaseUntilUnixN := until,
         attempt_LastAttemptUnixN := now, attempt_NextAttemptUnixN := now\<rparr>"
  | (first) w c where "sched_InFlight s = None" "sched_Pending s = Some w" "window_DueAtUnixN w \<le> now"
      "0 < now" "now < until" "owner \<noteq> ''''" "tok \<noteq> ''''" "claimed = Some c"
      "s' = s\<lparr>sched_Pending := None, sched_InFlight := Some c, sched_Revision := sched_Revision s + 1\<rparr>"
      "c = \<lparr>attempt_Generation = window_Generation w, attempt_Target = window_Target w,
         attempt_OpenedAtUnixN = window_OpenedAtUnixN w, attempt_DueAtUnixN = window_DueAtUnixN w,
         attempt_ProviderState = None, attempt_Attempts = 0, attempt_NextAttemptUnixN = 0,
         attempt_LastAttemptUnixN = now, attempt_LastErrorMessage = '''', attempt_TerminalFailure = False,
         attempt_LeaseOwner = owner, attempt_LeaseToken = tok, attempt_LeaseUntilUnixN = until\<rparr>"
proof -
  have ok: "0 < now" "now < until" "owner \<noteq> ''''" "tok \<noteq> ''''"
    using assms by (auto simp: ClaimAttempt_def check_simps not_le split: if_splits)
  show thesis
  proof (cases "sched_InFlight s")
    case None
    show thesis
    proof (cases "sched_Pending s")
      case None
      with \<open>sched_InFlight s = None\<close> assms ok show thesis
        by (intro idle) (auto simp: ClaimAttempt_def check_simps not_le split: if_splits)
    next
      case (Some w)
      show thesis
      proof (cases "window_DueAtUnixN w > now")
        case True
        with \<open>sched_InFlight s = None\<close> Some assms ok show thesis
          by (intro idle) (auto simp: ClaimAttempt_def check_simps not_le split: if_splits)
      next
        case False
        with \<open>sched_InFlight s = None\<close> Some assms ok show thesis
          by (intro first) (auto simp: ClaimAttempt_def check_simps not_le Let_def split: if_splits)
      qed
    qed
  next
    case (Some a)
    show thesis
    proof (cases "attempt_TerminalFailure a \<or> attempt_NextAttemptUnixN a > now \<or> attempt_LeaseUntilUnixN a > now")
      case True
      with Some assms ok show thesis
        by (intro idle) (auto simp: ClaimAttempt_def check_simps not_le split: if_splits)
    next
      case False
      with Some assms ok show thesis
        by (intro retry) (auto simp: ClaimAttempt_def check_simps not_le Let_def set_in_flight_def split: if_splits)
    qed
  qed
qed

lemma ClaimAttempt_inv:
  assumes "sched_inv s" "counters_left s" "ClaimAttempt s now until owner tok = Inr (s', c)"
  shows "sched_inv s'"
  using assms(3)
proof (cases rule: ClaimAttempt_cases)
  case idle
  with assms(1) show ?thesis by simp
next
  case (retry a c)
  have "attempt_ok (sched_Key s) c"
    using sched_inv_attempt [OF assms(1) retry(1)] retry by (auto simp: attempt_ok_def hasLease_def)
  then show ?thesis
    unfolding retry(10) using retry
    by (intro set_in_flight_inv [OF assms(1) retry(1) assms(2)]) auto
next
  case (first w c)
  have w: "window_ok (sched_Key s) w" "window_Generation w < sched_NextGeneration s"
    using assms(1) first(2) by (auto simp: sched_inv_def ValidateSchedule_None)
  then have "attempt_ok (sched_Key s) c"
    using first(4-7) by (auto simp: attempt_ok_def window_ok_def hasLease_def first(10) slice_bytes_def)
  with w show ?thesis
    using assms(1,2) first(1,2) inc_nonzero [of "sched_Revision s"]
    by (auto simp: sched_inv_def ValidateSchedule_None counters_left_def scheduleTargets_def first(9)) 
      (simp_all add: first(10))
qed

lemma reconcileCompleted_Inr:
  assumes "reconcileCompleted s r = Inr s'"
  obtains i c1 w c2 where "reconcile_in_flight s r = Inr (i, c1)" "reconcile_pending s r = Inr (w, c2)"
    "s' = s\<lparr>sched_InFlight := i, sched_Pending := w,
       sched_Revision := (if c1 \<or> c2 then sched_Revision s + 1 else sched_Revision s)\<rparr>"
  using assms by (auto simp: reconcileCompleted_def bind_res_Inr)

lemma reconcile_in_flight_Inr:
  "reconcile_in_flight s r = Inr (i, c) \<longleftrightarrow>
     (if c then i = None \<and> (\<exists>a. sched_InFlight s = Some a \<and> ResultMatchesTarget r (attempt_Target a))
      else i = sched_InFlight s \<and> (\<forall>a. i = Some a \<longrightarrow> sth_TreeSize (attempt_Target a) \<noteq> ares_TreeSize r))"
  by (cases "sched_InFlight s") (auto simp: reconcile_in_flight_def ResultMatchesTarget_def)

lemma reconcile_pending_Inr:
  "reconcile_pending s r = Inr (w, c) \<longleftrightarrow>
     (if c then w = None \<and> (\<exists>v. sched_Pending s = Some v \<and> sth_TreeSize (window_Target v) \<le> ares_TreeSize r \<and>
         (sth_TreeSize (window_Target v) = ares_TreeSize r \<longrightarrow> sth_RootHash (window_Target v) = ares_RootHash r))
      else w = sched_Pending s \<and> (\<forall>v. w = Some v \<longrightarrow> ares_TreeSize r < sth_TreeSize (window_Target v)))"
  by (cases "sched_Pending s") (auto simp: reconcile_pending_def not_le)

lemma reconcileCompleted_inv:
  assumes "sched_inv s" "counters_left s" "reconcileCompleted s r = Inr s'"
  shows "sched_inv s'"
  using assms(3)
proof (rule reconcileCompleted_Inr)
  fix i c1 w c2
  assume i: "reconcile_in_flight s r = Inr (i, c1)" and w: "reconcile_pending s r = Inr (w, c2)"
    and s': "s' = s\<lparr>sched_InFlight := i, sched_Pending := w,
       sched_Revision := (if c1 \<or> c2 then sched_Revision s + 1 else sched_Revision s)\<rparr>"
  have "i = None \<or> i = sched_InFlight s" "w = None \<or> w = sched_Pending s"
    using i w by (auto simp: reconcile_in_flight_Inr reconcile_pending_Inr split: if_splits)
  moreover have "sched_Revision s + 1 \<noteq> 0"
    using assms(2) by (simp add: counters_left_def inc_nonzero)
  ultimately show "sched_inv s'"
    using assms(1) unfolding sched_inv_def ValidateSchedule_None s'
    by (elim disjE) (auto simp: scheduleTargets_def split: option.splits)
qed

lemma Complete_inv:
  assumes "sched_inv s" "counters_left s" "Complete fisco s g tok r = Inr s'"
  shows "sched_inv s'"
  using assms reconcileCompleted_inv by (auto simp: Complete_def check_simps split: if_splits)

lemma ReconcileCompleted_inv:
  assumes "sched_inv s" "counters_left s" "ReconcileCompleted fisco s r = Inr (s', c)"
  shows "sched_inv s'"
  using assms reconcileCompleted_inv by (auto simp: ReconcileCompleted_def check_simps)

section \<open>Merging a candidate\<close>

lemma merge_targets_None:
  "merge_targets sth ts = None \<longleftrightarrow> (\<forall>t \<in> set ts. sth_TreeSize t < sth_TreeSize sth)"
  by (induction ts) (auto simp: not_le)

lemma merge_targets_covered:
  "merge_targets sth ts = Some None \<Longrightarrow> \<exists>t \<in> set ts. sth_TreeSize sth \<le> sth_TreeSize t"
  by (induction ts) (auto split: if_splits)

lemma new_schedule_targets [simp]: "scheduleTargets (new_schedule c) = []"
  by (simp add: scheduleTargets_def new_schedule_def)

definition merge_base :: "STHAnchorSchedule option \<Rightarrow> STHAnchorCandidate \<Rightarrow> STHAnchorSchedule" where
  "merge_base st c = (case st of None \<Rightarrow> new_schedule c | Some s \<Rightarrow> s)"

lemma MergeCandidate_cases:
  assumes "MergeCandidate fisco st c latest = Inr (s', changed)"
  obtains (covered) s where "st = Some s" "s' = s" "\<not> changed"
      "(\<exists>l. latest = Some l \<and> sth_TreeSize (cand_STH c) \<le> ares_TreeSize l) \<or>
       (\<exists>t \<in> set (scheduleTargets s). sth_TreeSize (cand_STH c) \<le> sth_TreeSize t)"
  | (created) l where "st = None" "s' = (new_schedule c)\<lparr>sched_Revision := 1\<rparr>" "changed"
      "latest = Some l" "sth_TreeSize (cand_STH c) \<le> ares_TreeSize l"
  | (merged) "s' = coalesce (merge_base st c) c" "changed"
      "\<forall>t \<in> set (scheduleTargets (merge_base st c)). sth_TreeSize t < sth_TreeSize (cand_STH c)"
proof -
  let ?t = "merge_targets (cand_STH c) (scheduleTargets (merge_base st c))"
  let ?run = "case ?t of Some (Some e) \<Rightarrow> Inl e | Some None \<Rightarrow> Inr (merge_base st c, False)
    | None \<Rightarrow> Inr (coalesce (merge_base st c) c, True)"
  consider l where "latest = Some l" "sth_TreeSize (cand_STH c) \<le> ares_TreeSize l"
      "(if st = None then (merge_base st c\<lparr>sched_Revision := 1\<rparr>, True) else (merge_base st c, False)) = (s', changed)"
    | "?run = Inr (s', changed)"
    using assms unfolding MergeCandidate_def merge_base_def [symmetric] Let_def
    by (auto simp: check_simps split: option.splits if_splits)
  then show thesis
  proof cases
    case (1 l)
    then show thesis
      by (cases st) (auto simp: merge_base_def intro: covered created)
  next
    case 2
    show thesis
    proof (cases ?t)
      case None
      with 2 merged show thesis by (auto simp: merge_targets_None)
    next
      case (Some r)
      with 2 have r: "?t = Some None" "s' = merge_base st c" "\<not> changed"
        by (auto split: option.splits)
      then obtain s where "st = Some s" by (cases st) (auto simp: merge_base_def)
      with r merge_targets_covered [OF r(1)] show thesis by (intro covered) (auto simp: merge_base_def)
    qed
  qed
qed

lemma MergeCandidate_checks:
  assumes "MergeCandidate fisco st c latest = Inr (s', changed)"
  shows "ValidateCandidate c = None"
    "\<And>s. st = Some s \<Longrightarrow> ValidateSchedule s = None \<and> sched_Key s = cand_Key c \<and>
       sth_CryptoSuite (cand_STH c) = sched_CryptoSuite s"
  using assms by (auto simp: MergeCandidate_def check_simps SameKey_eq)

lemma ValidateCandidate_None:
  "ValidateCandidate c = None \<longleftrightarrow>
     skey_SinkName (cand_Key c) \<noteq> '''' \<and> validateTarget (cand_Key c) (cand_STH c) = None \<and>
     0 < cand_ObservedAtUnixN c \<and> cand_ObservedAtUnixN c \<le> cand_DueAtUnixN c"
  by (auto simp: ValidateCandidate_def check_simps ValidateKey_None)

lemma coalesce_inv:
  assumes c: "ValidateCandidate c = None" "\<forall>t \<in> set (scheduleTargets s). sth_TreeSize t < sth_TreeSize (cand_STH c)"
    and s: "sched_inv s" "counters_left s" "sched_Key s = cand_Key c" "sth_CryptoSuite (cand_STH c) = sched_CryptoSuite s"
  shows "sched_inv (coalesce s c)"
proof (cases "sched_Pending s")
  case (Some w)
  define w' where "w' = w\<lparr>window_Target := cand_STH c, window_UpdatedAtUnixN :=
    (if cand_ObservedAtUnixN c > window_UpdatedAtUnixN w then cand_ObservedAtUnixN c else window_UpdatedAtUnixN w)\<rparr>"
  have co: "coalesce s c = s\<lparr>sched_Pending := Some w', sched_Revision := sched_Revision s + 1\<rparr>"
    by (simp add: coalesce_def Some w'_def)
  have w: "window_ok (sched_Key s) w" "window_Generation w < sched_NextGeneration s"
    using s(1) Some by (auto simp: sched_inv_def ValidateSchedule_None)
  have w': "window_ok (sched_Key s) w'" "window_Generation w' = window_Generation w" "window_Target w' = cand_STH c"
    using w(1) c(1) s(3) by (auto simp: window_ok_def ValidateCandidate_None w'_def)
  have "sched_Revision s + 1 \<noteq> 0" using s(2) by (simp add: counters_left_def inc_nonzero)
  then show ?thesis
    using s(1,4) w' w(2) c(2) Some unfolding co sched_inv_def ValidateSchedule_None
    by (auto simp: scheduleTargets_def split: option.splits)
next
  case None
  have ng: "sched_NextGeneration s \<noteq> 0" using s(1) by (auto simp: sched_inv_def ValidateSchedule_None)
  define w' where "w' = \<lparr>window_Generation = sched_NextGeneration s, window_Target = cand_STH c,
      window_OpenedAtUnixN = cand_ObservedAtUnixN c, window_DueAtUnixN = cand_DueAtUnixN c,
      window_UpdatedAtUnixN = cand_ObservedAtUnixN c\<rparr>"
  have co: "coalesce s c = s\<lparr>sched_Pending := Some w', sched_NextGeneration := sched_NextGeneration s + 1,
      sched_Revision := sched_Revision s + 1\<rparr>"
    using ng by (simp add: coalesce_def None w'_def Let_def)
  have w': "window_ok (sched_Key s) w'" "window_Generation w' = sched_NextGeneration s" "window_Target w' = cand_STH c"
    using ng c(1) s(3) by (auto simp: window_ok_def ValidateCandidate_None w'_def)
  have room: "sched_Revision s \<noteq> - 1" "sched_NextGeneration s \<noteq> - 1"
    using s(2) by (auto simp: counters_left_def)
  have inc: "sched_Revision s + 1 \<noteq> 0" "sched_NextGeneration s + 1 \<noteq> 0"
      "\<And>g. g \<le> sched_NextGeneration s \<Longrightarrow> g < sched_NextGeneration s + 1"
    using inc_nonzero [OF room(1)] inc_nonzero [OF room(2)] inc_greater [OF room(2)] by auto
  show ?thesis
    using s(1,4) w' c(2) inc None unfolding co sched_inv_def ValidateSchedule_None
    by (auto simp: scheduleTargets_def less_imp_le split: option.splits)
qed

text \<open>A fresh schedule satisfies everything but the revision, which the first write sets.\<close>

lemma new_schedule_inv:
  assumes "ValidateCandidate c = None" "r \<noteq> 0"
  shows "sched_inv ((new_schedule c)\<lparr>sched_Revision := r\<rparr>)"
proof -
  obtain suite where "Lookup (sth_CryptoSuite (cand_STH c)) = Some suite"
    using assms(1) validateTarget_suite by (auto simp: ValidateCandidate_None)
  then show ?thesis
    using assms by (simp add: sched_inv_def ValidateSchedule_None new_schedule_def ValidateCandidate_None scheduleTargets_def)
qed

lemma coalesce_new_inv:
  assumes "ValidateCandidate c = None"
  shows "sched_inv (coalesce (new_schedule c) c)"
proof -
  have "sched_inv (coalesce ((new_schedule c)\<lparr>sched_Revision := 1\<rparr>) c)"
    using assms by (intro coalesce_inv new_schedule_inv)
      (simp_all add: scheduleTargets_def new_schedule_def counters_left_def)
  moreover have "coalesce ((new_schedule c)\<lparr>sched_Revision := 1\<rparr>) c =
      (coalesce (new_schedule c) c)\<lparr>sched_Revision := 2\<rparr>"
    by (simp add: coalesce_def new_schedule_def)
  moreover have "sched_Revision (coalesce (new_schedule c) c) = 1"
    by (simp add: coalesce_def new_schedule_def)
  ultimately show ?thesis
    by (auto simp: sched_inv_def ValidateSchedule_None scheduleTargets_def)
qed

lemma MergeCandidate_inv:
  assumes inv: "\<And>s. st = Some s \<Longrightarrow> sched_inv s \<and> counters_left s"
    and m: "MergeCandidate fisco st c latest = Inr (s', changed)"
  shows "sched_inv s'"
  using m
proof (cases rule: MergeCandidate_cases)
  case (covered s)
  then show ?thesis using inv by simp
next
  case (created l)
  then show ?thesis using new_schedule_inv MergeCandidate_checks(1) [OF m] by simp
next
  case merged
  show ?thesis
  proof (cases st)
    case None
    then show ?thesis
      using merged(1) coalesce_new_inv MergeCandidate_checks(1) [OF m] by (simp add: merge_base_def)
  next
    case (Some s)
    then show ?thesis
      using merged inv MergeCandidate_checks [OF m] coalesce_inv [of c s] by (simp add: merge_base_def)
  qed
qed

section \<open>The schedule as a state machine\<close>

text \<open>
  The state is the stored schedule, \<open>None\<close> before the first candidate. Each rule is a successful
  call of one operation whose result the store writes back.
\<close>

inductive anchor_step :: "proof_check \<Rightarrow> STHAnchorSchedule option \<Rightarrow> STHAnchorSchedule option \<Rightarrow> bool"
  for fisco where
  create: "MergeCandidate fisco None c latest = Inr (s', ch) \<Longrightarrow> anchor_step fisco None (Some s')"
| merge: "MergeCandidate fisco (Some s) c latest = Inr (s', ch) \<Longrightarrow> counters_left s \<Longrightarrow>
    anchor_step fisco (Some s) (Some s')"
| claim: "ClaimAttempt s now until owner tok = Inr (s', a) \<Longrightarrow> counters_left s \<Longrightarrow>
    anchor_step fisco (Some s) (Some s')"
| checkpoint: "CompareAndSwapProviderState s g tok now old new = Inr s' \<Longrightarrow> counters_left s \<Longrightarrow>
    anchor_step fisco (Some s) (Some s')"
| reschedule: "Reschedule s g tok n next err = Inr s' \<Longrightarrow> counters_left s \<Longrightarrow>
    anchor_step fisco (Some s) (Some s')"
| fail: "Fail_attempt s g tok n err = Inr s' \<Longrightarrow> counters_left s \<Longrightarrow> anchor_step fisco (Some s) (Some s')"
| complete: "Complete fisco s g tok r = Inr s' \<Longrightarrow> counters_left s \<Longrightarrow> anchor_step fisco (Some s) (Some s')"
| reconcile: "ReconcileCompleted fisco s r = Inr (s', ch) \<Longrightarrow> counters_left s \<Longrightarrow>
    anchor_step fisco (Some s) (Some s')"
| restore: "ClearLeaseForRestore s = Inr s' \<Longrightarrow> counters_left s \<Longrightarrow> anchor_step fisco (Some s) (Some s')"

inductive_cases anchor_stepE: "anchor_step fisco st st'"

definition opt_inv :: "STHAnchorSchedule option \<Rightarrow> bool" where
  "opt_inv st \<longleftrightarrow> (\<forall>s. st = Some s \<longrightarrow> sched_inv s)"

lemma anchor_step_inv:
  assumes "opt_inv st" "anchor_step fisco st st'"
  shows "opt_inv st'"
  using assms(2,1)
proof cases
  case create
  then show ?thesis using MergeCandidate_inv [of None] by (auto simp: opt_inv_def)
next
  case (merge s c latest s' ch)
  then have "sched_inv s'"
    using assms(1) MergeCandidate_inv [of "Some s" fisco c latest s' ch] by (simp add: opt_inv_def)
  with merge show ?thesis by (simp add: opt_inv_def)
qed (auto simp: opt_inv_def intro: ClaimAttempt_inv CompareAndSwapProviderState_inv Reschedule_inv
    Fail_attempt_inv Complete_inv ReconcileCompleted_inv ClearLeaseForRestore_inv)

text \<open>
  What a step, and hence a run, relates: the identity is fixed, the counters do not decrease, and
  whatever is live later under a generation that was already allocated earlier was live then under
  the same generation, with the same deadline, and with the same target once it is in flight.
\<close>

definition same_window :: "STHAnchorWindow \<Rightarrow> STHAnchorWindow \<Rightarrow> bool" where
  "same_window w w' \<longleftrightarrow>
     window_Generation w = window_Generation w' \<and> window_OpenedAtUnixN w = window_OpenedAtUnixN w' \<and>
     window_DueAtUnixN w = window_DueAtUnixN w' \<and>
     sth_TreeSize (window_Target w) \<le> sth_TreeSize (window_Target w')"

definition same_attempt :: "STHAnchorAttempt \<Rightarrow> STHAnchorAttempt \<Rightarrow> bool" where
  "same_attempt a a' \<longleftrightarrow>
     attempt_Generation a = attempt_Generation a' \<and> attempt_Target a = attempt_Target a' \<and>
     attempt_OpenedAtUnixN a = attempt_OpenedAtUnixN a' \<and> attempt_DueAtUnixN a = attempt_DueAtUnixN a' \<and>
     attempt_Attempts a \<le> attempt_Attempts a'"

definition from_window :: "STHAnchorWindow \<Rightarrow> STHAnchorAttempt \<Rightarrow> bool" where
  "from_window w a \<longleftrightarrow>
     window_Generation w = attempt_Generation a \<and> window_OpenedAtUnixN w = attempt_OpenedAtUnixN a \<and>
     window_DueAtUnixN w = attempt_DueAtUnixN a \<and>
     sth_TreeSize (window_Target w) \<le> sth_TreeSize (attempt_Target a)"

definition sched_le :: "STHAnchorSchedule \<Rightarrow> STHAnchorSchedule \<Rightarrow> bool" where
  "sched_le s s' \<longleftrightarrow>
     sched_Key s = sched_Key s' \<and> sched_CryptoSuite s = sched_CryptoSuite s' \<and>
     sched_Revision s \<le> sched_Revision s' \<and> sched_NextGeneration s \<le> sched_NextGeneration s' \<and>
     (\<forall>w'. sched_Pending s' = Some w' \<and> window_Generation w' < sched_NextGeneration s \<longrightarrow>
        (\<exists>w. sched_Pending s = Some w \<and> same_window w w')) \<and>
     (\<forall>a'. sched_InFlight s' = Some a' \<and> attempt_Generation a' < sched_NextGeneration s \<longrightarrow>
        (\<exists>a. sched_InFlight s = Some a \<and> same_attempt a a') \<or>
        (\<exists>w. sched_Pending s = Some w \<and> from_window w a'))"

definition opt_le :: "STHAnchorSchedule option \<Rightarrow> STHAnchorSchedule option \<Rightarrow> bool" where
  "opt_le st st' \<longleftrightarrow> (\<forall>s. st = Some s \<longrightarrow> (\<exists>s'. st' = Some s' \<and> sched_le s s'))"

lemma same_refl [simp]: "same_window w w" "same_attempt a a"
  by (simp_all add: same_window_def same_attempt_def)

lemma sched_le_refl [simp]: "sched_le s s"
  unfolding sched_le_def by (auto intro: same_refl)

lemma same_trans:
  "same_window v w \<Longrightarrow> same_window w x \<Longrightarrow> same_window v x"
  "same_attempt a b \<Longrightarrow> same_attempt b c \<Longrightarrow> same_attempt a c"
  "same_window v w \<Longrightarrow> from_window w a \<Longrightarrow> from_window v a"
  "from_window w a \<Longrightarrow> same_attempt a b \<Longrightarrow> from_window w b"
  by (auto simp: same_window_def same_attempt_def from_window_def)

lemma sched_le_pending:
  "sched_le s s' \<Longrightarrow> sched_Pending s' = Some w' \<Longrightarrow> window_Generation w' < sched_NextGeneration s \<Longrightarrow>
   \<exists>w. sched_Pending s = Some w \<and> same_window w w'"
  by (simp add: sched_le_def)

lemma sched_le_in_flight:
  assumes "sched_le s s'" "sched_InFlight s' = Some a'" "attempt_Generation a' < sched_NextGeneration s"
  obtains a where "sched_InFlight s = Some a" "same_attempt a a'"
  | w where "sched_Pending s = Some w" "from_window w a'"
  using assms unfolding sched_le_def by blast

lemma sched_le_trans:
  assumes st: "sched_le s t" and tu: "sched_le t u"
  shows "sched_le s u"
proof -
  have ng: "sched_NextGeneration s \<le> sched_NextGeneration t" using st by (simp add: sched_le_def)
  have p: "\<exists>w. sched_Pending s = Some w \<and> same_window w x"
    if x: "sched_Pending u = Some x" "window_Generation x < sched_NextGeneration s" for x
  proof -
    obtain w where w: "sched_Pending t = Some w" "same_window w x"
      using sched_le_pending [OF tu x(1) less_le_trans [OF x(2) ng]] by blast
    moreover have "window_Generation w < sched_NextGeneration s"
      using w(2) x(2) by (simp add: same_window_def)
    ultimately show ?thesis using sched_le_pending [OF st] same_trans(1) by blast
  qed
  have i: "(\<exists>a. sched_InFlight s = Some a \<and> same_attempt a x) \<or> (\<exists>w. sched_Pending s = Some w \<and> from_window w x)"
    if x: "sched_InFlight u = Some x" "attempt_Generation x < sched_NextGeneration s" for x
    using tu x(1) less_le_trans [OF x(2) ng]
  proof (cases rule: sched_le_in_flight)
    case (1 b)
    then have g: "attempt_Generation b < sched_NextGeneration s" using x(2) by (simp add: same_attempt_def)
    show ?thesis
      using st 1(1) g by (cases rule: sched_le_in_flight) (use 1(2) same_trans(2,4) in blast)+
  next
    case (2 w)
    then have "window_Generation w < sched_NextGeneration s" using x(2) by (simp add: from_window_def)
    with 2 show ?thesis using sched_le_pending [OF st] same_trans(3) by blast
  qed
  have "sched_Key s = sched_Key u" "sched_CryptoSuite s = sched_CryptoSuite u"
      "sched_Revision s \<le> sched_Revision u" "sched_NextGeneration s \<le> sched_NextGeneration u"
    using st tu by (auto simp: sched_le_def intro: order_trans)
  with p i show ?thesis unfolding sched_le_def by blast
qed

lemma set_in_flight_le:
  assumes "sched_Revision s \<noteq> - 1" "sched_InFlight s = Some a" "same_attempt a a'"
  shows "sched_le s (set_in_flight s a')"
  using assms inc_greater [of "sched_Revision s" "sched_Revision s"]
  by (auto simp: sched_le_def set_in_flight_def)

lemma owner_step_le:
  assumes "counters_left s"
  shows "CompareAndSwapProviderState s g tok now old new = Inr s' \<Longrightarrow> sched_le s s'"
    and "Reschedule s g tok n next err = Inr s' \<Longrightarrow> sched_le s s'"
    and "Fail_attempt s g tok n err = Inr s' \<Longrightarrow> sched_le s s'"
    and "ClearLeaseForRestore s = Inr s' \<Longrightarrow> sched_le s s'"
proof -
  have rev: "sched_Revision s \<noteq> - 1" using assms by (simp add: counters_left_def)
  show "CompareAndSwapProviderState s g tok now old new = Inr s' \<Longrightarrow> sched_le s s'"
    by (auto simp: CompareAndSwapProviderState_def bind_res_Inr owned_attempt_Inr same_attempt_def
        split: if_splits intro!: set_in_flight_le [OF rev])
  show "Reschedule s g tok n next err = Inr s' \<Longrightarrow> sched_le s s'"
    by (auto simp: Reschedule_def bind_res_Inr owned_attempt_Inr same_attempt_def
        split: if_splits intro!: set_in_flight_le [OF rev])
  show "Fail_attempt s g tok n err = Inr s' \<Longrightarrow> sched_le s s'"
    by (auto simp: Fail_attempt_def bind_res_Inr owned_attempt_Inr same_attempt_def
        split: if_splits intro!: set_in_flight_le [OF rev])
  show "ClearLeaseForRestore s = Inr s' \<Longrightarrow> sched_le s s'"
    by (auto simp: ClearLeaseForRestore_def checked_Inr same_attempt_def
        split: if_splits option.splits intro!: set_in_flight_le [OF rev])
qed

lemma ClaimAttempt_le:
  assumes "sched_inv s" "counters_left s" "ClaimAttempt s now until owner tok = Inr (s', c)"
  shows "sched_le s s'"
  using assms(3)
proof (cases rule: ClaimAttempt_cases)
  case idle
  then show ?thesis by simp
next
  case (retry a c)
  then show ?thesis
    using assms(2) by (auto simp: counters_left_def same_attempt_def intro!: set_in_flight_le)
next
  case (first w c)
  then show ?thesis
    using assms(2) inc_greater [of "sched_Revision s" "sched_Revision s"]
    by (auto simp: sched_le_def counters_left_def from_window_def)
qed

lemma reconcileCompleted_le:
  assumes "counters_left s" "reconcileCompleted s r = Inr s'"
  shows "sched_le s s'"
  using assms(2)
proof (rule reconcileCompleted_Inr)
  fix i c1 w c2
  assume i: "reconcile_in_flight s r = Inr (i, c1)" and w: "reconcile_pending s r = Inr (w, c2)"
    and s': "s' = s\<lparr>sched_InFlight := i, sched_Pending := w,
       sched_Revision := (if c1 \<or> c2 then sched_Revision s + 1 else sched_Revision s)\<rparr>"
  have "i = None \<or> i = sched_InFlight s" "w = None \<or> w = sched_Pending s"
    using i w by (auto simp: reconcile_in_flight_Inr reconcile_pending_Inr split: if_splits)
  moreover have "sched_Revision s \<le> sched_Revision s + 1"
    using assms(1) inc_greater [of "sched_Revision s" "sched_Revision s"] by (simp add: counters_left_def)
  ultimately show ?thesis
    unfolding s' sched_le_def by (elim disjE) (auto intro: same_refl)
qed

lemma MergeCandidate_le:
  assumes "sched_inv s" "counters_left s" "MergeCandidate fisco (Some s) c latest = Inr (s', ch)"
  shows "sched_le s s'"
  using assms(3)
proof (cases rule: MergeCandidate_cases)
  case (covered t)
  then show ?thesis by simp
next
  case (created l)
  then show ?thesis by simp
next
  case merged
  have room: "sched_Revision s \<le> sched_Revision s + 1" "sched_NextGeneration s \<le> sched_NextGeneration s + 1"
    using assms(2) inc_greater [of "sched_Revision s" "sched_Revision s"]
      inc_greater [of "sched_NextGeneration s" "sched_NextGeneration s"] by (simp_all add: counters_left_def)
  have ng: "sched_NextGeneration s \<noteq> 0" using assms(1) by (auto simp: sched_inv_def ValidateSchedule_None)
  show ?thesis
  proof (cases "sched_Pending s")
    case None
    with merged(1) room ng show ?thesis
      by (auto simp: sched_le_def coalesce_def merge_base_def Let_def intro: same_refl)
  next
    case (Some w)
    with merged(3) have "sth_TreeSize (window_Target w) \<le> sth_TreeSize (cand_STH c)"
      by (auto simp: merge_base_def scheduleTargets_def less_imp_le)
    with Some merged(1) room show ?thesis
      by (auto simp: sched_le_def coalesce_def merge_base_def same_window_def intro: same_refl)
  qed
qed

lemma anchor_step_le:
  assumes "opt_inv st" "anchor_step fisco st st'"
  shows "opt_le st st'"
  using assms(2)
proof cases
  case create
  then show ?thesis by (simp add: opt_le_def)
next
  case (merge s c latest s' ch)
  then have "sched_le s s'" using assms(1) MergeCandidate_le [of s fisco c latest s' ch] by (simp add: opt_inv_def)
  with merge show ?thesis by (simp add: opt_le_def)
next
  case (claim s now until owner tok s' a)
  then have "sched_le s s'" using assms(1) ClaimAttempt_le [of s now until owner tok s' a] by (simp add: opt_inv_def)
  with claim show ?thesis by (simp add: opt_le_def)
next
  case (complete s g tok r s')
  then have "reconcileCompleted s r = Inr s'"
    by (auto simp: Complete_def check_simps split: if_splits)
  with complete show ?thesis using reconcileCompleted_le by (simp add: opt_le_def)
next
  case (reconcile s r s' ch)
  then have "reconcileCompleted s r = Inr s'"
    by (auto simp: ReconcileCompleted_def check_simps)
  with reconcile show ?thesis using reconcileCompleted_le by (simp add: opt_le_def)
qed (simp_all add: opt_le_def owner_step_le)

interpretation anchor: monotone_system "\<lambda>st. st = None" "anchor_step fisco" opt_inv opt_le for fisco
proof
  show "opt_inv st" if "st = None" for st :: "STHAnchorSchedule option" using that by (simp add: opt_inv_def)
  show "opt_inv st'" if "opt_inv st" "anchor_step fisco st st'" for st st' using that by (rule anchor_step_inv)
  show "opt_le st st" for st by (simp add: opt_le_def)
  show "opt_le st u" if "opt_le st t" "opt_le t u" for st t u
    using that by (auto simp: opt_le_def) (rule sched_le_trans)
  show "opt_le st st'" if "opt_inv st" "anchor_step fisco st st'" for st st' using that by (rule anchor_step_le)
qed

end
