(* ===== verification/Anchor_Properties.thy ===== *)
theory Anchor_Properties
  imports Anchor_Invariants
begin

text \<open>
  The properties of the anchor schedule, over the state machine of theory
  \<open>Anchor_Invariants\<close>, and the selection of publication targets.
\<close>

section \<open>Sample values\<close>

definition sample_sth :: "uint64 \<Rightarrow> SignedTreeHead" where
  "sample_sth n =
     \<lparr>sth_SchemaVersion = SchemaSignedTreeHead, sth_CryptoSuite = INTLV1, sth_TreeAlg = MerkleRFC6962SHA256,
      sth_TreeSize = n, sth_RootHash = replicate 32 0, sth_TimestampUnixN = 1, sth_NodeID = ''n'',
      sth_LogID = ''l'', sth_Signature = \<lparr>sig_Alg = SignatureEd25519, sig_KeyID = ''k'', sig_Signature = [1]\<rparr>\<rparr>"

definition sample_key :: STHAnchorScheduleKey where
  "sample_key = \<lparr>skey_NodeID = ''n'', skey_LogID = ''l'', skey_SinkName = ''ots''\<rparr>"

definition sample_candidate :: "uint64 \<Rightarrow> STHAnchorCandidate" where
  "sample_candidate n =
     \<lparr>cand_Key = sample_key, cand_STH = sample_sth n, cand_ObservedAtUnixN = 5, cand_DueAtUnixN = 10\<rparr>"

definition sample_pending :: STHAnchorSchedule where
  "sample_pending = coalesce (new_schedule (sample_candidate 1)) (sample_candidate 1)"

definition sample_leased :: STHAnchorSchedule where
  "sample_leased = sample_pending\<lparr>sched_Pending := None, sched_Revision := 2, sched_InFlight := Some
     \<lparr>attempt_Generation = 1, attempt_Target = sample_sth 1, attempt_OpenedAtUnixN = 5, attempt_DueAtUnixN = 10,
      attempt_ProviderState = None, attempt_Attempts = 0, attempt_NextAttemptUnixN = 0,
      attempt_LastAttemptUnixN = 20, attempt_LastErrorMessage = '''', attempt_TerminalFailure = False,
      attempt_LeaseOwner = ''w'', attempt_LeaseToken = ''t'', attempt_LeaseUntilUnixN = 30\<rparr>\<rparr>"

lemma sample_target: "n \<noteq> 0 \<Longrightarrow> validateTarget sample_key (sample_sth n) = None"
  by (simp add: validateTarget_def sample_sth_def sample_key_def check_simps sha256_spec_def intl_v1_suite_def)

lemma sample_candidate_ok: "n \<noteq> 0 \<Longrightarrow> ValidateCandidate (sample_candidate n) = None"
  using sample_target [of n] by (simp add: ValidateCandidate_None sample_candidate_def sample_key_def)

lemma sample_merge: "MergeCandidate (\<lambda>_ _. None) None (sample_candidate 1) None = Inr (sample_pending, True)"
  using sample_candidate_ok [of 1] by (simp add: MergeCandidate_def sample_pending_def)

lemma sample_pending_fields:
  "sched_InFlight sample_pending = None" "sched_Revision sample_pending = 1" "sched_NextGeneration sample_pending = 2"
  "sched_Pending sample_pending = Some \<lparr>window_Generation = 1, window_Target = sample_sth 1,
     window_OpenedAtUnixN = 5, window_DueAtUnixN = 10, window_UpdatedAtUnixN = 5\<rparr>"
  "sched_Key sample_pending = sample_key" "sched_CryptoSuite sample_pending = INTLV1"
  by (simp_all add: sample_pending_def coalesce_def new_schedule_def sample_candidate_def sample_sth_def)

lemma sample_pending_inv: "sched_inv sample_pending"
  using coalesce_new_inv sample_candidate_ok [of 1] by (simp add: sample_pending_def)

lemma sample_claim:
  "ClaimAttempt sample_pending 20 30 ''w'' ''t'' = Inr (sample_leased, sched_InFlight sample_leased)"
  using sched_inv_Valid [OF sample_pending_inv]
  by (simp add: ClaimAttempt_def sample_leased_def sample_pending_fields Let_def)

lemma sample_leased_inv: "sched_inv sample_leased"
  using ClaimAttempt_inv [OF sample_pending_inv _ sample_claim]
  by (simp add: counters_left_def sample_pending_fields)

lemma sample_leased_fields:
  "sched_Pending sample_leased = None" "sched_Revision sample_leased = 2" "sched_NextGeneration sample_leased = 2"
  "sched_Key sample_leased = sample_key"
  "sched_InFlight sample_leased = Some
     \<lparr>attempt_Generation = 1, attempt_Target = sample_sth 1, attempt_OpenedAtUnixN = 5, attempt_DueAtUnixN = 10,
      attempt_ProviderState = None, attempt_Attempts = 0, attempt_NextAttemptUnixN = 0,
      attempt_LastAttemptUnixN = 20, attempt_LastErrorMessage = '''', attempt_TerminalFailure = False,
      attempt_LeaseOwner = ''w'', attempt_LeaseToken = ''t'', attempt_LeaseUntilUnixN = 30\<rparr>"
  by (simp_all add: sample_leased_def sample_pending_fields)

lemma sample_run:
  "run (anchor_step (\<lambda>_ _. None)) None (Some sample_pending)"
  "run (anchor_step (\<lambda>_ _. None)) (Some sample_pending) (Some sample_leased)"
  using anchor_step.create [OF sample_merge] anchor_step.claim [OF sample_claim, of "\<lambda>_ _. None"]
  by (auto simp: counters_left_def sample_pending_fields)

section \<open>Properties of the state machine\<close>

text \<open>C13. Every schedule the operations can reach from an empty store passes
\<open>ValidateSchedule\<close> and the suite gate \<open>modelsuite.Require\<close>, and a restore that clears a
foreign lease succeeds on it with a schedule that passes again (counters below \<open>2 ^ 64 - 1\<close>).\<close>

theorem anchor_reachable_valid:
  assumes "run (anchor_step fisco) None (Some s)"
  shows "ValidateSchedule s = None \<and> Require (sched_CryptoSuite s) (SB_STHAnchorSchedule s) = None \<and>
    (counters_left s \<longrightarrow> (\<exists>s'. ClearLeaseForRestore s = Inr s' \<and> ValidateSchedule s' = None))"
proof -
  have inv: "sched_inv s"
    using anchor.reachable_inv [OF refl assms] by (simp add: opt_inv_def)
  have "\<exists>s'. ClearLeaseForRestore s = Inr s'"
    using sched_inv_Valid [OF inv] by (auto simp: ClearLeaseForRestore_def split: option.split)
  moreover have "Require (sched_CryptoSuite s) (SB_STHAnchorSchedule s) = None"
    using inv by (auto simp: Require_None sched_inv_def ValidateSchedule_None scheduleTargets_def split: option.splits)
  ultimately show ?thesis
    using inv ClearLeaseForRestore_inv sched_inv_Valid by blast
qed

theorem anchor_reachable_valid_witness:
  "ValidateSchedule sample_leased = None \<and> (\<exists>s'. ClearLeaseForRestore sample_leased = Inr s' \<and> ValidateSchedule s' = None)"
proof -
  have "run (anchor_step (\<lambda>_ _. None)) None (Some sample_leased)"
    using run_trans [OF sample_run(2) sample_run(1)] .
  from anchor_reachable_valid [OF this] show ?thesis
    by (simp add: counters_left_def sample_leased_fields)
qed

text \<open>C14. The target of an in-flight attempt is immutable and deadlines do not slide: along any
run from a reachable schedule, two in-flight attempts with the same generation have the same target,
opening and due time; two pending windows with the same generation have the same opening and due
time and the later target is at least as large; and an attempt claimed from a window keeps the
window's times.\<close>

theorem anchor_target_immutable:
  assumes "run (anchor_step fisco) None (Some s)" "run (anchor_step fisco) (Some s) (Some s')"
  shows "(\<forall>a a'. sched_InFlight s = Some a \<and> sched_InFlight s' = Some a' \<and>
            attempt_Generation a' = attempt_Generation a \<longrightarrow> same_attempt a a') \<and>
    (\<forall>w w'. sched_Pending s = Some w \<and> sched_Pending s' = Some w' \<and>
            window_Generation w' = window_Generation w \<longrightarrow> same_window w w') \<and>
    (\<forall>w a'. sched_Pending s = Some w \<and> sched_InFlight s' = Some a' \<and>
            attempt_Generation a' = window_Generation w \<longrightarrow> from_window w a')"
proof -
  have inv: "sched_inv s" using anchor.reachable_inv [OF refl assms(1)] by (simp add: opt_inv_def)
  have le: "sched_le s s'"
    using anchor.run_le [OF assms(2)] inv by (simp add: opt_inv_def opt_le_def)
  have gen: "\<And>w. sched_Pending s = Some w \<Longrightarrow> window_Generation w < sched_NextGeneration s"
      "\<And>a. sched_InFlight s = Some a \<Longrightarrow> attempt_Generation a < sched_NextGeneration s"
      "\<And>w a. sched_Pending s = Some w \<Longrightarrow> sched_InFlight s = Some a \<Longrightarrow> attempt_Generation a < window_Generation w"
    using inv by (auto simp: sched_inv_def ValidateSchedule_None)
  have "same_attempt a a'"
    if "sched_InFlight s = Some a" "sched_InFlight s' = Some a'" "attempt_Generation a' = attempt_Generation a" for a a'
  proof -
    have "attempt_Generation a' < sched_NextGeneration s" using gen(2) [OF that(1)] that(3) by simp
    with le that(2) show ?thesis
      by (cases rule: sched_le_in_flight) (use that gen(3) in \<open>fastforce simp: from_window_def\<close>)+
  qed
  moreover have "same_window w w'"
    if "sched_Pending s = Some w" "sched_Pending s' = Some w'" "window_Generation w' = window_Generation w" for w w'
    using sched_le_pending [OF le that(2)] gen(1) [OF that(1)] that by simp
  moreover have "from_window w a'"
    if "sched_Pending s = Some w" "sched_InFlight s' = Some a'" "attempt_Generation a' = window_Generation w" for w a'
  proof -
    have "attempt_Generation a' < sched_NextGeneration s" using gen(1) [OF that(1)] that(3) by simp
    with le that(2) show ?thesis
      by (cases rule: sched_le_in_flight) (use that gen(3) in \<open>fastforce simp: same_attempt_def\<close>)+
  qed
  ultimately show ?thesis by blast
qed

theorem anchor_target_immutable_witness:
  "from_window (the (sched_Pending sample_pending)) (the (sched_InFlight sample_leased))"
  using anchor_target_immutable [OF sample_run] by (simp add: sample_pending_fields sample_leased_fields)

text \<open>C15. Leases are exclusive and fence stale owners: while the in-flight attempt of a valid
schedule is leased beyond \<open>now\<close>, no claim at \<open>now\<close> succeeds; and after a successful claim
every owner operation that carries another token is rejected with \<open>FailedPrecondition\<close> and
changes nothing.\<close>

theorem anchor_lease_exclusive:
  assumes "ClaimAttempt s now until owner tok = Inr (s', Some c)" "sched_inv s" "counters_left s" "tok' \<noteq> tok"
  shows "(\<forall>a. sched_InFlight s = Some a \<longrightarrow> attempt_LeaseUntilUnixN a \<le> now) \<and>
    sched_InFlight s' = Some c \<and> attempt_LeaseToken c = tok \<and> attempt_LeaseUntilUnixN c = until \<and>
    (\<forall>g. let e = New CodeFailedPrecondition ''anchor attempt generation or lease token does not match'' in
       (\<forall>t old new. CompareAndSwapProviderState s' g tok' t old new = Inl e) \<and>
       (\<forall>n next err. Reschedule s' g tok' n next err = Inl e) \<and>
       (\<forall>n err. Fail_attempt s' g tok' n err = Inl e) \<and>
       (\<forall>fisco r. Complete fisco s' g tok' r = Inl e))"
proof -
  have v: "ValidateSchedule s' = None"
    using ClaimAttempt_inv [OF assms(2,3,1)] by (rule sched_inv_Valid)
  have c: "(\<forall>a. sched_InFlight s = Some a \<longrightarrow> attempt_LeaseUntilUnixN a \<le> now) \<and>
    sched_InFlight s' = Some c \<and> attempt_LeaseToken c = tok \<and> attempt_LeaseUntilUnixN c = until"
    using assms(1) by (cases rule: ClaimAttempt_cases) (auto simp: set_in_flight_def)
  then have "owned_attempt s' g tok' =
      Inl (New CodeFailedPrecondition ''anchor attempt generation or lease token does not match'')" for g
    using v assms(4) by (auto simp: owned_attempt_def)
  then show ?thesis
    using c by (simp add: CompareAndSwapProviderState_def Reschedule_def Fail_attempt_def Complete_def)
qed

theorem anchor_lease_exclusive_witness:
  "Fail_attempt sample_leased 1 ''u'' 1 ''x'' =
     Inl (New CodeFailedPrecondition ''anchor attempt generation or lease token does not match'')"
  using anchor_lease_exclusive [of sample_pending 20 30 "''w''" "''t''" sample_leased
      "the (sched_InFlight sample_leased)" "''u''"] sample_claim sample_pending_inv
  by (simp add: counters_left_def sample_pending_fields sample_leased_fields Let_def)

text \<open>C16. A claim with valid lease fields on a valid schedule succeeds exactly when there is work
that is due and free: an in-flight attempt that has not failed terminally, whose retry time and lease
have passed, or, with nothing in flight, a pending window whose due time has passed.\<close>

theorem anchor_claim_succeeds_iff:
  assumes "ValidateSchedule s = None" "0 < now" "now < until" "owner \<noteq> ''''" "tok \<noteq> ''''"
  shows "(\<exists>s' c. ClaimAttempt s now until owner tok = Inr (s', Some c)) \<longleftrightarrow>
    (case sched_InFlight s of
       Some a \<Rightarrow> \<not> attempt_TerminalFailure a \<and> attempt_NextAttemptUnixN a \<le> now \<and> attempt_LeaseUntilUnixN a \<le> now
     | None \<Rightarrow> (case sched_Pending s of None \<Rightarrow> False | Some w \<Rightarrow> window_DueAtUnixN w \<le> now))"
  using assms by (auto simp: ClaimAttempt_def Let_def not_le split: option.splits)

theorem anchor_claim_succeeds_iff_witness:
  "\<exists>s' c. ClaimAttempt sample_pending 10 11 ''w'' ''t'' = Inr (s', Some c)"
  using anchor_claim_succeeds_iff [of sample_pending 10 11 "''w''" "''t''"] sched_inv_Valid [OF sample_pending_inv]
  by (simp add: sample_pending_fields)

text \<open>C17. No tree head is forgotten: after a candidate is merged it is covered by the latest
published result or by a scheduled target at least as large, and the change flag is set exactly when
the stored schedule differs.\<close>

theorem anchor_merge_covers:
  assumes "MergeCandidate fisco st c latest = Inr (s', ch)"
  shows "((\<exists>l. latest = Some l \<and> sth_TreeSize (cand_STH c) \<le> ares_TreeSize l) \<or>
      (\<exists>t \<in> set (scheduleTargets s'). sth_TreeSize (cand_STH c) \<le> sth_TreeSize t)) \<and>
    (ch \<longleftrightarrow> st \<noteq> Some s')"
  using assms
proof (cases rule: MergeCandidate_cases)
  case merged
  have "cand_STH c \<in> set (scheduleTargets s')"
    unfolding merged(1) by (simp add: scheduleTargets_def coalesce_def Let_def split: option.split)
  moreover have "sched_Revision s' = sched_Revision (merge_base st c) + 1"
    unfolding merged(1) by (simp add: coalesce_def Let_def split: option.split)
  then have "s' \<noteq> merge_base st c" by auto
  ultimately show ?thesis using merged(2) by (auto simp: merge_base_def)
qed auto

theorem anchor_merge_covers_witness:
  "\<exists>t \<in> set (scheduleTargets sample_pending). sth_TreeSize (sample_sth 1) \<le> sth_TreeSize t"
  using anchor_merge_covers [OF sample_merge] by (simp add: sample_candidate_def)

text \<open>C18. Reconciling with a stored result removes only targets that result covers, removes an
in-flight target only when the result binds exactly that tree head, and reports a change exactly when
the schedule changed.\<close>

theorem anchor_reconcile_removes_covered:
  assumes "ReconcileCompleted fisco s r = Inr (s', ch)"
  shows "(\<forall>t \<in> set (scheduleTargets s). t \<in> set (scheduleTargets s') \<or> sth_TreeSize t \<le> ares_TreeSize r) \<and>
    (\<forall>a. sched_InFlight s = Some a \<longrightarrow> sched_InFlight s' = Some a \<or> ares_STH r = attempt_Target a) \<and>
    (ch \<longleftrightarrow> s' \<noteq> s)"
proof -
  have rc: "reconcileCompleted s r = Inr s'" "ch \<longleftrightarrow> sched_Revision s' \<noteq> sched_Revision s"
    using assms by (auto simp: ReconcileCompleted_def check_simps)
  from rc(1) obtain i c1 w c2 where d: "reconcile_in_flight s r = Inr (i, c1)" "reconcile_pending s r = Inr (w, c2)"
    "s' = s\<lparr>sched_InFlight := i, sched_Pending := w,
       sched_Revision := (if c1 \<or> c2 then sched_Revision s + 1 else sched_Revision s)\<rparr>"
    by (rule reconcileCompleted_Inr)
  have same: "s' = s" if "\<not> c1" "\<not> c2" using that d by (simp add: reconcile_in_flight_Inr reconcile_pending_Inr)
  have "sched_Revision s' = (if c1 \<or> c2 then sched_Revision s + 1 else sched_Revision s)"
    unfolding d(3) by simp
  then have "ch \<longleftrightarrow> c1 \<or> c2" "c1 \<or> c2 \<Longrightarrow> s' \<noteq> s" using rc(2) by auto
  with same have "ch \<longleftrightarrow> s' \<noteq> s" by blast
  moreover have "t \<in> set (scheduleTargets s') \<or> sth_TreeSize t \<le> ares_TreeSize r"
    if "t \<in> set (scheduleTargets s)" for t
    using that d
    by (auto simp: scheduleTargets_def reconcile_in_flight_Inr reconcile_pending_Inr ResultMatchesTarget_def
        split: option.splits if_splits)
  moreover have "sched_InFlight s' = Some a \<or> ares_STH r = attempt_Target a" if "sched_InFlight s = Some a" for a
    using that d(1) unfolding d(3) by (auto simp: reconcile_in_flight_Inr ResultMatchesTarget_eq split: if_splits)
  ultimately show ?thesis by blast
qed

definition sample_result :: STHAnchorResult where
  "sample_result =
     \<lparr>ares_SchemaVersion = SchemaSTHAnchorResult, ares_CryptoSuite = INTLV1, ares_NodeID = ''n'', ares_LogID = ''l'',
      ares_TreeSize = 1, ares_SinkName = ''ots'', ares_AnchorID = ''a'', ares_RootHash = replicate 32 0,
      ares_STH = sample_sth 1, ares_Proof = [], ares_EvidenceStage = AnchorEvidenceStageRaw, ares_PublishedAtUnixN = 25\<rparr>"

lemma sample_result_ok: "ValidateResult (\<lambda>_ _. None) sample_key sample_result = None"
proof -
  have "ValidateKey sample_key = None" by (simp add: ValidateKey_None sample_key_def)
  moreover have "hash_DigestBytes (suite_AnchorDigest intl_v1_suite) = 32" using Lookup_digests(4) [of INTLV1] by simp
  moreover have "validateTarget sample_key (ares_STH sample_result) = None"
    using sample_target [of 1] by (simp add: sample_result_def)
  ultimately show ?thesis
    unfolding ValidateResult_def
    by (simp add: sample_result_def check_simps sample_key_def ValidAnchorEvidenceStage_def sample_sth_def)
qed

theorem anchor_reconcile_removes_covered_witness:
  "ReconcileCompleted (\<lambda>_ _. None) sample_leased sample_result =
     Inr (sample_leased\<lparr>sched_InFlight := None, sched_Revision := 3\<rparr>, True) \<and>
   sample_leased\<lparr>sched_InFlight := None, sched_Revision := 3\<rparr> \<noteq> sample_leased"
proof -
  have "ReconcileCompleted (\<lambda>_ _. None) sample_leased sample_result =
     Inr (sample_leased\<lparr>sched_InFlight := None, sched_Revision := 3\<rparr>, True)"
    using sample_result_ok sched_inv_Valid [OF sample_leased_inv]
    by (simp add: ReconcileCompleted_def reconcileCompleted_def reconcile_in_flight_def reconcile_pending_def
        ResultMatchesTarget_eq sample_leased_fields sample_result_def sample_sth_def)
  with anchor_reconcile_removes_covered [OF this] show ?thesis by simp
qed

section \<open>Selecting publication targets\<close>

text \<open>
  The loop invariant after the tree heads \<open>xs\<close>: \<open>seen\<close> maps each size to its tree head,
  \<open>highest\<close> has the greatest size and \<open>windowStart\<close> the least size above the covered one,
  each the zero value while there is none.
\<close>

definition greatest_head :: "SignedTreeHead list \<Rightarrow> SignedTreeHead \<Rightarrow> bool" where
  "greatest_head xs t \<longleftrightarrow> t \<in> set xs \<and> (\<forall>u \<in> set xs. sth_TreeSize u \<le> sth_TreeSize t)"

definition least_uncovered :: "uint64 \<Rightarrow> SignedTreeHead list \<Rightarrow> SignedTreeHead \<Rightarrow> bool" where
  "least_uncovered n xs t \<longleftrightarrow> t \<in> set xs \<and> n < sth_TreeSize t \<and>
     (\<forall>u \<in> set xs. n < sth_TreeSize u \<longrightarrow> sth_TreeSize t \<le> sth_TreeSize u)"

definition sizes_agree :: "SignedTreeHead list \<Rightarrow> bool" where
  "sizes_agree xs \<longleftrightarrow> (\<forall>t \<in> set xs. sth_TreeSize t \<noteq> 0 \<and> (\<forall>u \<in> set xs. sth_TreeSize u = sth_TreeSize t \<longrightarrow> u = t))"

definition select_inv :: "uint64 \<Rightarrow> SignedTreeHead list \<Rightarrow> select_state \<Rightarrow> bool" where
  "select_inv n xs st \<longleftrightarrow>
     sizes_agree xs \<and>
     (\<forall>k t. map_of (sel_seen st) k = Some t \<longleftrightarrow> t \<in> set xs \<and> sth_TreeSize t = k) \<and>
     (if xs = [] then sel_highest st = zero_SignedTreeHead else greatest_head xs (sel_highest st)) \<and>
     (if \<forall>t \<in> set xs. sth_TreeSize t \<le> n then sel_windowStart st = zero_SignedTreeHead
      else least_uncovered n xs (sel_windowStart st))"

lemma zero_size [simp]: "sth_TreeSize zero_SignedTreeHead = 0"
  by (simp add: zero_SignedTreeHead_def)

lemma select_step_ok:
  assumes inv: "select_inv n xs st" and agree: "sizes_agree (xs @ [t])"
  shows "\<exists>st'. select_step n st t = Inr st' \<and> select_inv n (xs @ [t]) st'"
proof -
  have t: "sth_TreeSize t \<noteq> 0" "\<And>u. u \<in> set xs \<Longrightarrow> sth_TreeSize u = sth_TreeSize t \<Longrightarrow> u = t"
    using agree by (auto simp: sizes_agree_def)
  have nz: "\<And>u. u \<in> set xs \<Longrightarrow> sth_TreeSize u \<noteq> 0" using agree by (auto simp: sizes_agree_def)
  have seen: "\<And>k u. map_of (sel_seen st) k = Some u \<longleftrightarrow> u \<in> set xs \<and> sth_TreeSize u = k"
    using inv by (simp add: select_inv_def)
  define seen' where "seen' = (if t \<in> set xs then sel_seen st else (sth_TreeSize t, t) # sel_seen st)"
  define ws where "ws = (if sth_TreeSize t > n \<and> (sth_TreeSize (sel_windowStart st) = 0 \<or>
      sth_TreeSize t < sth_TreeSize (sel_windowStart st)) then t else sel_windowStart st)"
  define hi where "hi = (if sth_TreeSize (sel_highest st) = 0 \<or> sth_TreeSize t > sth_TreeSize (sel_highest st)
      then t else sel_highest st)"
  have step: "select_step n st t = Inr \<lparr>sel_seen = seen', sel_windowStart = ws, sel_highest = hi\<rparr>"
  proof (cases "map_of (sel_seen st) (sth_TreeSize t)")
    case None
    then have "t \<notin> set xs" using seen by force
    with None t(1) show ?thesis by (simp add: select_step_def seen'_def ws_def hi_def)
  next
    case (Some u)
    then have "u \<in> set xs" "sth_TreeSize u = sth_TreeSize t" using seen by auto
    with t(2) have "u = t" "t \<in> set xs" by auto
    with Some t(1) show ?thesis by (simp add: select_step_def seen'_def ws_def hi_def SameTarget_eq)
  qed
  have "map_of seen' k = Some u \<longleftrightarrow> u \<in> set (xs @ [t]) \<and> sth_TreeSize u = k" for k u
    using seen t(2) by (auto simp: seen'_def)
  moreover have "greatest_head (xs @ [t]) hi"
  proof (cases "xs = []")
    case True
    with inv show ?thesis by (simp add: select_inv_def hi_def greatest_head_def)
  next
    case False
    with inv have "greatest_head xs (sel_highest st)" by (simp add: select_inv_def)
    with nz show ?thesis by (auto simp: greatest_head_def hi_def intro: order_trans less_imp_le)
  qed
  moreover have "if \<forall>u \<in> set (xs @ [t]). sth_TreeSize u \<le> n then ws = zero_SignedTreeHead
      else least_uncovered n (xs @ [t]) ws"
  proof (cases "\<forall>u \<in> set xs. sth_TreeSize u \<le> n")
    case True
    with inv have "sel_windowStart st = zero_SignedTreeHead" by (simp add: select_inv_def)
    with True show ?thesis by (auto simp: ws_def least_uncovered_def not_le)
  next
    case False
    with inv have "least_uncovered n xs (sel_windowStart st)" unfolding select_inv_def by argo
    with False nz show ?thesis by (auto simp: ws_def least_uncovered_def not_le not_less intro: order_trans less_imp_le)
  qed
  ultimately show ?thesis
    using step agree by (simp add: select_inv_def)
qed

lemma select_step_fail:
  assumes inv: "select_inv n xs st" and bad: "\<not> sizes_agree (xs @ [t])"
  shows "\<exists>e. select_step n st t = Inl e"
proof (cases "sth_TreeSize t = 0")
  case True
  then show ?thesis by (simp add: select_step_def)
next
  case False
  have "sizes_agree xs" using inv by (simp add: select_inv_def)
  with bad False obtain u where "u \<in> set xs" "sth_TreeSize u = sth_TreeSize t" "u \<noteq> t"
    unfolding sizes_agree_def by auto
  then have "map_of (sel_seen st) (sth_TreeSize t) = Some u" using inv by (simp add: select_inv_def)
  with \<open>u \<noteq> t\<close> False show ?thesis by (simp add: select_step_def SameTarget_eq)
qed

lemma sizes_agree_prefix: "sizes_agree (xs @ ys) \<Longrightarrow> sizes_agree xs"
  by (simp add: sizes_agree_def)

lemma select_loop_spec:
  "select_inv n xs st \<Longrightarrow>
   (if sizes_agree (xs @ ts) then \<exists>st'. select_loop n st ts = Inr st' \<and> select_inv n (xs @ ts) st'
    else \<exists>e. select_loop n st ts = Inl e)"
proof (induction ts arbitrary: xs st)
  case Nil
  then show ?case by (auto simp: select_inv_def)
next
  case (Cons t ts)
  show ?case
  proof (cases "sizes_agree (xs @ [t])")
    case True
    then obtain st' where "select_step n st t = Inr st'" "select_inv n (xs @ [t]) st'"
      using select_step_ok [OF Cons.prems] by blast
    with Cons.IH [of "xs @ [t]" st'] show ?thesis by (cases "sizes_agree (xs @ t # ts)") simp_all
  next
    case False
    then have "\<not> sizes_agree (xs @ t # ts)" using sizes_agree_prefix [of "xs @ [t]" ts] by auto
    with select_step_fail [OF Cons.prems False] show ?thesis by auto
  qed
qed

lemma select_init:
  "select_inv n [] \<lparr>sel_seen = [], sel_windowStart = zero_SignedTreeHead, sel_highest = zero_SignedTreeHead\<rparr>"
  by (simp add: select_inv_def sizes_agree_def)

text \<open>C19. \<open>SelectPublicationTargets\<close> succeeds exactly on a non-empty batch whose tree sizes
are non-zero and in which equal sizes carry identical tree heads; it then returns the tree head of
the greatest size and, as the start of the window, the one of the least size above the covered
size, or the greatest when all are covered.\<close>

theorem select_publication_targets_spec:
  "SelectPublicationTargets sths n = Inr (ws, hi) \<longleftrightarrow>
     sths \<noteq> [] \<and> sizes_agree sths \<and> greatest_head sths hi \<and>
     (if \<forall>t \<in> set sths. sth_TreeSize t \<le> n then ws = hi else least_uncovered n sths ws)"
proof (cases "sths \<noteq> [] \<and> sizes_agree sths")
  case False
  then have "\<exists>e. SelectPublicationTargets sths n = Inl e"
    using select_loop_spec [OF select_init [of n], of sths]
    by (cases "sths = []") (auto simp: SelectPublicationTargets_def)
  with False show ?thesis by auto
next
  case True
  from select_loop_spec [OF select_init [of n], of sths] True obtain st where
    run: "select_loop n \<lparr>sel_seen = [], sel_windowStart = zero_SignedTreeHead, sel_highest = zero_SignedTreeHead\<rparr> sths = Inr st"
    and inv: "select_inv n sths st" by auto
  have hi: "greatest_head sths (sel_highest st)" using inv True by (simp add: select_inv_def)
  have uniq: "\<And>t u. t \<in> set sths \<Longrightarrow> u \<in> set sths \<Longrightarrow> sth_TreeSize t = sth_TreeSize u \<Longrightarrow> t = u"
    using True by (auto simp: sizes_agree_def)
  have hi_eq: "greatest_head sths hi \<longleftrightarrow> hi = sel_highest st"
    using hi uniq unfolding greatest_head_def by (metis order_antisym)
  show ?thesis
  proof (cases "\<forall>t \<in> set sths. sth_TreeSize t \<le> n")
    case all: True
    with inv have "sel_windowStart st = zero_SignedTreeHead" by (simp add: select_inv_def)
    with run True all hi_eq show ?thesis by (auto simp: SelectPublicationTargets_def)
  next
    case some: False
    with inv have ws: "least_uncovered n sths (sel_windowStart st)" unfolding select_inv_def by argo
    then have "sth_TreeSize (sel_windowStart st) \<noteq> 0" by (auto simp: least_uncovered_def)
    moreover have "least_uncovered n sths ws \<longleftrightarrow> ws = sel_windowStart st"
      using ws uniq unfolding least_uncovered_def by (metis order_antisym)
    ultimately show ?thesis
      using run True some hi_eq by (auto simp: SelectPublicationTargets_def)
  qed
qed

lemma sample_sth_size [simp]: "sth_TreeSize (sample_sth n) = n"
  by (simp add: sample_sth_def)

theorem select_publication_targets_spec_witness:
  "SelectPublicationTargets [sample_sth 3, sample_sth 2, sample_sth 1] 1 = Inr (sample_sth 2, sample_sth 3)"
proof -
  have le: "\<not> (2 :: uint64) \<le> 1" "\<not> (3 :: uint64) \<le> 1" "(2 :: uint64) \<le> 3" "(1 :: uint64) \<le> 3"
    by (simp_all add: word_le_nat_alt)
  then have "\<not> (\<forall>t \<in> set [sample_sth 3, sample_sth 2, sample_sth 1]. sth_TreeSize t \<le> 1)"
      "least_uncovered 1 [sample_sth 3, sample_sth 2, sample_sth 1] (sample_sth 2)"
      "greatest_head [sample_sth 3, sample_sth 2, sample_sth 1] (sample_sth 3)"
    by (auto simp: least_uncovered_def greatest_head_def)
  with le show ?thesis
    using select_publication_targets_spec [of "[sample_sth 3, sample_sth 2, sample_sth 1]" 1 "sample_sth 2" "sample_sth 3"]
    by (simp add: sizes_agree_def)
qed

end
