(* ===== verification/L5_Coverage.thy ===== *)
theory L5_Coverage
  imports Anchor_Schedule Transition_Systems
begin

text \<open>
  \<open>internal/l5coverage/checkpoint.go\<close>: the checkpoint of the derived L5 coverage projection.
  \<open>Advance\<close> is the only transition of a stored checkpoint; \<open>found = false\<close> is an empty
  store, \<open>None\<close>.
\<close>

definition ValidateCheckpoint :: "L5CoverageCheckpoint \<Rightarrow> go_error option" where
  "ValidateCheckpoint checkpoint = first_err
     [err_if (l5cp_SchemaVersion checkpoint \<noteq> SchemaL5Coverage)
        (New CodeDataLoss ''unsupported L5 coverage checkpoint schema''),
      map_option (\<lambda>e. Wrap CodeDataLoss ''invalid L5 coverage crypto_suite'' (Some e))
        (err_of (RequireAvailable (l5cp_CryptoSuite checkpoint))),
      map_option (\<lambda>e. Wrap CodeDataLoss ''invalid L5 coverage checkpoint key'' (Some e))
        (ValidateKey (l5cp_Key checkpoint)),
      err_if (l5cp_CoveredTreeSize checkpoint = 0)
        (New CodeDataLoss ''L5 coverage checkpoint tree size is required''),
      err_if (l5cp_Revision checkpoint = 0) (New CodeDataLoss ''L5 coverage checkpoint revision is required''),
      err_if (l5cp_UpdatedAtUnixN checkpoint < 0)
        (New CodeDataLoss ''L5 coverage checkpoint update time is invalid'')]"

definition Advance ::
  "L5CoverageCheckpoint option \<Rightarrow> suite_id \<Rightarrow> STHAnchorScheduleKey \<Rightarrow> uint64 \<Rightarrow> int64 \<Rightarrow>
   (L5CoverageCheckpoint \<times> bool) res" where
  "Advance stored suiteID key coveredTreeSize updatedAtUnixN =
     checked (first_err
       [err_of (RequireAvailable suiteID),
        ValidateKey key,
        err_if (coveredTreeSize = 0) (New CodeInvalidArgument ''covered_tree_size is required''),
        err_if (updatedAtUnixN < 0) (New CodeInvalidArgument ''updated_at_unix_nano must be non-negative'')])
    (let next = (\<lambda>revision. \<lparr>l5cp_SchemaVersion = SchemaL5Coverage, l5cp_CryptoSuite = suiteID, l5cp_Key = key,
            l5cp_CoveredTreeSize = coveredTreeSize, l5cp_Revision = revision,
            l5cp_UpdatedAtUnixN = updatedAtUnixN\<rparr>)
     in case stored of
          None \<Rightarrow> Inr (next 1, True)
        | Some current \<Rightarrow>
            checked (first_err
              [ValidateCheckpoint current,
               err_if (\<not> SameKey (l5cp_Key current) key) (New CodeDataLoss ''L5 coverage checkpoint key mismatch''),
               map_option (\<lambda>e. Wrap CodeDataLoss ''L5 coverage crypto_suite'' (Some e))
                 (RequireSame suiteID [l5cp_CryptoSuite current])])
           (if coveredTreeSize \<le> l5cp_CoveredTreeSize current then Inr (current, False)
            else if l5cp_Revision current = - 1
            then Inl (New CodeDataLoss ''L5 coverage checkpoint revision overflow'')
            else Inr (next (l5cp_Revision current + 1), True)))"

section \<open>The checkpoint as a state machine\<close>

inductive advance_step :: "L5CoverageCheckpoint option \<Rightarrow> L5CoverageCheckpoint option \<Rightarrow> bool" where
  advance: "Advance st suiteID key n now = Inr (c, changed) \<Longrightarrow> advance_step st (Some c)"

definition checkpoint_inv :: "L5CoverageCheckpoint option \<Rightarrow> bool" where
  "checkpoint_inv st \<longleftrightarrow> (\<forall>c. st = Some c \<longrightarrow> ValidateCheckpoint c = None)"

definition checkpoint_le :: "L5CoverageCheckpoint option \<Rightarrow> L5CoverageCheckpoint option \<Rightarrow> bool" where
  "checkpoint_le st st' \<longleftrightarrow> (\<forall>c. st = Some c \<longrightarrow> (\<exists>c'. st' = Some c' \<and>
     l5cp_Key c' = l5cp_Key c \<and> l5cp_CryptoSuite c' = l5cp_CryptoSuite c \<and>
     l5cp_CoveredTreeSize c \<le> l5cp_CoveredTreeSize c' \<and> l5cp_Revision c \<le> l5cp_Revision c' \<and>
     (l5cp_Revision c' = l5cp_Revision c \<longrightarrow> c' = c)))"

lemma SameKey_iff: "SameKey l r \<longleftrightarrow> l = r"
  by (cases l, cases r) (simp add: SameKey_def)

lemma Advance_cases:
  assumes "Advance st sid key n now = Inr (c, changed)"
  obtains (first) "st = None" "changed" "l5cp_Revision c = 1" "l5cp_CoveredTreeSize c = n" "ValidateCheckpoint c = None"
  | (covered) "st = Some c" "\<not> changed" "n \<le> l5cp_CoveredTreeSize c" "ValidateCheckpoint c = None"
  | (advanced) b where "st = Some b" "changed" "l5cp_CoveredTreeSize b < n" "l5cp_CoveredTreeSize c = n"
      "l5cp_Revision b \<noteq> - 1" "l5cp_Revision c = l5cp_Revision b + 1" "l5cp_Key c = l5cp_Key b"
      "l5cp_CryptoSuite c = l5cp_CryptoSuite b" "ValidateCheckpoint c = None"
proof -
  have pre: "\<exists>s. Lookup sid = Some s" "ValidateKey key = None" "n \<noteq> 0" "0 \<le> now"
    using assms by (auto simp: Advance_def check_simps RequireAvailable_Inr)
  have ok: "ValidateCheckpoint \<lparr>l5cp_SchemaVersion = SchemaL5Coverage, l5cp_CryptoSuite = sid, l5cp_Key = key,
      l5cp_CoveredTreeSize = n, l5cp_Revision = r, l5cp_UpdatedAtUnixN = now\<rparr> = None" if "r \<noteq> 0" for r
    using pre that by (auto simp: ValidateCheckpoint_def check_simps RequireAvailable_Inr)
  show thesis
  proof (cases st)
    case None
    with assms ok [of 1] show thesis by (intro first) (auto simp: Advance_def check_simps)
  next
    case (Some b)
    then have b: "ValidateCheckpoint b = None" "l5cp_Key b = key" "l5cp_CryptoSuite b = sid"
      using assms by (auto simp: Advance_def check_simps SameKey_iff)
    show thesis
    proof (cases "n \<le> l5cp_CoveredTreeSize b")
      case True
      with Some assms b show thesis by (intro covered) (auto simp: Advance_def check_simps)
    next
      case False
      have rev: "l5cp_Revision b \<noteq> - 1"
        using False Some assms by (auto simp: Advance_def check_simps split: if_splits)
      with False Some assms b ok [OF inc_nonzero [OF rev]] show thesis
        by (intro advanced [of b]) (auto simp: Advance_def check_simps)
    qed
  qed
qed

lemma advance_step_inv: "advance_step st st' \<Longrightarrow> checkpoint_inv st'"
  by (erule advance_step.cases) (auto simp: checkpoint_inv_def elim: Advance_cases)

lemma advance_step_le:
  assumes "advance_step st st'"
  shows "checkpoint_le st st'"
  using assms
proof cases
  case (advance sid key n now c changed)
  from advance(2) show ?thesis
  proof (cases rule: Advance_cases)
    case (advanced b)
    then show ?thesis
      using advance(1) inc_greater [of "l5cp_Revision b" "l5cp_Revision b"] by (auto simp: checkpoint_le_def)
  qed (auto simp: checkpoint_le_def advance(1))
qed

interpretation coverage: monotone_system "\<lambda>st. st = None" advance_step checkpoint_inv checkpoint_le
proof
  show "checkpoint_inv st" if "st = None" for st :: "L5CoverageCheckpoint option"
    using that by (simp add: checkpoint_inv_def)
  show "checkpoint_inv st'" if "advance_step st st'" for st st' using that by (rule advance_step_inv)
  show "checkpoint_le st st" for st by (auto simp: checkpoint_le_def)
  show "checkpoint_le st u" if "checkpoint_le st t" "checkpoint_le t u" for st t u
  proof -
    have "\<exists>c''. u = Some c'' \<and> l5cp_Key c'' = l5cp_Key c \<and> l5cp_CryptoSuite c'' = l5cp_CryptoSuite c \<and>
        l5cp_CoveredTreeSize c \<le> l5cp_CoveredTreeSize c'' \<and> l5cp_Revision c \<le> l5cp_Revision c'' \<and>
        (l5cp_Revision c'' = l5cp_Revision c \<longrightarrow> c'' = c)" if stc: "st = Some c" for c
    proof -
      obtain b where b: "t = Some b" "l5cp_Key b = l5cp_Key c" "l5cp_CryptoSuite b = l5cp_CryptoSuite c"
          "l5cp_CoveredTreeSize c \<le> l5cp_CoveredTreeSize b" "l5cp_Revision c \<le> l5cp_Revision b"
          "l5cp_Revision b = l5cp_Revision c \<longrightarrow> b = c"
        using \<open>checkpoint_le st t\<close> stc unfolding checkpoint_le_def by blast
      obtain d where d: "u = Some d" "l5cp_Key d = l5cp_Key b" "l5cp_CryptoSuite d = l5cp_CryptoSuite b"
          "l5cp_CoveredTreeSize b \<le> l5cp_CoveredTreeSize d" "l5cp_Revision b \<le> l5cp_Revision d"
          "l5cp_Revision d = l5cp_Revision b \<longrightarrow> d = b"
        using \<open>checkpoint_le t u\<close> b(1) unfolding checkpoint_le_def by blast
      have "d = c" if "l5cp_Revision d = l5cp_Revision c"
        using that b(5,6) d(5,6) by (metis order_antisym)
      with b d show ?thesis by (auto intro: order_trans)
    qed
    then show ?thesis by (simp add: checkpoint_le_def)
  qed
  show "checkpoint_le st st'" if "advance_step st st'" for st st' using that by (rule advance_step_le)
qed

text \<open>C20. Coverage never regresses: from an empty store every sequence of \<open>Advance\<close> calls keeps
the checkpoint valid, keeps its stream and suite, and never decreases the covered tree size or the
revision; equal revisions mean the same checkpoint.\<close>

theorem l5_coverage_monotone:
  assumes "run advance_step None (Some c)" "run advance_step (Some c) (Some c')"
  shows "ValidateCheckpoint c' = None \<and> l5cp_Key c' = l5cp_Key c \<and> l5cp_CryptoSuite c' = l5cp_CryptoSuite c \<and>
    l5cp_CoveredTreeSize c \<le> l5cp_CoveredTreeSize c' \<and> l5cp_Revision c \<le> l5cp_Revision c' \<and>
    (l5cp_Revision c' = l5cp_Revision c \<longrightarrow> c' = c)"
proof -
  have inv: "checkpoint_inv (Some c)" using coverage.reachable_inv [OF refl assms(1)] .
  have "checkpoint_inv (Some c')" using coverage.run_inv [OF assms(2) inv] .
  moreover have "checkpoint_le (Some c) (Some c')" using coverage.run_le [OF assms(2) inv] .
  ultimately show ?thesis by (simp add: checkpoint_inv_def checkpoint_le_def)
qed

definition sample_checkpoint :: "uint64 \<Rightarrow> uint64 \<Rightarrow> L5CoverageCheckpoint" where
  "sample_checkpoint n r = \<lparr>l5cp_SchemaVersion = SchemaL5Coverage, l5cp_CryptoSuite = INTLV1,
     l5cp_Key = \<lparr>skey_NodeID = ''n'', skey_LogID = ''l'', skey_SinkName = ''ots''\<rparr>,
     l5cp_CoveredTreeSize = n, l5cp_Revision = r, l5cp_UpdatedAtUnixN = 7\<rparr>"

lemma sample_advance:
  "advance_step None (Some (sample_checkpoint 4 1))"
  "advance_step (Some (sample_checkpoint 4 1)) (Some (sample_checkpoint 9 2))"
proof -
  let ?k = "\<lparr>skey_NodeID = ''n'', skey_LogID = ''l'', skey_SinkName = ''ots''\<rparr>"
  have "Advance None INTLV1 ?k 4 7 = Inr (sample_checkpoint 4 1, True)"
    by (simp add: Advance_def sample_checkpoint_def ValidateKey_def)
  then show "advance_step None (Some (sample_checkpoint 4 1))" by (rule advance)
  have "ValidateCheckpoint (sample_checkpoint 4 1) = None"
    by (simp add: ValidateCheckpoint_def sample_checkpoint_def ValidateKey_def)
  moreover have "\<not> (9 :: uint64) \<le> 4" by (simp add: word_le_nat_alt)
  ultimately have "Advance (Some (sample_checkpoint 4 1)) INTLV1 ?k 9 7 = Inr (sample_checkpoint 9 2, True)"
    by (simp add: Advance_def ValidateKey_def SameKey_iff) (simp add: sample_checkpoint_def)
  then show "advance_step (Some (sample_checkpoint 4 1)) (Some (sample_checkpoint 9 2))" by (rule advance)
qed

theorem l5_coverage_monotone_witness:
  "l5cp_CoveredTreeSize (sample_checkpoint 4 1) \<le> l5cp_CoveredTreeSize (sample_checkpoint 9 2)"
  using l5_coverage_monotone [of "sample_checkpoint 4 1" "sample_checkpoint 9 2"] sample_advance by blast

end
