(* ===== verification/Comparators.thy ===== *)
theory Comparators
  imports Trust_Prelude
begin

text \<open>
  The contract of a three-way comparison and what cursor pagination needs of it. \<open>page\<close> takes
  the first \<open>limit\<close> items after a cursor; \<open>walk\<close> follows pages, each starting after the
  last item of the one before, for at most the given number of pages. The comparisons of
  \<open>internal/model\<close> and \<open>internal/anchorschedule\<close> interpret the locale.
\<close>

definition page :: "('a \<Rightarrow> 'a \<Rightarrow> bool) \<Rightarrow> nat \<Rightarrow> 'a option \<Rightarrow> 'a list \<Rightarrow> 'a list" where
  "page after limit cursor xs =
     take limit (filter (\<lambda>x. case cursor of None \<Rightarrow> True | Some c \<Rightarrow> after x c) xs)"

fun walk :: "('a \<Rightarrow> 'a \<Rightarrow> bool) \<Rightarrow> nat \<Rightarrow> nat \<Rightarrow> 'a option \<Rightarrow> 'a list \<Rightarrow> 'a list" where
  "walk after limit 0 cursor xs = []"
| "walk after limit (Suc n) cursor xs =
     (let p = page after limit cursor xs
      in if p = [] then [] else p @ walk after limit n (Some (last p)) xs)"

locale comparator =
  fixes cmp :: "'a \<Rightarrow> 'a \<Rightarrow> int"
  assumes cmp_eq: "cmp x y = 0 \<longleftrightarrow> x = y"
    and cmp_sym: "cmp x y < 0 \<longleftrightarrow> 0 < cmp y x"
    and cmp_trans: "cmp x y < 0 \<Longrightarrow> cmp y z < 0 \<Longrightarrow> cmp x z < 0"
begin

lemma cmp_refl: "cmp x x = 0"
  by (simp add: cmp_eq)

lemma cmp_total: "cmp x y < 0 \<or> x = y \<or> cmp y x < 0"
  using cmp_eq [of x y] cmp_sym [of y x] by linarith

lemma cmp_asym: "cmp x y < 0 \<Longrightarrow> \<not> cmp y x < 0"
  using cmp_sym [of x y] by linarith

lemma cmp_flip: "comparator (\<lambda>x y. cmp y x)"
proof
  show "cmp y x = 0 \<longleftrightarrow> x = y" for x y using cmp_eq [of y x] by auto
  show "cmp y x < 0 \<longleftrightarrow> 0 < cmp x y" for x y by (rule cmp_sym)
  show "cmp z x < 0" if "cmp y x < 0" "cmp z y < 0" for x y z using that cmp_trans by blast
qed

text \<open>In a strictly increasing list, the items after the last one of a prefix are the rest.\<close>

lemma filter_after:
  assumes "sorted_wrt (\<lambda>x y. cmp x y < 0) (ys @ zs)" "ys \<noteq> []"
  shows "filter (\<lambda>x. 0 < cmp x (last ys)) (ys @ zs) = zs"
proof -
  have "\<not> 0 < cmp y (last ys)" if "y \<in> set ys" for y
  proof -
    have "sorted_wrt (\<lambda>x y. cmp x y < 0) (butlast ys @ [last ys])"
      using assms by (simp add: sorted_wrt_append)
    then have "y = last ys \<or> cmp y (last ys) < 0"
      using that assms(2) by (metis append_butlast_last_id in_set_conv_decomp_first sorted_wrt_append
          Un_iff set_append list.set_intros(1) empty_iff list.set(1) set_ConsD)
    then show ?thesis using cmp_refl by auto
  qed
  moreover have "0 < cmp z (last ys)" if "z \<in> set zs" for z
    using assms that cmp_sym [of "last ys" z] by (simp add: sorted_wrt_append)
  ultimately show ?thesis by (simp add: filter_empty_conv filter_id_conv)
qed

lemma walk_rest:
  assumes "0 < limit" "sorted_wrt (\<lambda>x y. cmp x y < 0) (ys @ zs)"
    "cursor = (if ys = [] then None else Some (last ys))" "length zs \<le> n"
  shows "walk (\<lambda>x c. 0 < cmp x c) limit n cursor (ys @ zs) = zs"
  using assms
proof (induction n arbitrary: ys zs cursor)
  case 0
  then show ?case by simp
next
  case (Suc n)
  have f: "filter (\<lambda>x. case cursor of None \<Rightarrow> True | Some c \<Rightarrow> 0 < cmp x c) (ys @ zs) = zs"
    using filter_after [OF Suc.prems(2)] Suc.prems(3) by (cases "ys = []") auto
  define p where "p = take limit zs"
  have p: "page (\<lambda>x c. 0 < cmp x c) limit cursor (ys @ zs) = p"
    by (simp add: page_def f p_def del: filter_append)
  show ?case
  proof (cases "zs = []")
    case True
    then show ?thesis using p by (simp add: p_def)
  next
    case False
    then have ne: "p \<noteq> []" using Suc.prems(1) by (simp add: p_def)
    define q where "q = drop limit zs"
    have zs: "zs = p @ q" by (simp add: p_def q_def)
    have "walk (\<lambda>x c. 0 < cmp x c) limit n (Some (last p)) ((ys @ p) @ q) = q"
    proof (rule Suc.IH)
      show "sorted_wrt (\<lambda>x y. cmp x y < 0) ((ys @ p) @ q)" using Suc.prems(2) zs by simp
      show "Some (last p) = (if ys @ p = [] then None else Some (last (ys @ p)))" using ne by simp
      show "length q \<le> n" using Suc.prems(4) ne zs by (cases p) auto
    qed (rule Suc.prems(1))
    then show ?thesis using p ne zs by simp
  qed
qed

text \<open>Following pages from the start visits every item exactly once and in order.\<close>

lemma walk_complete:
  assumes "0 < limit" "sorted_wrt (\<lambda>x y. cmp x y < 0) xs" "length xs \<le> n"
  shows "walk (\<lambda>x c. 0 < cmp x c) limit n None xs = xs"
  using walk_rest [of limit "[]" xs None n] assms by simp

end

lemma sorted_wrt_flip: "sorted_wrt P (rev xs) \<longleftrightarrow> sorted_wrt (\<lambda>x y. P y x) xs"
  by (rule sorted_wrt_rev)

context comparator
begin

text \<open>The same from the far end, with the cursor test reversed.\<close>

lemma walk_complete_desc:
  assumes "0 < limit" "sorted_wrt (\<lambda>x y. cmp y x < 0) xs" "length xs \<le> n"
  shows "walk (\<lambda>x c. cmp x c < 0) limit n None xs = xs"
proof -
  have "walk (\<lambda>x c. 0 < cmp c x) limit n None xs = xs"
    using comparator.walk_complete [OF cmp_flip assms] .
  moreover have "(\<lambda>x c. 0 < cmp c x) = (\<lambda>x c. cmp x c < 0)"
    using cmp_sym by (auto simp: fun_eq_iff)
  ultimately show ?thesis by simp
qed

end

end
