(* ===== verification/Encodings.thy ===== *)
theory Encodings
  imports Trust_Prelude
begin

text \<open>
  The encodings of Go's standard library the sources use, and that they lose nothing:
  \<open>utf8.ValidString\<close>, \<open>base64.RawURLEncoding\<close>, \<open>base32.StdEncoding\<close> without
  padding and in lower case, \<open>hex.EncodeToString\<close>, \<open>binary.BigEndian.PutUint64\<close> and the
  length-prefixed framing built from it.
\<close>

section \<open>UTF-8\<close>

abbreviation utf8_cont :: "nat \<Rightarrow> bool" where
  "utf8_cont b \<equiv> 0x80 \<le> b \<and> b \<le> 0xBF"

text \<open>The ranges of the second byte exclude overlong forms, surrogates and values above U+10FFFF.\<close>

fun valid_utf8 :: "nat list \<Rightarrow> bool" where
  "valid_utf8 [] = True"
| "valid_utf8 (a # r) =
     (if a < 0x80 then valid_utf8 r
      else if 0xC2 \<le> a \<and> a \<le> 0xDF
      then (case r of b # r' \<Rightarrow> utf8_cont b \<and> valid_utf8 r' | _ \<Rightarrow> False)
      else if 0xE0 \<le> a \<and> a \<le> 0xEF
      then (case r of
              b # c # r' \<Rightarrow>
                (if a = 0xE0 then 0xA0 else 0x80) \<le> b \<and> b \<le> (if a = 0xED then 0x9F else 0xBF) \<and>
                utf8_cont c \<and> valid_utf8 r'
            | _ \<Rightarrow> False)
      else if 0xF0 \<le> a \<and> a \<le> 0xF4
      then (case r of
              b # c # d # r' \<Rightarrow>
                (if a = 0xF0 then 0x90 else 0x80) \<le> b \<and> b \<le> (if a = 0xF4 then 0x8F else 0xBF) \<and>
                utf8_cont c \<and> utf8_cont d \<and> valid_utf8 r'
            | _ \<Rightarrow> False)
      else False)"

definition ValidString :: "string \<Rightarrow> bool" where
  "ValidString s = valid_utf8 (map of_char s)"

lemma ValidString_ascii: "\<forall>c \<in> set s. of_char c < (0x80 :: nat) \<Longrightarrow> ValidString s"
  unfolding ValidString_def by (induction s) auto

section \<open>Base64\<close>

text \<open>\<open>base64.RawURLEncoding\<close>: three bytes give four characters, a rest of one or two bytes gives
two or three, without padding.\<close>

definition b64_alphabet :: string where
  "b64_alphabet = ''ABCDEFGHIJKLMNOPQRSTUVWXYZabcdefghijklmnopqrstuvwxyz0123456789-_''"

fun b64_groups :: "nat list \<Rightarrow> nat list" where
  "b64_groups [] = []"
| "b64_groups [a] = [a div 4, a mod 4 * 16]"
| "b64_groups [a, b] = [a div 4, a mod 4 * 16 + b div 16, b mod 16 * 4]"
| "b64_groups (a # b # c # r) =
     a div 4 # (a mod 4 * 16 + b div 16) # (b mod 16 * 4 + c div 64) # c mod 64 # b64_groups r"

definition RawURLEncoding_EncodeToString :: "string \<Rightarrow> string" where
  "RawURLEncoding_EncodeToString s = map (\<lambda>i. b64_alphabet ! i) (b64_groups (map of_char s))"

lemma b64_alphabet_distinct: "distinct b64_alphabet" "length b64_alphabet = 64" "CHR ''/'' \<notin> set b64_alphabet"
  by (simp_all add: b64_alphabet_def)

lemma b64_groups_bound: "\<forall>n \<in> set ns. n < 256 \<Longrightarrow> \<forall>g \<in> set (b64_groups ns). g < 64"
  by (induction ns rule: b64_groups.induct) (auto simp: less_mult_imp_div_less)

lemma div_mod_eq: "(a::nat) div m = c div m \<Longrightarrow> a mod m = c mod m \<Longrightarrow> a = c"
  by (metis div_mult_mod_eq)

lemma digit_eq:
  assumes "(x::nat) * m + y = u * m + v" "y < m" "v < m"
  shows "x = u \<and> y = v"
proof -
  have "(x * m + y) div m = x" "(x * m + y) mod m = y" "(u * m + v) div m = u" "(u * m + v) mod m = v"
    using assms(2,3) by auto
  with assms(1) show ?thesis by metis
qed

lemma b64_groups_inj:
  "\<forall>n \<in> set ms. n < 256 \<Longrightarrow> \<forall>n \<in> set ns. n < 256 \<Longrightarrow> b64_groups ms = b64_groups ns \<Longrightarrow> ms = ns"
proof (induction ms arbitrary: ns rule: b64_groups.induct)
  case 1
  then show ?case by (cases ns rule: b64_groups.cases) auto
next
  case (2 a)
  then obtain c where ns: "ns = [c]" by (cases ns rule: b64_groups.cases) auto
  have "a div 4 = c div 4" "a mod 4 = c mod 4" using "2.prems"(3) ns by auto
  then show ?case using ns div_mod_eq by blast
next
  case (3 a b)
  then obtain c d where ns: "ns = [c, d]" by (cases ns rule: b64_groups.cases) auto
  have e: "a div 4 = c div 4" "a mod 4 * 16 + b div 16 = c mod 4 * 16 + d div 16" "b mod 16 = d mod 16"
    using "3.prems"(3) ns by auto
  have "b div 16 < 16" "d div 16 < 16" using "3.prems"(1,2) ns by auto
  then have "a mod 4 = c mod 4 \<and> b div 16 = d div 16" using e(2) digit_eq by blast
  then show ?case using ns e(1,3) div_mod_eq [of a 4 c] div_mod_eq [of b 16 d] by simp
next
  case (4 a b c r)
  then obtain x y z t where ns: "ns = x # y # z # t" by (cases ns rule: b64_groups.cases) auto
  have e: "a div 4 = x div 4" "a mod 4 * 16 + b div 16 = x mod 4 * 16 + y div 16"
      "b mod 16 * 4 + c div 64 = y mod 16 * 4 + z div 64" "c mod 64 = z mod 64" "b64_groups r = b64_groups t"
    using "4.prems"(3) ns by auto
  have "b div 16 < 16" "y div 16 < 16" "c div 64 < 4" "z div 64 < 4" using "4.prems"(1,2) ns by auto
  then have "a mod 4 = x mod 4 \<and> b div 16 = y div 16" "b mod 16 = y mod 16 \<and> c div 64 = z div 64"
    using e(2,3) digit_eq by blast+
  moreover have "r = t" using "4.IH" [of t] "4.prems"(1,2) e(5) ns by auto
  ultimately show ?case
    using ns e(1,4) div_mod_eq [of a 4 x] div_mod_eq [of b 16 y] div_mod_eq [of c 64 z] by simp
qed

lemma of_char_bound: "\<forall>n \<in> set (map of_char (s :: string)). (n :: nat) < 256"
  by (auto simp: nat_of_char_less_256)

lemma map_nth_inj:
  assumes "distinct al" "\<forall>i \<in> set is. i < length al" "\<forall>i \<in> set js. i < length al"
    and "map (\<lambda>i. al ! i) is = map (\<lambda>i. al ! i) js"
  shows "is = js"
  using assms(4) by (rule map_inj_on) (intro inj_on_nth assms(1) ballI, use assms(2,3) in blast)

lemma RawURLEncoding_inj:
  assumes "RawURLEncoding_EncodeToString s = RawURLEncoding_EncodeToString t"
  shows "s = t"
proof -
  have "b64_groups (map of_char s) = b64_groups (map of_char t)"
    using assms b64_groups_bound [OF of_char_bound] b64_alphabet_distinct
    unfolding RawURLEncoding_EncodeToString_def by (intro map_nth_inj [of b64_alphabet]) auto
  then have "map of_char s = (map of_char t :: nat list)"
    by (rule b64_groups_inj [OF of_char_bound of_char_bound])
  then show ?thesis by (metis inj_map_eq_map inj_of_char)
qed

lemma RawURLEncoding_no_slash: "CHR ''/'' \<notin> set (RawURLEncoding_EncodeToString s)"
proof -
  have "set (RawURLEncoding_EncodeToString s) \<subseteq> set b64_alphabet"
    using b64_groups_bound [OF of_char_bound, of s] b64_alphabet_distinct(2)
    by (auto simp: RawURLEncoding_EncodeToString_def)
  then show ?thesis using b64_alphabet_distinct(3) by blast
qed

section \<open>Base32\<close>

definition byte_bits :: "byte \<Rightarrow> bool list" where
  "byte_bits w = map (bit w) [7, 6, 5, 4, 3, 2, 1, 0]"

fun bits_val :: "bool list \<Rightarrow> nat" where
  "bits_val [] = 0"
| "bits_val (b # bs) = (if b then 2 ^ length bs else 0) + bits_val bs"

text \<open>Five bits give one character; the last group is filled with zero bits.\<close>

fun b32_groups :: "bool list \<Rightarrow> nat list" where
  "b32_groups [] = []"
| "b32_groups (a # b # c # d # e # r) = bits_val [a, b, c, d, e] # b32_groups r"
| "b32_groups bs = [bits_val (take 5 (bs @ replicate 4 False))]"

definition b32_StdEncoding :: string where
  "b32_StdEncoding = ''ABCDEFGHIJKLMNOPQRSTUVWXYZ234567''"

text \<open>\<open>strings.ToLower\<close> on ASCII.\<close>

definition lower_char :: "char \<Rightarrow> char" where
  "lower_char c = (if CHR ''A'' \<le> c \<and> c \<le> CHR ''Z'' then char_of ((of_char c :: nat) + 32) else c)"

definition b32_EncodeToString :: "bytes \<Rightarrow> string" where
  "b32_EncodeToString b = map (\<lambda>i. b32_StdEncoding ! i) (b32_groups (concat (map byte_bits b)))"

definition b32_lower :: "bytes \<Rightarrow> string" where
  "b32_lower b = map lower_char (b32_EncodeToString b)"

section \<open>Hexadecimal\<close>

definition hex_digits :: string where
  "hex_digits = ''0123456789abcdef''"

definition hex_EncodeToString :: "bytes \<Rightarrow> string" where
  "hex_EncodeToString b = concat (map (\<lambda>w. [hex_digits ! (unat w div 16), hex_digits ! (unat w mod 16)]) b)"

section \<open>Big-endian integers and length-prefixed strings\<close>

definition PutUint64 :: "uint64 \<Rightarrow> bytes" where
  "PutUint64 v = map (\<lambda>i. ucast (drop_bit (8 * i) v)) [7, 6, 5, 4, 3, 2, 1, 0]"

definition length_prefixed :: "bytes \<Rightarrow> bytes" where
  "length_prefixed b = PutUint64 (word_of_nat (length b)) @ b"

section \<open>Nothing is lost\<close>

lemma byte_bits_inj: "byte_bits v = byte_bits w \<Longrightarrow> v = w"
proof (rule bit_eqI)
  fix n
  assume e: "byte_bits v = byte_bits w" and n: "possible_bit TYPE(byte) n"
  from n have "n < 8" by (simp add: possible_bit_word)
  then consider "n = 0" | "n = 1" | "n = 2" | "n = 3" | "n = 4" | "n = 5" | "n = 6" | "n = 7" by linarith
  then show "bit v n = bit w n" using e by cases (auto simp: byte_bits_def)
qed

lemma length_byte_bits [simp]: "length (byte_bits w) = 8"
  by (simp add: byte_bits_def)

lemma concat_byte_bits_inj: "concat (map byte_bits b) = concat (map byte_bits c) \<Longrightarrow> b = c"
proof (induction b arbitrary: c)
  case Nil
  then show ?case by (cases c) (auto simp: byte_bits_def)
next
  case (Cons w b)
  then obtain v c' where c: "c = v # c'" by (cases c) (auto simp: byte_bits_def)
  then have "byte_bits w = byte_bits v \<and> concat (map byte_bits b) = concat (map byte_bits c')"
    using Cons.prems by (simp add: append_eq_append_conv)
  then show ?case using Cons.IH byte_bits_inj c by simp
qed

lemma bits_val_less: "bits_val bs < 2 ^ length bs"
  by (induction bs) auto

lemma bits_val_inj: "length bs = length cs \<Longrightarrow> bits_val bs = bits_val cs \<Longrightarrow> bs = cs"
proof (induction bs arbitrary: cs)
  case Nil
  then show ?case by simp
next
  case (Cons b bs)
  then obtain c cs' where cs: "cs = c # cs'" "length cs' = length bs" by (cases cs) auto
  have l: "bits_val bs < 2 ^ length bs" "bits_val cs' < 2 ^ length bs"
    using bits_val_less [of bs] bits_val_less [of cs'] cs by simp_all
  have "b = c" using Cons.prems(2) l cs by (cases b; cases c) auto
  then show ?case using Cons cs by (cases c) auto
qed

lemma b32_groups_short:
  "bs \<noteq> [] \<Longrightarrow> length bs < 5 \<Longrightarrow> b32_groups bs = [bits_val (take 5 (bs @ replicate 4 False))]"
  by (cases bs rule: b32_groups.cases) (simp_all del: bits_val.simps)

lemma b32_groups_inj:
  "length bs = length cs \<Longrightarrow> b32_groups bs = b32_groups cs \<Longrightarrow> bs = cs"
proof (induction bs arbitrary: cs rule: length_induct)
  case (1 bs)
  consider "bs = []" | "bs \<noteq> []" "length bs < 5" | a b c d e r where "bs = a # b # c # d # e # r"
    by (cases bs rule: b32_groups.cases) simp_all
  then show ?case
  proof cases
    case 1
    then show ?thesis using "1.prems" by simp
  next
    case 2
    then have "cs \<noteq> []" "length cs < 5" using "1.prems"(1) by auto
    then have "bits_val (take 5 (bs @ replicate 4 False)) = bits_val (take 5 (cs @ replicate 4 False))"
      using 2 "1.prems"(2) by (simp add: b32_groups_short)
    then have "take 5 (bs @ replicate 4 False) = take 5 (cs @ replicate 4 False)"
      using "1.prems"(1) by (intro bits_val_inj) auto
    then have "take (length bs) (take 5 (bs @ replicate 4 False)) = take (length bs) (take 5 (cs @ replicate 4 False))"
      by simp
    then show ?thesis using 2 "1.prems"(1) by (simp add: min_def)
  next
    case 3
    then obtain a' b' c' d' e' r' where cs: "cs = a' # b' # c' # d' # e' # r'"
      using "1.prems"(1) by (cases cs rule: b32_groups.cases) auto
    have "bits_val [a, b, c, d, e] = bits_val [a', b', c', d', e']" "b32_groups r = b32_groups r'"
      using "1.prems"(2) cs 3 by (simp_all del: bits_val.simps)
    then show ?thesis
      using bits_val_inj [of "[a, b, c, d, e]" "[a', b', c', d', e']"] "1.IH" "1.prems"(1) cs 3
      by (simp del: bits_val.simps)
  qed
qed

lemma b32_groups_bound: "\<forall>g \<in> set (b32_groups bs). g < 32"
proof (induction bs rule: length_induct)
  case (1 bs)
  consider "bs = []" | "bs \<noteq> []" "length bs < 5" | a b c d e r where "bs = a # b # c # d # e # r"
    by (cases bs rule: b32_groups.cases) simp_all
  then show ?case
  proof cases
    case 2
    then have "length (take 5 (bs @ replicate 4 False)) = 5" by (cases bs) auto
    with bits_val_less [of "take 5 (bs @ replicate 4 False)"]
    have "bits_val (take 5 (bs @ replicate 4 False)) < 2 ^ 5" by (simp only:)
    then show ?thesis using 2 by (simp add: b32_groups_short)
  next
    case 3
    then have "\<forall>g \<in> set (b32_groups r). g < 32" using "1.IH" [rule_format, of r] by simp
    then show ?thesis
      using 3 bits_val_less [of "[a, b, c, d, e]"] by (simp del: bits_val.simps)
  qed simp
qed

lemma b32_lower_alphabet: "distinct (map lower_char b32_StdEncoding)" "length (map lower_char b32_StdEncoding) = 32"
  by code_simp+

lemma b32_lower_map: "b32_lower b = map (\<lambda>i. map lower_char b32_StdEncoding ! i) (b32_groups (concat (map byte_bits b)))"
  using b32_groups_bound [of "concat (map byte_bits b)"] b32_lower_alphabet(2)
  by (auto simp: b32_lower_def b32_EncodeToString_def)

lemma length_concat_byte_bits: "length (concat (map byte_bits b)) = 8 * length b"
  by (induction b) auto

lemma b32_lower_inj:
  assumes "b32_lower b = b32_lower c" "length b = length c"
  shows "b = c"
proof -
  have "b32_groups (concat (map byte_bits b)) = b32_groups (concat (map byte_bits c))"
    by (rule map_nth_inj [OF b32_lower_alphabet(1)])
      (use b32_groups_bound assms(1) in \<open>auto simp: b32_lower_map b32_lower_alphabet(2) simp del: length_map\<close>)
  then have "concat (map byte_bits b) = concat (map byte_bits c)"
    using assms(2) by (intro b32_groups_inj) (simp_all add: length_concat_byte_bits)
  then show ?thesis by (rule concat_byte_bits_inj)
qed

lemma hex_digits_distinct: "distinct hex_digits" "length hex_digits = 16"
  by (simp_all add: hex_digits_def)

lemma hex_EncodeToString_inj: "hex_EncodeToString b = hex_EncodeToString c \<Longrightarrow> b = c"
proof (induction b arbitrary: c)
  case Nil
  then show ?case by (cases c) (auto simp: hex_EncodeToString_def)
next
  case (Cons w b)
  then obtain v c' where c: "c = v # c'" by (cases c) (auto simp: hex_EncodeToString_def)
  have "unat w < 256" "unat v < 256" using unsigned_less [of w] unsigned_less [of v] by simp_all
  then have b: "unat w div 16 < 16" "unat v div 16 < 16" "unat w mod 16 < 16" "unat v mod 16 < 16" by simp_all
  have "hex_digits ! (unat w div 16) = hex_digits ! (unat v div 16)"
      "hex_digits ! (unat w mod 16) = hex_digits ! (unat v mod 16)" "hex_EncodeToString b = hex_EncodeToString c'"
    using Cons.prems c by (simp_all add: hex_EncodeToString_def)
  then have "unat w div 16 = unat v div 16" "unat w mod 16 = unat v mod 16" "b = c'"
    using b hex_digits_distinct Cons.IH by (simp_all add: nth_eq_iff_index_eq)
  then show ?case using c div_mod_eq [of "unat w" 16 "unat v"] by (simp add: word_unat_eq_iff)
qed

lemma length_PutUint64 [simp]: "length (PutUint64 v) = 8"
  by (simp add: PutUint64_def)

lemma PutUint64_inj: "PutUint64 v = PutUint64 w \<Longrightarrow> v = w"
proof (rule bit_eqI)
  fix n
  assume e: "PutUint64 v = PutUint64 w" and n: "possible_bit TYPE(uint64) n"
  from n have "n < 64" by (simp add: possible_bit_word)
  define i where "i = n div 8"
  have i: "i < 8" "n mod 8 < 8" "n = 8 * i + n mod 8" using \<open>n < 64\<close> by (auto simp: i_def)
  have "(ucast (drop_bit (8 * i) v) :: byte) = ucast (drop_bit (8 * i) w)"
  proof -
    have "i \<in> set [7, 6, 5, 4, 3, 2, 1, 0]" using i(1) by simp arith
    then show ?thesis using e unfolding PutUint64_def map_eq_conv by blast
  qed
  then have "bit (ucast (drop_bit (8 * i) v) :: byte) (n mod 8) = bit (ucast (drop_bit (8 * i) w) :: byte) (n mod 8)"
    by simp
  then have "bit v (8 * i + n mod 8) = bit w (8 * i + n mod 8)"
    using i by (simp add: bit_simps)
  then show "bit v n = bit w n" using i(3) by simp
qed

text \<open>Length prefixes make concatenation injective for strings shorter than \<open>2 ^ 64\<close> bytes.\<close>

lemma length_prefixed_inj:
  assumes "length_prefixed b @ x = length_prefixed c @ y" "length b < 2 ^ 64" "length c < 2 ^ 64"
  shows "b = c \<and> x = y"
proof -
  have e: "PutUint64 (word_of_nat (length b)) @ b @ x = PutUint64 (word_of_nat (length c)) @ c @ y"
    using assms(1) by (simp add: length_prefixed_def)
  then have "PutUint64 (word_of_nat (length b)) = PutUint64 (word_of_nat (length c))" "b @ x = c @ y"
    by (simp_all add: append_eq_append_conv)
  then have "(word_of_nat (length b) :: uint64) = word_of_nat (length c)" "b @ x = c @ y"
    using PutUint64_inj by blast+
  moreover from this(1) have "unat (word_of_nat (length b) :: uint64) = unat (word_of_nat (length c) :: uint64)" by simp
  then have "length b = length c" using assms(2,3) by (simp add: unat_of_nat)
  ultimately show ?thesis by (simp add: append_eq_append_conv)
qed

end
