(* ===== verification/Proof_Level.thy ===== *)
theory Proof_Level
  imports Go_Errors
begin

text \<open>
  \<open>internal/prooflevel\<close>: the L1 to L5 ladder. \<open>Evaluate\<close> returns the strongest level
  the evidence reaches, \<open>EvidenceFor\<close> the evidence a level stands for. A level is a string,
  as in the source, with \<open>Unknown\<close> the empty one.
\<close>

type_synonym Level = string

abbreviation Unknown :: Level where "Unknown \<equiv> ''''"
abbreviation L1 :: Level where "L1 \<equiv> ''L1''"
abbreviation L2 :: Level where "L2 \<equiv> ''L2''"
abbreviation L3 :: Level where "L3 \<equiv> ''L3''"
abbreviation L4 :: Level where "L4 \<equiv> ''L4''"
abbreviation L5 :: Level where "L5 \<equiv> ''L5''"

record Evidence =
  ev_ContentHash :: bool
  ev_ClientSignature :: bool
  ev_AcceptedReceipt :: bool
  ev_CommittedReceipt :: bool
  ev_BatchProof :: bool
  ev_GlobalLogProof :: bool
  ev_STHAnchorResult :: bool

definition Evaluate :: "Evidence \<Rightarrow> Level" where
  "Evaluate e =
     (if \<not> (ev_ContentHash e \<and> ev_ClientSignature e) then Unknown
      else if \<not> ev_AcceptedReceipt e then L1
      else if \<not> (ev_CommittedReceipt e \<and> ev_BatchProof e) then L2
      else if \<not> ev_GlobalLogProof e then L3
      else if \<not> ev_STHAnchorResult e then L4
      else L5)"

definition Rank :: "Level \<Rightarrow> int" where
  "Rank level =
     (if level = L1 then 1 else if level = L2 then 2 else if level = L3 then 3
      else if level = L4 then 4 else if level = L5 then 5 else 0)"

definition AtLeast :: "Level \<Rightarrow> Level \<Rightarrow> bool" where
  "AtLeast level target \<longleftrightarrow> Rank level \<ge> Rank target \<and> Rank target > 0"

definition EvidenceFor :: "Level \<Rightarrow> Evidence" where
  "EvidenceFor level =
     (let e0 = \<lparr>ev_ContentHash = False, ev_ClientSignature = False, ev_AcceptedReceipt = False,
                ev_CommittedReceipt = False, ev_BatchProof = False, ev_GlobalLogProof = False,
                ev_STHAnchorResult = False\<rparr>;
          e1 = (if AtLeast level L1 then e0\<lparr>ev_ContentHash := True, ev_ClientSignature := True\<rparr> else e0);
          e2 = (if AtLeast level L2 then e1\<lparr>ev_AcceptedReceipt := True\<rparr> else e1);
          e3 = (if AtLeast level L3 then e2\<lparr>ev_CommittedReceipt := True, ev_BatchProof := True\<rparr> else e2);
          e4 = (if AtLeast level L4 then e3\<lparr>ev_GlobalLogProof := True\<rparr> else e3);
          e5 = (if AtLeast level L5 then e4\<lparr>ev_STHAnchorResult := True\<rparr> else e4)
      in e5)"

text \<open>
  \<open>strings.ToUpper\<close> on bytes: ASCII letters are raised, other bytes kept. The only code point
  that \<open>ToUpper\<close> maps to \<open>L\<close> is \<open>l\<close> and none but itself maps to a digit, so for the
  comparisons of \<open>Parse\<close> this is the whole of it.
\<close>

definition upper_char :: "char \<Rightarrow> char" where
  "upper_char c = (let n = of_char c in if 97 \<le> n \<and> n \<le> (122 :: nat) then char_of (n - 32) else c)"

definition ToUpper :: "string \<Rightarrow> string" where
  "ToUpper s = map upper_char s"

definition Parse_level :: "string \<Rightarrow> Level \<times> bool" where
  "Parse_level raw =
     (let level = ToUpper (TrimSpace raw)
      in if level = L1 \<or> level = L2 \<or> level = L3 \<or> level = L4 \<or> level = L5 then (level, True)
         else (Unknown, False))"

section \<open>The ladder\<close>

definition levels :: "Level list" where
  "levels = [L1, L2, L3, L4, L5]"

lemma Rank_pos: "0 < Rank l \<longleftrightarrow> l \<in> set levels"
  by (simp add: Rank_def levels_def)

lemma Rank_range: "0 \<le> Rank l \<and> Rank l \<le> 5"
  by (simp add: Rank_def)

lemma Rank_inj: "Rank l = Rank m \<Longrightarrow> 0 < Rank l \<Longrightarrow> l = m"
  by (auto simp: Rank_def split: if_splits)

text \<open>Evidence ordered by inclusion of its fields.\<close>

definition evidence_le :: "Evidence \<Rightarrow> Evidence \<Rightarrow> bool" where
  "evidence_le a b \<longleftrightarrow>
     (ev_ContentHash a \<longrightarrow> ev_ContentHash b) \<and> (ev_ClientSignature a \<longrightarrow> ev_ClientSignature b) \<and>
     (ev_AcceptedReceipt a \<longrightarrow> ev_AcceptedReceipt b) \<and> (ev_CommittedReceipt a \<longrightarrow> ev_CommittedReceipt b) \<and>
     (ev_BatchProof a \<longrightarrow> ev_BatchProof b) \<and> (ev_GlobalLogProof a \<longrightarrow> ev_GlobalLogProof b) \<and>
     (ev_STHAnchorResult a \<longrightarrow> ev_STHAnchorResult b)"

lemma Rank_simps [simp]:
  "Rank L1 = 1" "Rank L2 = 2" "Rank L3 = 3" "Rank L4 = 4" "Rank L5 = 5" "Rank Unknown = 0"
  by (simp_all add: Rank_def)

lemma EvidenceFor_fields:
  "ev_ContentHash (EvidenceFor l) = (1 \<le> Rank l)" "ev_ClientSignature (EvidenceFor l) = (1 \<le> Rank l)"
  "ev_AcceptedReceipt (EvidenceFor l) = (2 \<le> Rank l)" "ev_CommittedReceipt (EvidenceFor l) = (3 \<le> Rank l)"
  "ev_BatchProof (EvidenceFor l) = (3 \<le> Rank l)" "ev_GlobalLogProof (EvidenceFor l) = (4 \<le> Rank l)"
  "ev_STHAnchorResult (EvidenceFor l) = (5 \<le> Rank l)"
  by (simp_all add: EvidenceFor_def AtLeast_def Let_def)

text \<open>\<open>Evaluate\<close> is the upper adjoint of \<open>EvidenceFor\<close>: the level is the strongest one
  whose required evidence is all present.\<close>

lemma Evaluate_adjoint: "Rank l \<le> Rank (Evaluate e) \<longleftrightarrow> evidence_le (EvidenceFor l) e"
proof -
  have "Rank l = 0 \<or> Rank l = 1 \<or> Rank l = 2 \<or> Rank l = 3 \<or> Rank l = 4 \<or> Rank l = 5"
    by (auto simp: Rank_def)
  then show ?thesis
    by (elim disjE) (auto simp: evidence_le_def EvidenceFor_fields Evaluate_def)
qed

lemma Evaluate_mono: "evidence_le a b \<Longrightarrow> Rank (Evaluate a) \<le> Rank (Evaluate b)"
  by (simp add: evidence_le_def Evaluate_def)

lemma Evaluate_EvidenceFor: "l \<in> set levels \<Longrightarrow> Evaluate (EvidenceFor l) = l"
  by (auto simp: levels_def Evaluate_def EvidenceFor_fields)

section \<open>Properties\<close>

text \<open>C23. The evaluated proof level is the strongest level whose required evidence is all present:
\<open>Evaluate\<close> and \<open>EvidenceFor\<close> form a Galois connection between the levels by rank and
the evidence by inclusion.\<close>

theorem evaluate_galois:
  "AtLeast (Evaluate e) l \<longleftrightarrow> l \<in> set levels \<and> evidence_le (EvidenceFor l) e"
  using Evaluate_adjoint [of l e] Rank_pos [of l] by (auto simp: AtLeast_def)

end
