(* ===== verification/Pagination.thy ===== *)
theory Pagination
  imports Comparators Encodings Data_Model Proof_Level Anchor_Schedule
begin

text \<open>
  \<open>internal/model/pagination.go\<close>, the cursor part of \<open>internal/model/record_index.go\<close> and the
  result-key order of \<open>internal/anchorschedule/schedule.go\<close>: three-way comparisons of list
  positions and the predicates that decide whether an item lies after a cursor.

  \<open>strings.EqualFold(direction, "asc")\<close> holds for the simple case foldings of the three
  letters; besides the ASCII ones that is U+017F (bytes C5 BF), which folds to \<open>s\<close>.
\<close>

section \<open>Proof levels of an index entry\<close>

definition NormalizedProofLevel :: "string \<Rightarrow> string" where
  "NormalizedProofLevel raw =
     (let level = ToUpper (TrimSpace raw)
      in if level = ''L1'' then ''L1'' else if level = ''L2'' then ''L2'' else if level = ''L3'' then ''L3''
         else if level = ''L4'' then ''L4'' else if level = ''L5'' then ''L5'' else '''')"

definition ProofLevelRank :: "string \<Rightarrow> int" where
  "ProofLevelRank raw =
     (let level = NormalizedProofLevel raw
      in if level = ''L1'' then 1 else if level = ''L2'' then 2 else if level = ''L3'' then 3
         else if level = ''L4'' then 4 else if level = ''L5'' then 5 else 0)"

definition RecordIndexProofLevel :: "RecordIndex \<Rightarrow> string" where
  "RecordIndexProofLevel idx =
     (if NormalizedProofLevel (ridx_ProofLevel idx) \<noteq> '''' then NormalizedProofLevel (ridx_ProofLevel idx)
      else if ridx_BatchID idx \<noteq> '''' then ''L3'' else ''L2'')"

section \<open>Positions\<close>

definition CompareRecordPosition :: "int64 \<Rightarrow> string \<Rightarrow> int64 \<Rightarrow> string \<Rightarrow> int" where
  "CompareRecordPosition leftTime leftID rightTime rightID =
     (if leftTime < rightTime then -1 else if leftTime > rightTime then 1
      else if leftID < rightID then -1 else if leftID > rightID then 1 else 0)"

definition CompareBatchRootPosition :: "int64 \<Rightarrow> string \<Rightarrow> int64 \<Rightarrow> string \<Rightarrow> int" where
  "CompareBatchRootPosition leftTime leftBatchID rightTime rightBatchID =
     (if leftTime < rightTime then -1 else if leftTime > rightTime then 1
      else if leftBatchID < rightBatchID then -1 else if leftBatchID > rightBatchID then 1 else 0)"

definition CompareUint64Position :: "uint64 \<Rightarrow> uint64 \<Rightarrow> int" where
  "CompareUint64Position left right = (if left < right then -1 else if left > right then 1 else 0)"

definition EqualFold_asc :: "string \<Rightarrow> bool" where
  "EqualFold_asc direction \<longleftrightarrow>
     list_ex (\<lambda>a. list_ex (\<lambda>s. list_ex (\<lambda>c. direction = a @ s @ c) [''c'', ''C'']) [''s'', ''S'', [CHR 0xC5, CHR 0xBF]])
       [''a'', ''A'']"


record RootListOptions =
  rootlo_Limit :: int
  rootlo_Direction :: string
  rootlo_AfterClosedAtUnixN :: int64
  rootlo_AfterBatchID :: string


definition BatchRootAfterCursor :: "BatchRoot \<Rightarrow> RootListOptions \<Rightarrow> bool" where
  "BatchRootAfterCursor root opts =
     (if rootlo_AfterClosedAtUnixN opts = 0 \<and> rootlo_AfterBatchID opts = '''' then True
      else let cmp = CompareBatchRootPosition (broot_ClosedAtUnixN root) (broot_BatchID root)
                       (rootlo_AfterClosedAtUnixN opts) (rootlo_AfterBatchID opts)
           in if EqualFold_asc (rootlo_Direction opts) then cmp > 0 else cmp < 0)"

definition Uint64AfterCursor :: "uint64 \<Rightarrow> uint64 \<Rightarrow> string \<Rightarrow> bool" where
  "Uint64AfterCursor val after direction =
     (if after = 0 then True
      else let cmp = CompareUint64Position val after
           in if EqualFold_asc direction then cmp > 0 else cmp < 0)"

section \<open>The order of anchor results\<close>

definition resultKeyOrderIdentity :: "STHAnchorResultKey \<Rightarrow> string" where
  "resultKeyOrderIdentity key =
     RawURLEncoding_EncodeToString (reskey_NodeID key) @ ''/'' @
     RawURLEncoding_EncodeToString (reskey_LogID key) @ ''/'' @
     RawURLEncoding_EncodeToString (reskey_SinkName key)"

definition CompareResultKeys :: "STHAnchorResultKey \<Rightarrow> STHAnchorResultKey \<Rightarrow> int" where
  "CompareResultKeys left right =
     (if reskey_TreeSize left < reskey_TreeSize right then -1
      else if reskey_TreeSize left > reskey_TreeSize right then 1
      else if resultKeyOrderIdentity left < resultKeyOrderIdentity right then -1
      else if resultKeyOrderIdentity left > resultKeyOrderIdentity right then 1
      else 0)"

lemma resultKeyOrderIdentity_inj:
  assumes "resultKeyOrderIdentity k = resultKeyOrderIdentity l" "reskey_TreeSize k = reskey_TreeSize l"
  shows "k = l"
proof -
  let ?e = RawURLEncoding_EncodeToString
  have "?e (reskey_NodeID k) @ CHR ''/'' # ?e (reskey_LogID k) @ CHR ''/'' # ?e (reskey_SinkName k) =
      ?e (reskey_NodeID l) @ CHR ''/'' # ?e (reskey_LogID l) @ CHR ''/'' # ?e (reskey_SinkName l)"
    using assms(1) by (simp add: resultKeyOrderIdentity_def)
  then have e: "?e (reskey_NodeID k) = ?e (reskey_NodeID l)" "?e (reskey_LogID k) = ?e (reskey_LogID l)"
      "?e (reskey_SinkName k) = ?e (reskey_SinkName l)"
    by (simp_all only: append_sep_inj [OF RawURLEncoding_no_slash RawURLEncoding_no_slash])
  show ?thesis
    using e [THEN RawURLEncoding_inj] assms(2) by (intro STHAnchorResultKey.equality) simp_all
qed

section \<open>The comparisons are total orders\<close>

abbreviation record_cmp :: "int64 \<times> string \<Rightarrow> int64 \<times> string \<Rightarrow> int" where
  "record_cmp x y \<equiv> CompareRecordPosition (fst x) (snd x) (fst y) (snd y)"

abbreviation root_cmp :: "int64 \<times> string \<Rightarrow> int64 \<times> string \<Rightarrow> int" where
  "root_cmp x y \<equiv> CompareBatchRootPosition (fst x) (snd x) (fst y) (snd y)"

lemma CompareRecordPosition_lt:
  "record_cmp x y < 0 \<longleftrightarrow> fst x < fst y \<or> fst x = fst y \<and> snd x < snd y"
  "0 < record_cmp x y \<longleftrightarrow> fst y < fst x \<or> fst x = fst y \<and> snd y < snd x"
  by (auto simp: CompareRecordPosition_def)

lemma CompareBatchRoot_eq: "CompareBatchRootPosition = CompareRecordPosition"
  by (intro ext) (simp add: CompareBatchRootPosition_def CompareRecordPosition_def)

interpretation record_order: comparator record_cmp
proof
  show "record_cmp x y = 0 \<longleftrightarrow> x = y" for x y
    by (cases x, cases y) (auto simp: CompareRecordPosition_def)
  show "record_cmp x y < 0 \<longleftrightarrow> 0 < record_cmp y x" for x y
    unfolding CompareRecordPosition_lt by auto
  show "record_cmp x z < 0" if "record_cmp x y < 0" "record_cmp y z < 0" for x y z
    using that unfolding CompareRecordPosition_lt by (auto intro: less_trans)
qed

interpretation root_order: comparator root_cmp
  unfolding CompareBatchRoot_eq by (rule record_order.comparator_axioms)

interpretation uint64_order: comparator CompareUint64Position
proof
  show "CompareUint64Position x y = 0 \<longleftrightarrow> x = y" for x y by (auto simp: CompareUint64Position_def)
  show "CompareUint64Position x y < 0 \<longleftrightarrow> 0 < CompareUint64Position y x" for x y
    by (auto simp: CompareUint64Position_def)
  show "CompareUint64Position x z < 0" if "CompareUint64Position x y < 0" "CompareUint64Position y z < 0" for x y z
    using that by (auto simp: CompareUint64Position_def split: if_splits)
qed

lemma CompareResultKeys_lt:
  "CompareResultKeys k l < 0 \<longleftrightarrow> reskey_TreeSize k < reskey_TreeSize l \<or>
     reskey_TreeSize k = reskey_TreeSize l \<and> resultKeyOrderIdentity k < resultKeyOrderIdentity l"
  "0 < CompareResultKeys k l \<longleftrightarrow> reskey_TreeSize l < reskey_TreeSize k \<or>
     reskey_TreeSize k = reskey_TreeSize l \<and> resultKeyOrderIdentity l < resultKeyOrderIdentity k"
  by (auto simp: CompareResultKeys_def)

interpretation result_order: comparator CompareResultKeys
proof
  show "CompareResultKeys x y = 0 \<longleftrightarrow> x = y" for x y
    using resultKeyOrderIdentity_inj [of x y] by (auto simp: CompareResultKeys_def)
  show "CompareResultKeys x y < 0 \<longleftrightarrow> 0 < CompareResultKeys y x" for x y
    unfolding CompareResultKeys_lt by auto
  show "CompareResultKeys x z < 0" if "CompareResultKeys x y < 0" "CompareResultKeys y z < 0" for x y z
    using that unfolding CompareResultKeys_lt by (auto intro: less_trans)
qed

section \<open>Properties\<close>

text \<open>C26. \<open>CompareResultKeys\<close> is a strict total order on result keys whose ties are exactly equal
keys: no two sinks at one tree size share a position although the identity is compared in its
base64 form.\<close>

theorem result_key_order_total:
  "(CompareResultKeys k l = 0 \<longleftrightarrow> k = l) \<and> (CompareResultKeys k l < 0 \<or> k = l \<or> CompareResultKeys l k < 0) \<and>
   (CompareResultKeys k l < 0 \<and> CompareResultKeys l m < 0 \<longrightarrow> CompareResultKeys k m < 0)"
  using result_order.cmp_eq result_order.cmp_total result_order.cmp_trans by blast

definition sample_result_key :: "string \<Rightarrow> STHAnchorResultKey" where
  "sample_result_key sink =
     \<lparr>reskey_NodeID = ''n'', reskey_LogID = ''l'', reskey_SinkName = sink, reskey_TreeSize = 1\<rparr>"

theorem result_key_order_total_witness:
  "CompareResultKeys (sample_result_key ''a'') (sample_result_key ''b'') \<noteq> 0"
  using result_key_order_total [of "sample_result_key ''a''" "sample_result_key ''b''"]
  by (simp add: sample_result_key_def)










end
