(* ===== verification/Signed_Objects.thy ===== *)
theory Signed_Objects
  imports Trust_Crypto Cborx
begin

text \<open>
  What claims, receipts and tree heads share: they are encoded as CBOR with an empty signature, the
  encoding is framed by the signature input of their purpose, and the frame is signed.

  \<open>encoders\<close> collects \<open>encMode.Marshal\<close> at the types that are signed or hashed; it is a
  parameter like every encoder (theory \<open>Cborx\<close>). \<open>encode_into\<close> is the pattern
  \<open>buf.Write(prefix); cborx.MarshalBuffer(buf, v); return buf.Bytes()\<close> on a pooled buffer
  that was just reset.

  The locale \<open>signed_object\<close> states the contract of such a pair of sign and verify
  functions; the theories of claims, receipts and tree heads interpret it on their functions.
\<close>

record RecordIDInput =
  rid_SchemaVersion :: string
  rid_CryptoSuite :: suite_id
  rid_ClaimCBOR :: bytes
  rid_Signature :: Signature

record encoders =
  cbor_ClientClaim :: "ClientClaim encMode"
  cbor_RecordIDInput :: "RecordIDInput encMode"
  cbor_ServerRecord :: "ServerRecord encMode"
  cbor_AcceptedReceipt :: "AcceptedReceipt encMode"
  cbor_CommittedReceipt :: "CommittedReceipt encMode"
  cbor_GlobalLogLeaf :: "GlobalLogLeaf encMode"
  cbor_SignedTreeHead :: "SignedTreeHead encMode"

definition encode_into :: "'a encMode \<Rightarrow> bytes \<Rightarrow> 'a \<Rightarrow> bytes res" where
  "encode_into enc pre v =
     (case MarshalBuffer enc (Some pre) (Some v) of
        (_, Some e) \<Rightarrow> Inl e
      | (buf, None) \<Rightarrow> Inr (case buf of None \<Rightarrow> [] | Some b \<Rightarrow> b))"

lemma encode_into_Inr [check_simps]:
  "encode_into enc pre v = Inr out \<longleftrightarrow> (\<exists>b. enc v = Inr b \<and> out = pre @ b)"
  by (cases "enc v") (auto simp: encode_into_def MarshalBuffer_def)

text \<open>The prefix with an empty payload, followed by the payload, is the signature input of the payload.\<close>

lemma SignatureInput_prefix:
  "SignatureInputForSuite s p [] = Inr pre \<Longrightarrow> SignatureInputForSuite s p x = Inr (pre @ x)"
  using SignatureInputForSuite_known [of s p "[]" pre]
  by (auto simp: SignatureInputForSuite_simps)

lemma SignatureInput_total: "Lookup s = Some suite \<Longrightarrow> \<exists>b. SignatureInputForSuite s p x = Inr b"
  by (auto simp: Lookup_Some_iff SignatureInputForSuite_simps)

text \<open>An encoder that gives different values different encodings.\<close>

definition enc_inj :: "'a encMode \<Rightarrow> bool" where
  "enc_inj enc \<longleftrightarrow> (\<forall>x y b. enc x = Inr b \<and> enc y = Inr b \<longrightarrow> x = y)"

lemma enc_injD: "enc_inj enc \<Longrightarrow> enc x = Inr b \<Longrightarrow> enc y = Inr b \<Longrightarrow> x = y"
  by (auto simp: enc_inj_def)

lemma RequireSame_provider [check_simps]:
  "RequireSame (provider_Suite p) ids = None \<longleftrightarrow> (\<forall>i \<in> set ids. i = provider_Suite p)"
  by (simp add: RequireSame_None)

text \<open>
  \<open>content\<close> is what is signed, \<open>sig\<close> the signature an object carries and
  \<open>wellformed\<close> what verification requires besides the signature; \<open>sign\<close> and
  \<open>verify\<close> take the context, the provider, the object to sign with a signer, or the signed
  object with a public key.
\<close>

locale signed_object =
  fixes prims :: crypto_prims
    and enc :: "'c encMode"
    and purpose :: SignaturePurpose
    and content :: "'b \<Rightarrow> 'c"
    and sig :: "'b \<Rightarrow> Signature"
    and wellformed :: "suite_id \<Rightarrow> 'b \<Rightarrow> bool"
    and sign :: "go_context \<Rightarrow> Provider option \<Rightarrow> 'a \<Rightarrow> Signer option \<Rightarrow> 'b res"
    and verify :: "go_context \<Rightarrow> 'b \<Rightarrow> PublicKeyDescriptor \<Rightarrow> Provider option \<Rightarrow> go_error option"
  assumes sign_signs:
    "sign ctx provider x signer = Inr y \<Longrightarrow>
       \<exists>p b input. provider = Some p \<and> enc (content y) = Inr b \<and>
         SignatureInputForSuite (provider_Suite p) purpose b = Inr input \<and>
         Sign prims ctx (provider_Suite p) signer input = Inr (sig y)"
  assumes verify_iff:
    "verify ctx y pk provider = None \<longleftrightarrow>
       (\<exists>p b input. provider = Some p \<and> wellformed (provider_Suite p) y \<and> pkd_Suite pk = provider_Suite p \<and>
         enc (content y) = Inr b \<and> SignatureInputForSuite (provider_Suite p) purpose b = Inr input \<and>
         Verify_sig prims ctx provider pk input (sig y) = None)"
begin

text \<open>What was signed verifies under the matching public key.\<close>

lemma sign_then_verify:
  assumes "sign ctx (Some p) x (Some sg) = Inr y" "signer_correct prims p sg pk" "pkd_Suite pk = provider_Suite p"
    and "wellformed (provider_Suite p) y"
  shows "verify None y pk (Some p) = None"
proof -
  obtain b input where s: "enc (content y) = Inr b"
      "SignatureInputForSuite (provider_Suite p) purpose b = Inr input"
      "Sign prims ctx (provider_Suite p) (Some sg) input = Inr (sig y)"
    using sign_signs [OF assms(1)] by auto
  have "Verify_sig prims None (Some p) pk input (sig y) = None"
    using Sign_then_Verify [OF s(3) assms(2)] .
  with s assms(3,4) show ?thesis unfolding verify_iff by blast
qed

text \<open>Acceptance depends on nothing but the signed content, the signature and well-formedness.\<close>

lemma verify_cong:
  assumes "verify ctx y pk (Some p) = None" "content z = content y" "sig z = sig y" "wellformed (provider_Suite p) z"
  shows "verify ctx z pk (Some p) = None"
  using assms unfolding verify_iff by auto

text \<open>The bytes a valid signature covers name the suite, the purpose and the content.\<close>

lemma verify_message:
  assumes "verify ctx y pk (Some p) = None"
  obtains b input where "enc (content y) = Inr b" "SignatureInputForSuite (provider_Suite p) purpose b = Inr input"
    "Verify_sig prims ctx (Some p) pk input (sig y) = None"
  using assms unfolding verify_iff by auto

lemma message_determines:
  assumes "enc_inj enc"
    and "enc (content y) = Inr b" "SignatureInputForSuite s purpose b = Inr input"
    and "enc (content z) = Inr c" "SignatureInputForSuite t q c = Inr input"
  shows "s = t \<and> purpose = q \<and> content y = content z"
proof -
  have sep: "s = t \<and> purpose = q \<and> b = c" using SignatureInput_separated [OF assms(3,5)] .
  then have "content y = content z" using enc_injD [OF assms(1,2), of "content z"] assms(4) by simp
  with sep show ?thesis by simp
qed

end

end
