(* ===== verification/Receipts.thy ===== *)
theory Receipts
  imports Signed_Objects
begin

text \<open>
  \<open>internal/receipt\<close>: signing and verifying accepted (L2) and committed (L3) receipts. The
  pooled buffer of \<open>encodeDomainInput\<close> is \<open>encode_into\<close>; its release has no effect on
  the result.
\<close>

definition encodeDomainInput :: "'a encMode \<Rightarrow> suite_id \<Rightarrow> SignaturePurpose \<Rightarrow> 'a \<Rightarrow> bytes res" where
  "encodeDomainInput enc suiteID purpose val =
     bind_res (SignatureInputForSuite suiteID purpose []) (\<lambda>pre. encode_into enc pre val)"

definition SignAcceptedWithProvider ::
  "crypto_prims \<Rightarrow> encoders \<Rightarrow> go_context \<Rightarrow> Provider option \<Rightarrow> AcceptedReceipt \<Rightarrow> Signer option \<Rightarrow>
   AcceptedReceipt res" where
  "SignAcceptedWithProvider prims encs ctx provider r signer =
     bind_res (non_nil (New_err ''sign accepted receipt: crypto provider is required'') provider) (\<lambda>p.
     checked (first_err
       [err_if (acc_SchemaVersion r \<noteq> SchemaAcceptedReceipt) (New_err ''sign accepted receipt: unexpected schema %q''),
        map_option (Wrapf ''sign accepted receipt: %w'') (RequireSame (provider_Suite p) [acc_CryptoSuite r])])
    (let r = r\<lparr>acc_ServerSig := zero_Signature\<rparr> in
     bind_res (encodeDomainInput (cbor_AcceptedReceipt encs) (provider_Suite p) SignaturePurposeAcceptedReceipt r) (\<lambda>input.
     bind_res (Sign prims ctx (provider_Suite p) signer input) (\<lambda>sig.
     Inr (r\<lparr>acc_ServerSig := sig\<rparr>)))))"

definition SignAcceptedWithSigner ::
  "crypto_prims \<Rightarrow> encoders \<Rightarrow> go_context \<Rightarrow> AcceptedReceipt \<Rightarrow> Signer option \<Rightarrow> AcceptedReceipt res" where
  "SignAcceptedWithSigner prims encs ctx r signer =
     SignAcceptedWithProvider prims encs ctx (Some DefaultProvider) r signer"

definition SignAccepted ::
  "crypto_prims \<Rightarrow> encoders \<Rightarrow> AcceptedReceipt \<Rightarrow> string \<Rightarrow> bytes \<Rightarrow> AcceptedReceipt res" where
  "SignAccepted prims encs r keyID privateKey =
     bind_res (NewEd25519Signer prims keyID privateKey) (\<lambda>signer.
       SignAcceptedWithSigner prims encs None r (Some signer))"

definition VerifyAcceptedWithProvider ::
  "crypto_prims \<Rightarrow> encoders \<Rightarrow> go_context \<Rightarrow> AcceptedReceipt \<Rightarrow> PublicKeyDescriptor \<Rightarrow> Provider option \<Rightarrow>
   go_error option" where
  "VerifyAcceptedWithProvider prims encs ctx r publicKey provider =
     bind_err (non_nil (New_err ''verify accepted receipt: crypto provider is required'') provider) (\<lambda>p.
     then_err (first_err
       [err_if (acc_SchemaVersion r \<noteq> SchemaAcceptedReceipt) (New_err ''verify accepted receipt: unexpected schema %q''),
        map_option (Wrapf ''verify accepted receipt: %w'')
          (RequireSame (provider_Suite p) [acc_CryptoSuite r, pkd_Suite publicKey])])
    (let sig = acc_ServerSig r; r = r\<lparr>acc_ServerSig := zero_Signature\<rparr> in
     bind_err (encodeDomainInput (cbor_AcceptedReceipt encs) (provider_Suite p) SignaturePurposeAcceptedReceipt r) (\<lambda>input.
     map_option (Wrapf ''verify accepted receipt: %w'') (Verify_sig prims ctx provider publicKey input sig))))"

definition VerifyAccepted :: "crypto_prims \<Rightarrow> encoders \<Rightarrow> AcceptedReceipt \<Rightarrow> bytes \<Rightarrow> go_error option" where
  "VerifyAccepted prims encs r publicKey =
     bind_err (NewEd25519PublicKey prims '''' publicKey) (\<lambda>descriptor.
       VerifyAcceptedWithProvider prims encs None r descriptor (Some DefaultProvider))"

definition SignCommittedWithProvider ::
  "crypto_prims \<Rightarrow> encoders \<Rightarrow> go_context \<Rightarrow> Provider option \<Rightarrow> CommittedReceipt \<Rightarrow> Signer option \<Rightarrow>
   CommittedReceipt res" where
  "SignCommittedWithProvider prims encs ctx provider r signer =
     bind_res (non_nil (New_err ''sign committed receipt: crypto provider is required'') provider) (\<lambda>p.
     checked (first_err
       [err_if (com_SchemaVersion r \<noteq> SchemaCommittedReceipt) (New_err ''sign committed receipt: unexpected schema %q''),
        map_option (Wrapf ''sign committed receipt: %w'') (RequireSame (provider_Suite p) [com_CryptoSuite r])])
    (let r = r\<lparr>com_ServerSig := zero_Signature\<rparr> in
     bind_res (encodeDomainInput (cbor_CommittedReceipt encs) (provider_Suite p) SignaturePurposeCommittedReceipt r) (\<lambda>input.
     bind_res (Sign prims ctx (provider_Suite p) signer input) (\<lambda>sig.
     Inr (r\<lparr>com_ServerSig := sig\<rparr>)))))"

definition SignCommittedWithSigner ::
  "crypto_prims \<Rightarrow> encoders \<Rightarrow> go_context \<Rightarrow> CommittedReceipt \<Rightarrow> Signer option \<Rightarrow> CommittedReceipt res" where
  "SignCommittedWithSigner prims encs ctx r signer =
     SignCommittedWithProvider prims encs ctx (Some DefaultProvider) r signer"

definition SignCommitted ::
  "crypto_prims \<Rightarrow> encoders \<Rightarrow> CommittedReceipt \<Rightarrow> string \<Rightarrow> bytes \<Rightarrow> CommittedReceipt res" where
  "SignCommitted prims encs r keyID privateKey =
     bind_res (NewEd25519Signer prims keyID privateKey) (\<lambda>signer.
       SignCommittedWithSigner prims encs None r (Some signer))"

definition VerifyCommittedWithProvider ::
  "crypto_prims \<Rightarrow> encoders \<Rightarrow> go_context \<Rightarrow> CommittedReceipt \<Rightarrow> PublicKeyDescriptor \<Rightarrow> Provider option \<Rightarrow>
   go_error option" where
  "VerifyCommittedWithProvider prims encs ctx r publicKey provider =
     bind_err (non_nil (New_err ''verify committed receipt: crypto provider is required'') provider) (\<lambda>p.
     then_err (first_err
       [err_if (com_SchemaVersion r \<noteq> SchemaCommittedReceipt) (New_err ''verify committed receipt: unexpected schema %q''),
        map_option (Wrapf ''verify committed receipt: %w'')
          (RequireSame (provider_Suite p) [com_CryptoSuite r, pkd_Suite publicKey])])
    (let sig = com_ServerSig r; r = r\<lparr>com_ServerSig := zero_Signature\<rparr> in
     bind_err (encodeDomainInput (cbor_CommittedReceipt encs) (provider_Suite p) SignaturePurposeCommittedReceipt r) (\<lambda>input.
     map_option (Wrapf ''verify committed receipt: %w'') (Verify_sig prims ctx provider publicKey input sig))))"

definition VerifyCommitted :: "crypto_prims \<Rightarrow> encoders \<Rightarrow> CommittedReceipt \<Rightarrow> bytes \<Rightarrow> go_error option" where
  "VerifyCommitted prims encs r publicKey =
     bind_err (NewEd25519PublicKey prims '''' publicKey) (\<lambda>descriptor.
       VerifyCommittedWithProvider prims encs None r descriptor (Some DefaultProvider))"

section \<open>Receipts are signed objects\<close>

lemma encodeDomainInput_Inr [check_simps]:
  "encodeDomainInput enc s p v = Inr input \<longleftrightarrow> (\<exists>b. enc v = Inr b \<and> SignatureInputForSuite s p b = Inr input)"
proof (cases "SignatureInputForSuite s p []")
  case (Inl e)
  then have "Lookup s = None" using SignatureInput_total [of s _ p "[]"] by (cases "Lookup s") auto
  then have "SignatureInputForSuite s p b \<noteq> Inr i" for b i
    using SignatureInputForSuite_known [of s p b i] by auto
  with Inl show ?thesis by (simp add: encodeDomainInput_def)
next
  case (Inr pre)
  then show ?thesis
    using SignatureInput_prefix [OF Inr] by (auto simp: encodeDomainInput_def check_simps)
qed

interpretation accepted: signed_object prims "cbor_AcceptedReceipt encs" SignaturePurposeAcceptedReceipt
  "\<lambda>r. r\<lparr>acc_ServerSig := zero_Signature\<rparr>" acc_ServerSig
  "\<lambda>s r. acc_SchemaVersion r = SchemaAcceptedReceipt \<and> acc_CryptoSuite r = s"
  "SignAcceptedWithProvider prims encs" "VerifyAcceptedWithProvider prims encs" for prims encs
proof
  fix ctx provider x signer y
  assume "SignAcceptedWithProvider prims encs ctx provider x signer = Inr y"
  then show "\<exists>p b input. provider = Some p \<and>
      cbor_AcceptedReceipt encs (y\<lparr>acc_ServerSig := zero_Signature\<rparr>) = Inr b \<and>
      SignatureInputForSuite (provider_Suite p) SignaturePurposeAcceptedReceipt b = Inr input \<and>
      Sign prims ctx (provider_Suite p) signer input = Inr (acc_ServerSig y)"
    by (auto simp: SignAcceptedWithProvider_def Let_def check_simps)
next
  fix ctx y pk provider
  show "VerifyAcceptedWithProvider prims encs ctx y pk provider = None \<longleftrightarrow>
      (\<exists>p b input. provider = Some p \<and>
        (acc_SchemaVersion y = SchemaAcceptedReceipt \<and> acc_CryptoSuite y = provider_Suite p) \<and>
        pkd_Suite pk = provider_Suite p \<and>
        cbor_AcceptedReceipt encs (y\<lparr>acc_ServerSig := zero_Signature\<rparr>) = Inr b \<and>
        SignatureInputForSuite (provider_Suite p) SignaturePurposeAcceptedReceipt b = Inr input \<and>
        Verify_sig prims ctx provider pk input (acc_ServerSig y) = None)"
    by (auto simp: VerifyAcceptedWithProvider_def Let_def check_simps)
qed

interpretation committed: signed_object prims "cbor_CommittedReceipt encs" SignaturePurposeCommittedReceipt
  "\<lambda>r. r\<lparr>com_ServerSig := zero_Signature\<rparr>" com_ServerSig
  "\<lambda>s r. com_SchemaVersion r = SchemaCommittedReceipt \<and> com_CryptoSuite r = s"
  "SignCommittedWithProvider prims encs" "VerifyCommittedWithProvider prims encs" for prims encs
proof
  fix ctx provider x signer y
  assume "SignCommittedWithProvider prims encs ctx provider x signer = Inr y"
  then show "\<exists>p b input. provider = Some p \<and>
      cbor_CommittedReceipt encs (y\<lparr>com_ServerSig := zero_Signature\<rparr>) = Inr b \<and>
      SignatureInputForSuite (provider_Suite p) SignaturePurposeCommittedReceipt b = Inr input \<and>
      Sign prims ctx (provider_Suite p) signer input = Inr (com_ServerSig y)"
    by (auto simp: SignCommittedWithProvider_def Let_def check_simps)
next
  fix ctx y pk provider
  show "VerifyCommittedWithProvider prims encs ctx y pk provider = None \<longleftrightarrow>
      (\<exists>p b input. provider = Some p \<and>
        (com_SchemaVersion y = SchemaCommittedReceipt \<and> com_CryptoSuite y = provider_Suite p) \<and>
        pkd_Suite pk = provider_Suite p \<and>
        cbor_CommittedReceipt encs (y\<lparr>com_ServerSig := zero_Signature\<rparr>) = Inr b \<and>
        SignatureInputForSuite (provider_Suite p) SignaturePurposeCommittedReceipt b = Inr input \<and>
        Verify_sig prims ctx provider pk input (com_ServerSig y) = None)"
    by (auto simp: VerifyCommittedWithProvider_def Let_def check_simps)
qed

lemma SignAccepted_wellformed:
  "SignAcceptedWithProvider prims encs ctx (Some p) x signer = Inr y \<Longrightarrow>
   acc_SchemaVersion y = SchemaAcceptedReceipt \<and> acc_CryptoSuite y = provider_Suite p"
  by (auto simp: SignAcceptedWithProvider_def Let_def check_simps)

lemma SignCommitted_wellformed:
  "SignCommittedWithProvider prims encs ctx (Some p) x signer = Inr y \<Longrightarrow>
   com_SchemaVersion y = SchemaCommittedReceipt \<and> com_CryptoSuite y = provider_Suite p"
  by (auto simp: SignCommittedWithProvider_def Let_def check_simps)

text \<open>What signing changes: the signature only.\<close>

lemma SignAccepted_content:
  "SignAcceptedWithProvider prims encs ctx provider x signer = Inr y \<Longrightarrow>
   y\<lparr>acc_ServerSig := zero_Signature\<rparr> = x\<lparr>acc_ServerSig := zero_Signature\<rparr>"
  by (auto simp: SignAcceptedWithProvider_def Let_def check_simps)

lemma SignCommitted_content:
  "SignCommittedWithProvider prims encs ctx provider x signer = Inr y \<Longrightarrow>
   y\<lparr>com_ServerSig := zero_Signature\<rparr> = x\<lparr>com_ServerSig := zero_Signature\<rparr>"
  by (auto simp: SignCommittedWithProvider_def Let_def check_simps)

end
