(* ===== verification/Go_Runs.thy ===== *)
theory Go_Runs
  imports Go_Errors
begin

text \<open>
  Calls that may also panic or not return: \<open>None\<close> is a call that does not return, \<open>Panics\<close>
  one that panics, and \<open>Returns\<close> carries the value or the error.
\<close>

datatype 'a outcome = Panics | Returns "'a res"

type_synonym 'a run = "'a outcome option"

abbreviation run_res :: "'a res \<Rightarrow> 'a run" where "run_res r \<equiv> Some (Returns r)"

text \<open>\<open>v, err := f(); if err != nil { return err }\<close> and then the rest.\<close>

definition bind_run :: "'a run \<Rightarrow> ('a \<Rightarrow> 'b run) \<Rightarrow> 'b run" where
  "bind_run r f =
     (case r of
        None \<Rightarrow> None
      | Some Panics \<Rightarrow> Some Panics
      | Some (Returns (Inl e)) \<Rightarrow> Some (Returns (Inl e))
      | Some (Returns (Inr v)) \<Rightarrow> f v)"

definition check_run :: "go_error option \<Rightarrow> 'a run \<Rightarrow> 'a run" where
  "check_run c r = (case c of None \<Rightarrow> r | Some e \<Rightarrow> Some (Returns (Inl e)))"

definition map_run_err :: "(go_error \<Rightarrow> go_error) \<Rightarrow> 'a run \<Rightarrow> 'a run" where
  "map_run_err f r = map_option (\<lambda>o'. case o' of Panics \<Rightarrow> Panics | Returns r \<Rightarrow> Returns (map_err f r)) r"

lemma bind_run_simps [simp]:
  "bind_run None f = None"
  "bind_run (Some Panics) f = Some Panics"
  "bind_run (run_res (Inl e)) f = run_res (Inl e)"
  "bind_run (run_res (Inr v)) f = f v"
  by (simp_all add: bind_run_def)

lemma bind_run_Inr [check_simps]:
  "bind_run r f = run_res (Inr v) \<longleftrightarrow> (\<exists>u. r = run_res (Inr u) \<and> f u = run_res (Inr v))"
  by (auto simp: bind_run_def split: option.splits outcome.splits sum.splits)

lemma bind_run_Inl:
  "bind_run r f = run_res (Inl e) \<longleftrightarrow> r = run_res (Inl e) \<or> (\<exists>u. r = run_res (Inr u) \<and> f u = run_res (Inl e))"
  by (auto simp: bind_run_def split: option.splits outcome.splits sum.splits)

lemma check_run_simps [simp]: "check_run None r = r" "check_run (Some e) r = run_res (Inl e)"
  by (simp_all add: check_run_def)

lemma check_run_Inr [check_simps]: "check_run c r = run_res (Inr v) \<longleftrightarrow> c = None \<and> r = run_res (Inr v)"
  by (cases c) auto

lemma check_run_Inl: "check_run c r = run_res (Inl e) \<longleftrightarrow> c = Some e \<or> (c = None \<and> r = run_res (Inl e))"
  by (cases c) auto

lemma map_run_err_Inr [check_simps]: "map_run_err f r = run_res (Inr v) \<longleftrightarrow> r = run_res (Inr v)"
  by (cases r; cases "the r") (auto simp: map_run_err_def map_err_Inr)

lemma map_run_err_Inl: "map_run_err f r = run_res (Inl e) \<longleftrightarrow> (\<exists>e'. r = run_res (Inl e') \<and> e = f e')"
  by (cases r; cases "the r") (auto simp: map_run_err_def map_err_def split: sum.splits)

lemma map_run_err_simps [simp]:
  "map_run_err f None = None"
  "map_run_err f (Some Panics) = Some Panics"
  "map_run_err f (run_res r) = run_res (map_err f r)"
  by (simp_all add: map_run_err_def)

end
