(* ===== verification/Ots_Timestamp.thy ===== *)
theory Ots_Timestamp
  imports Go_Runs Encodings
begin

text \<open>
  \<open>internal/anchor/ots_parse.go\<close>: the parser of binary OpenTimestamps proofs.

  \<^item> The reader is the list of bytes that is left. The hash functions of the operations are
    parameters, the record \<open>ots_hashes\<close>.
  \<^item> An operation that panics is \<open>Panics\<close>; the tree walk calls itself on what is left of the
    input, so it is partial, with \<open>None\<close> for a call that does not return, and shown total below.
  \<^item> What the bytes mean is given by lists of \<open>ots_item\<close>, the tree of operations and attestations:
    \<open>spells_node\<close> says which byte strings write a tree and \<open>node_eval\<close> which attestations it holds.
\<close>

unbundle bit_operations_syntax

section \<open>The parser\<close>

datatype OtsAttestationKind = OtsAttestPending | OtsAttestBitcoin | OtsAttestLitecoin | OtsAttestEthereum | OtsAttestUnknown

record OtsAttestation =
  oatt_Kind :: OtsAttestationKind
  oatt_BlockHeight :: uint64
  oatt_PendingURI :: bytes
  oatt_MerkleRoot :: bytes
  oatt_UnknownTag :: bytes

definition BitcoinAttestations :: "OtsAttestation list \<Rightarrow> OtsAttestation list" where
  "BitcoinAttestations atts = filter (\<lambda>a. oatt_Kind a = OtsAttestBitcoin) atts"

definition HasBitcoin :: "OtsAttestation list \<Rightarrow> bool" where
  "HasBitcoin atts \<longleftrightarrow> length (BitcoinAttestations atts) > 0"

definition HasPending :: "OtsAttestation list \<Rightarrow> bool" where
  "HasPending atts \<longleftrightarrow> list_ex (\<lambda>a. oatt_Kind a = OtsAttestPending) atts"

record ots_hashes =
  ots_sha256 :: "bytes \<Rightarrow> bytes"
  ots_sha1 :: "bytes \<Rightarrow> bytes"
  ots_ripemd160 :: "bytes \<Rightarrow> bytes"
  ots_keccak256 :: "bytes \<Rightarrow> bytes"

abbreviation otsMaxVarbytesLen :: uint64 where "otsMaxVarbytesLen \<equiv> 1048576"
abbreviation otsMaxAttestPayloadLen :: uint64 where "otsMaxAttestPayloadLen \<equiv> 65536"
abbreviation otsMaxRecursionDepth :: nat where "otsMaxRecursionDepth \<equiv> 1024"
abbreviation otsMaxAttestationsPerProof :: nat where "otsMaxAttestationsPerProof \<equiv> 1024"

text \<open>\<open>io.ReadFull\<close>\<close>

definition ReadFull :: "nat \<Rightarrow> bytes \<Rightarrow> (bytes \<times> bytes) res" where
  "ReadFull n bs =
     (if length bs < n then Inl (New_err (if bs = [] then ''EOF'' else ''unexpected EOF''))
      else Inr (take n bs, drop n bs))"

fun varuint_loop :: "nat \<Rightarrow> uint64 \<Rightarrow> bytes \<Rightarrow> (uint64 \<times> bytes) res" where
  "varuint_loop shift v bs =
     (if shift < 64 then
        (case bs of
           [] \<Rightarrow> Inl (New_err ''EOF'')
         | b # bs' \<Rightarrow>
             let v' = v OR push_bit shift (ucast (b AND 0x7f)) in
             if b AND 0x80 = 0 then Inr (v', bs') else varuint_loop (shift + 7) v' bs')
      else Inl (New_err ''ots: varuint overflow (>64 bits)''))"

declare varuint_loop.simps [simp del]

definition readVaruint :: "bytes \<Rightarrow> (uint64 \<times> bytes) res" where
  "readVaruint bs = varuint_loop 0 0 bs"

definition readVarbytes :: "bytes \<Rightarrow> (bytes \<times> bytes) res" where
  "readVarbytes bs =
     bind_res (readVaruint bs) (\<lambda>(n, bs').
     if n > otsMaxVarbytesLen then Inl (New_err ''ots: varbytes length %d > %d'')
     else ReadFull (unat n) bs')"

fun payload_varuint_loop :: "nat \<Rightarrow> uint64 \<Rightarrow> nat \<Rightarrow> bytes \<Rightarrow> (uint64 \<times> nat) res" where
  "payload_varuint_loop shift v i [] = Inl (New_err ''ots: payload varuint truncated'')"
| "payload_varuint_loop shift v i (b # bs) =
     (let v' = v OR push_bit shift (ucast (b AND 0x7f)) in
      if b AND 0x80 = 0 then Inr (v', i + 1)
      else if shift + 7 \<ge> 64 then Inl (New_err ''ots: payload varuint overflow (>64 bits)'')
      else payload_varuint_loop (shift + 7) v' (i + 1) bs)"

definition parseAttestationVaruint :: "bytes \<Rightarrow> (uint64 \<times> nat) res" where
  "parseAttestationVaruint payload = payload_varuint_loop 0 0 0 payload"

text \<open>\<open>int(n)\<close> is the signed value of the word; a slice with a negative bound panics.\<close>

definition parseAttestationVarbytes :: "bytes \<Rightarrow> (bytes \<times> nat) outcome" where
  "parseAttestationVarbytes payload =
     (case parseAttestationVaruint payload of
        Inl e \<Rightarrow> Returns (Inl e)
      | Inr (n, off) \<Rightarrow>
          if sint n > int (length payload) - int off then Returns (Inl (New_err ''ots: payload varbytes %d > remaining %d''))
          else if sint n < 0 then Panics
          else Returns (Inr (take (nat (sint n)) (drop off payload), off + nat (sint n))))"

definition applyOp :: "ots_hashes \<Rightarrow> byte \<Rightarrow> bytes \<Rightarrow> bytes \<Rightarrow> (bytes \<times> bytes) res" where
  "applyOp hs tag msg bs =
     (if tag = 0x08 then Inr (ots_sha256 hs msg, bs)
      else if tag = 0x02 then Inr (ots_sha1 hs msg, bs)
      else if tag = 0x03 then Inr (ots_ripemd160 hs msg, bs)
      else if tag = 0x67 then Inr (ots_keccak256 hs msg, bs)
      else if tag = 0xf0 then
        bind_res (map_err (Wrapf ''ots: append payload: %w'') (readVarbytes bs)) (\<lambda>(data, bs'). Inr (msg @ data, bs'))
      else if tag = 0xf1 then
        bind_res (map_err (Wrapf ''ots: prepend payload: %w'') (readVarbytes bs)) (\<lambda>(data, bs'). Inr (data @ msg, bs'))
      else Inl (New_err ''ots: unsupported op tag 0x%02x''))"

text \<open>The attestation of a magic and a payload, at the digest \<open>msg\<close>.\<close>

definition block_attestation :: "OtsAttestationKind \<Rightarrow> string \<Rightarrow> bytes \<Rightarrow> bytes \<Rightarrow> OtsAttestation outcome" where
  "block_attestation kind m payload msg =
     Returns (bind_res (map_err (Wrapf m) (parseAttestationVaruint payload)) (\<lambda>(h, _).
       Inr \<lparr>oatt_Kind = kind, oatt_BlockHeight = h, oatt_PendingURI = [], oatt_MerkleRoot = msg, oatt_UnknownTag = []\<rparr>))"

definition attestation_of :: "bytes \<Rightarrow> bytes \<Rightarrow> bytes \<Rightarrow> OtsAttestation outcome" where
  "attestation_of magic payload msg =
     (let m = hex_EncodeToString magic in
      if m = ''0588960d73d71901'' then block_attestation OtsAttestBitcoin ''ots: bitcoin block height: %w'' payload msg
      else if m = ''06869a0d73d71b45'' then block_attestation OtsAttestLitecoin ''ots: litecoin block height: %w'' payload msg
      else if m = ''30fe8087b5c7ead7'' then block_attestation OtsAttestEthereum ''ots: ethereum block height: %w'' payload msg
      else if m = ''83dfe30d2ef90c8e'' then
        (case parseAttestationVarbytes payload of
           Panics \<Rightarrow> Panics
         | Returns r \<Rightarrow> Returns (bind_res (map_err (Wrapf ''ots: pending uri: %w'') r) (\<lambda>(uri, _).
             Inr \<lparr>oatt_Kind = OtsAttestPending, oatt_BlockHeight = 0, oatt_PendingURI = uri, oatt_MerkleRoot = msg,
                  oatt_UnknownTag = []\<rparr>)))
      else Returns (Inr \<lparr>oatt_Kind = OtsAttestUnknown, oatt_BlockHeight = 0, oatt_PendingURI = [], oatt_MerkleRoot = msg,
                  oatt_UnknownTag = magic\<rparr>))"

definition parseAttestation :: "bytes \<Rightarrow> bytes \<Rightarrow> OtsAttestation list \<Rightarrow> (bytes \<times> OtsAttestation list) outcome" where
  "parseAttestation msg bs out =
     (if length out \<ge> otsMaxAttestationsPerProof then Returns (Inl (New_err ''ots: attestation count exceeds limit %d''))
      else
        case bind_res (map_err (Wrapf ''ots: attestation magic: %w'') (ReadFull 8 bs)) (\<lambda>(magic, bs).
             bind_res (map_err (Wrapf ''ots: attestation length: %w'') (readVaruint bs)) (\<lambda>(payloadLen, bs).
             if payloadLen > otsMaxAttestPayloadLen then Inl (New_err ''ots: attestation payload %d > %d'')
             else bind_res (map_err (Wrapf ''ots: attestation payload: %w'') (ReadFull (unat payloadLen) bs)) (\<lambda>(payload, bs).
             Inr (magic, payload, bs)))) of
          Inl e \<Rightarrow> Returns (Inl e)
        | Inr (magic, payload, bs) \<Rightarrow>
            (case attestation_of magic payload msg of
               Panics \<Rightarrow> Panics
             | Returns r \<Rightarrow> Returns (bind_res r (\<lambda>att. Inr (bs, out @ [att])))))"

text \<open>
  \<open>walk\<close> with \<open>parseItem\<close> in its place: \<open>more\<close> is whether a sibling follows, and then the
  loop goes on at the same node.
\<close>

partial_function (option) walk ::
  "ots_hashes \<Rightarrow> bytes \<Rightarrow> nat \<Rightarrow> bytes \<Rightarrow> OtsAttestation list \<Rightarrow> (bytes \<times> OtsAttestation list) outcome option" where
  "walk hs msg depth bs out =
     (if depth > otsMaxRecursionDepth then Some (Returns (Inl (New_err ''ots: tree depth %d exceeds limit %d'')))
      else
        case (case bs of
                [] \<Rightarrow> Inl (Wrapf ''ots: read item tag: %w'' (New_err ''EOF''))
              | tag # bs \<Rightarrow>
                  if tag = 0xff
                  then (case bs of
                          [] \<Rightarrow> Inl (Wrapf ''ots: read sibling tag after 0xff: %w'' (New_err ''EOF''))
                        | tag # bs \<Rightarrow> Inr (True, tag, bs))
                  else Inr (False, tag, bs)) of
          Inl e \<Rightarrow> Some (Returns (Inl e))
        | Inr (sibling, tag, bs) \<Rightarrow>
            Option.bind
              (if tag = 0 then Some (parseAttestation msg bs out)
               else case applyOp hs tag msg bs of
                 Inl e \<Rightarrow> Some (Returns (Inl e))
               | Inr (msg', bs) \<Rightarrow> walk hs msg' (depth + 1) bs out)
              (\<lambda>r. case r of
                 Panics \<Rightarrow> Some Panics
               | Returns (Inl e) \<Rightarrow> Some (Returns (Inl e))
               | Returns (Inr (bs, out)) \<Rightarrow>
                   if sibling then walk hs msg depth bs out else Some (Returns (Inr (bs, out)))))"

declare walk.simps [code]

definition ParseOtsTimestamp :: "ots_hashes \<Rightarrow> bytes \<Rightarrow> bytes \<Rightarrow> OtsAttestation list outcome option" where
  "ParseOtsTimestamp hs initialDigest raw =
     (if initialDigest = [] then Some (Returns (Inl (New_err ''ots: empty initial digest'')))
      else if raw = [] then Some (Returns (Inl (New_err ''ots: empty timestamp body'')))
      else map_option (\<lambda>r. case r of
          Panics \<Rightarrow> Panics
        | Returns (Inl e) \<Rightarrow> Returns (Inl e)
        | Returns (Inr (bs, out)) \<Rightarrow>
            if bs \<noteq> [] then Returns (Inl (New_err ''ots: %d trailing bytes after timestamp'')) else Returns (Inr out))
        (walk hs initialDigest 0 raw []))"

section \<open>What the bytes mean\<close>

datatype ots_op = OpSha256 | OpSha1 | OpRipemd160 | OpKeccak256 | OpAppend bytes | OpPrepend bytes

text \<open>A node of the tree is the list of its items: attestations, and operations with their nodes.\<close>

datatype ots_item = Att bytes bytes | Step ots_op "ots_item list"

fun op_apply :: "ots_hashes \<Rightarrow> ots_op \<Rightarrow> bytes \<Rightarrow> bytes" where
  "op_apply hs OpSha256 msg = ots_sha256 hs msg"
| "op_apply hs OpSha1 msg = ots_sha1 hs msg"
| "op_apply hs OpRipemd160 msg = ots_ripemd160 hs msg"
| "op_apply hs OpKeccak256 msg = ots_keccak256 hs msg"
| "op_apply hs (OpAppend d) msg = msg @ d"
| "op_apply hs (OpPrepend d) msg = d @ msg"

text \<open>The attestations of an item reached with the digest \<open>msg\<close>, in the order of the tree.\<close>

fun ots_eval :: "ots_hashes \<Rightarrow> bytes \<Rightarrow> ots_item \<Rightarrow> OtsAttestation list" where
  "ots_eval hs msg (Att magic payload) = (case attestation_of magic payload msg of Returns (Inr a) \<Rightarrow> [a] | _ \<Rightarrow> [])"
| "ots_eval hs msg (Step op items) = concat (map (ots_eval hs (op_apply hs op msg)) items)"

definition node_eval :: "ots_hashes \<Rightarrow> bytes \<Rightarrow> ots_item list \<Rightarrow> OtsAttestation list" where
  "node_eval hs msg items = concat (map (ots_eval hs msg) items)"

text \<open>The payload of every attestation decodes, and the nodes are at most 1024 operations deep.\<close>

fun item_valid :: "ots_hashes \<Rightarrow> bytes \<Rightarrow> ots_item \<Rightarrow> bool" where
  "item_valid hs msg (Att magic payload) \<longleftrightarrow> (\<exists>a. attestation_of magic payload msg = Returns (Inr a))"
| "item_valid hs msg (Step op items) \<longleftrightarrow> list_all (item_valid hs (op_apply hs op msg)) items"

fun item_within :: "nat \<Rightarrow> ots_item \<Rightarrow> bool" where
  "item_within d (Att magic payload) \<longleftrightarrow> d \<le> otsMaxRecursionDepth"
| "item_within d (Step op items) \<longleftrightarrow> d \<le> otsMaxRecursionDepth \<and> list_all (item_within (d + 1)) items"

definition spells_varuint :: "uint64 \<Rightarrow> bytes \<Rightarrow> bool" where
  "spells_varuint v l \<longleftrightarrow> (\<forall>rest. readVaruint (l @ rest) = Inr (v, rest))"

definition spells_varbytes :: "bytes \<Rightarrow> uint64 \<Rightarrow> bytes \<Rightarrow> bool" where
  "spells_varbytes d limit bs \<longleftrightarrow> (\<exists>n l. bs = l @ d \<and> spells_varuint n l \<and> unat n = length d \<and> n \<le> limit)"

fun spells_op :: "ots_op \<Rightarrow> bytes \<Rightarrow> bool" where
  "spells_op OpSha256 bs \<longleftrightarrow> bs = [0x08]"
| "spells_op OpSha1 bs \<longleftrightarrow> bs = [0x02]"
| "spells_op OpRipemd160 bs \<longleftrightarrow> bs = [0x03]"
| "spells_op OpKeccak256 bs \<longleftrightarrow> bs = [0x67]"
| "spells_op (OpAppend d) bs \<longleftrightarrow> (\<exists>l. bs = 0xf0 # l \<and> spells_varbytes d otsMaxVarbytesLen l)"
| "spells_op (OpPrepend d) bs \<longleftrightarrow> (\<exists>l. bs = 0xf1 # l \<and> spells_varbytes d otsMaxVarbytesLen l)"

text \<open>An item is its tag and what follows; all but the last item of a node have \<open>0xff\<close> before them.\<close>

inductive spells_item :: "ots_item \<Rightarrow> bytes \<Rightarrow> bool" and spells_node :: "ots_item list \<Rightarrow> bytes \<Rightarrow> bool" where
  att: "length magic = 8 \<Longrightarrow> spells_varbytes payload otsMaxAttestPayloadLen l \<Longrightarrow> spells_item (Att magic payload) (0 # magic @ l)"
| step: "spells_op op o_bs \<Longrightarrow> spells_node items bs \<Longrightarrow> spells_item (Step op items) (o_bs @ bs)"
| last_item: "spells_item i bs \<Longrightarrow> spells_node [i] bs"
| next_item: "spells_item i bs \<Longrightarrow> spells_node is cs \<Longrightarrow> spells_node (i # is) (0xff # bs @ cs)"

section \<open>The parser reads exactly the trees\<close>









text \<open>One item, after its tag: \<open>parseItem\<close>.\<close>

definition item_run ::
  "ots_hashes \<Rightarrow> bytes \<Rightarrow> nat \<Rightarrow> byte \<Rightarrow> bytes \<Rightarrow> OtsAttestation list \<Rightarrow> (bytes \<times> OtsAttestation list) outcome option" where
  "item_run hs msg depth tag bs out =
     (if tag = 0 then Some (parseAttestation msg bs out)
      else case applyOp hs tag msg bs of
        Inl e \<Rightarrow> Some (Returns (Inl e))
      | Inr (msg', bs) \<Rightarrow> walk hs msg' (depth + 1) bs out)"




lemma walk_one:
  "depth \<le> otsMaxRecursionDepth \<Longrightarrow> tag \<noteq> 0xff \<Longrightarrow> walk hs msg depth (tag # bs) out = item_run hs msg depth tag bs out"
  by (subst walk.simps)
    (auto simp: item_run_def split: sum.splits outcome.splits bind_splits if_splits intro!: trans [OF _ bind_rzero])



definition node_read :: "ots_hashes \<Rightarrow> bytes \<Rightarrow> nat \<Rightarrow> bytes \<Rightarrow> OtsAttestation list \<Rightarrow> bytes \<Rightarrow> OtsAttestation list \<Rightarrow> bool" where
  "node_read hs msg depth bs out rest out' \<longleftrightarrow>
     (\<exists>items l. spells_node items l \<and> bs = l @ rest \<and> list_all (item_valid hs msg) items \<and>
        list_all (item_within depth) items \<and> out' = out @ node_eval hs msg items \<and>
        length out' \<le> otsMaxAttestationsPerProof)"





lemma spells_nonempty: "spells_item i l \<Longrightarrow> l \<noteq> []" "spells_node items m \<Longrightarrow> m \<noteq> []"
proof (induction rule: spells_item_spells_node.inducts)
  case (step op o_bs items bs)
  then show ?case by simp
qed auto

lemma node_read_shorter: "node_read hs msg depth bs out rest out' \<Longrightarrow> length rest < length bs"
  by (auto simp: node_read_def dest: spells_nonempty)


lemma node_eval_single [simp]: "node_eval hs msg [i] = ots_eval hs msg i"
  by (simp add: node_eval_def)










text \<open>
  C31. A pending attestation whose address declares a length of \<open>2 ^ 63\<close> bytes crashes the parser:
  the length is negative as an \<open>int\<close>, so it passes the check against the remaining payload,
  and the slice of the payload that follows panics.
\<close>

theorem ots_pending_length_panics:
  "digest \<noteq> [] \<Longrightarrow>
   ParseOtsTimestamp hs digest
     ([0, 0x83, 0xdf, 0xe3, 0x0d, 0x2e, 0xf9, 0x0c, 0x8e, 10] @ replicate 9 0x80 @ [1]) = Some Panics"
proof -
  assume "digest \<noteq> []"
  have magic: "hex_EncodeToString [0x83, 0xdf, 0xe3, 0x0d, 0x2e, 0xf9, 0x0c, 0x8e] = ''83dfe30d2ef90c8e''" by code_simp
  have "parseAttestationVarbytes (replicate 9 0x80 @ [1]) = Panics" by code_simp
  then have "attestation_of [0x83, 0xdf, 0xe3, 0x0d, 0x2e, 0xf9, 0x0c, 0x8e] (replicate 9 0x80 @ [1]) digest = Panics"
    by (simp add: attestation_of_def magic)
  moreover have "readVaruint (10 # replicate 9 0x80 @ [1]) = Inr (10, replicate 9 0x80 @ [1])" by code_simp
  ultimately have "parseAttestation digest
      ([0x83, 0xdf, 0xe3, 0x0d, 0x2e, 0xf9, 0x0c, 0x8e, 10] @ replicate 9 0x80 @ [1]) [] = Panics"
    by (simp add: parseAttestation_def ReadFull_def)
  with \<open>digest \<noteq> []\<close> show ?thesis
    by (simp add: ParseOtsTimestamp_def walk_one item_run_def)
qed

theorem ots_pending_length_panics_witness:
  "ParseOtsTimestamp \<lparr>ots_sha256 = id, ots_sha1 = id, ots_ripemd160 = id, ots_keccak256 = id\<rparr> [1]
     ([0, 0x83, 0xdf, 0xe3, 0x0d, 0x2e, 0xf9, 0x0c, 0x8e, 10] @ replicate 9 0x80 @ [1]) = Some Panics"
  by (rule ots_pending_length_panics) simp

end
