(* ===== verification/Claims.thy ===== *)
theory Claims
  imports Signed_Objects Encodings Receipts
begin

text \<open>
  \<open>internal/claim\<close>: building, canonicalising, signing and verifying client claims, and the
  record identifier derived from a signed claim. Times are their Unix nanoseconds. A panic is
  \<open>None\<close>. \<open>Metadata.Custom\<close> is visited in the order of its association list; Go visits
  the map in some order, so which of several invalid entries is reported is not fixed by the code.
\<close>

record Verified =
  ver_Claim :: ClientClaim
  ver_ClaimCBOR :: bytes
  ver_Signature :: Signature
  ver_RecordID :: string

abbreviation MaxMetadataParents :: nat where "MaxMetadataParents \<equiv> 1000"
abbreviation MaxMetadataCustomEntries :: nat where "MaxMetadataCustomEntries \<equiv> 1000"
abbreviation MaxMetadataStringBytes :: nat where "MaxMetadataStringBytes \<equiv> 4096"
abbreviation MaxMetadataKeyBytes :: nat where "MaxMetadataKeyBytes \<equiv> 1024"

section \<open>Building a claim\<close>

definition validateMetadataString :: "string \<Rightarrow> nat \<Rightarrow> go_error option" where
  "validateMetadataString val maxBytes = first_err
     [err_if (\<not> ValidString val) (New_err ''metadata %s is not valid UTF-8''),
      err_if (length val > maxBytes) (New_err ''metadata %s exceeds %d bytes'')]"

definition validateMetadata :: "Metadata \<Rightarrow> go_error option" where
  "validateMetadata metadata = first_err
     ([err_if (length (meta_Parents metadata) > MaxMetadataParents) (New_err ''metadata parents exceed %d items''),
       err_if (length (meta_Custom metadata) > MaxMetadataCustomEntries)
         (New_err ''metadata custom entries exceed %d items''),
       validateMetadataString (meta_EventType metadata) MaxMetadataStringBytes,
       validateMetadataString (meta_Source metadata) MaxMetadataStringBytes] @
      map (\<lambda>parent. validateMetadataString parent MaxMetadataStringBytes) (meta_Parents metadata) @
      map (\<lambda>(key, val). first_err
             [validateMetadataString key MaxMetadataKeyBytes,
              validateMetadataString val MaxMetadataStringBytes]) (meta_Custom metadata))"

definition NewFileClaimForSuite ::
  "suite_id \<Rightarrow> string \<Rightarrow> string \<Rightarrow> string \<Rightarrow> int64 \<Rightarrow> bytes \<Rightarrow> string \<Rightarrow> Content \<Rightarrow> Metadata \<Rightarrow> ClientClaim res" where
  "NewFileClaimForSuite suiteID tenantID clientID keyID producedAt nonce idempotencyKey content metadata =
     bind_res (RequireAvailable suiteID) (\<lambda>suite.
     checked (first_err
       [err_if (tenantID = '''' \<or> clientID = '''' \<or> keyID = '''')
          (New_err ''tenant_id, client_id, and key_id are required''),
        err_if (idempotencyKey = '''') (New_err ''idempotency_key is required''),
        err_if (length nonce < 16) (New_err ''nonce must be at least 16 bytes'')])
    (let content = (if content_HashAlg content = ''''
                    then content\<lparr>content_HashAlg := hash_Algorithm (suite_ContentHash suite)\<rparr> else content) in
     checked (first_err
       [err_if (content_HashAlg content \<noteq> hash_Algorithm (suite_ContentHash suite))
          (New_err ''content hash algorithm %q does not match suite %s''),
        err_if (length (content_ContentHash content) \<noteq> hash_DigestBytes (suite_ContentHash suite))
          (New_err ''content_hash length %d does not match suite %s''),
        err_if (content_ContentLength content < 0) (New_err ''content_length cannot be negative''),
        validateMetadata metadata,
        err_if (meta_EventType metadata = '''') (New_err ''metadata.event_type is required'')])
    (Inr \<lparr>claim_SchemaVersion = SchemaClientClaim, claim_CryptoSuite = suite_ID suite, claim_TenantID = tenantID,
          claim_ClientID = clientID, claim_KeyID = keyID, claim_ProducedAtUnixN = producedAt,
          claim_Nonce = nonce, claim_IdempotencyKey = idempotencyKey, claim_Content = content,
          claim_Metadata = metadata, claim_TimeAttestation = \<lparr>tatt_Type = ''none'', tatt_Token = []\<rparr>\<rparr>)))"

definition NewFileClaim ::
  "string \<Rightarrow> string \<Rightarrow> string \<Rightarrow> int64 \<Rightarrow> bytes \<Rightarrow> string \<Rightarrow> Content \<Rightarrow> Metadata \<Rightarrow> ClientClaim res" where
  "NewFileClaim tenantID clientID keyID producedAt nonce idempotencyKey content metadata =
     NewFileClaimForSuite INTLV1 tenantID clientID keyID producedAt nonce idempotencyKey content metadata"

definition Canonical :: "encoders \<Rightarrow> ClientClaim \<Rightarrow> bytes res" where
  "Canonical encs claim =
     (if claim_SchemaVersion claim \<noteq> SchemaClientClaim then Inl (New_err ''unexpected claim schema: %s'')
      else bind_res (map_err (Wrapf ''claim crypto_suite: %w'') (RequireAvailable (claim_CryptoSuite claim))) (\<lambda>suite.
      if content_HashAlg (claim_Content claim) \<noteq> hash_Algorithm (suite_ContentHash suite) \<or>
         length (content_ContentHash (claim_Content claim)) \<noteq> hash_DigestBytes (suite_ContentHash suite)
      then Inl (New_err ''claim content digest does not match suite %s'')
      else checked (validateMetadata (claim_Metadata claim)) (Marshal (cbor_ClientClaim encs) (Some claim))))"

section \<open>Signing and verifying\<close>

definition SigningInput :: "bytes \<Rightarrow> bytes option" where
  "SigningInput claimCBOR =
     (case SignatureInputForSuite INTLV1 SignaturePurposeClientClaim claimCBOR of
        Inl _ \<Rightarrow> None | Inr out \<Rightarrow> Some out)"

definition pooledClaimSigningInput :: "encoders \<Rightarrow> suite_id \<Rightarrow> ClientClaim \<Rightarrow> bytes res" where
  "pooledClaimSigningInput encs suiteID claim =
     bind_res (SignatureInputForSuite suiteID SignaturePurposeClientClaim []) (\<lambda>pre.
       encode_into (cbor_ClientClaim encs) pre claim)"

definition pooledSigningInput :: "suite_id \<Rightarrow> bytes \<Rightarrow> bytes res" where
  "pooledSigningInput suiteID claimCBOR =
     bind_res (SignatureInputForSuite suiteID SignaturePurposeClientClaim []) (\<lambda>pre. Inr (pre @ claimCBOR))"

definition SignWithProvider ::
  "crypto_prims \<Rightarrow> encoders \<Rightarrow> go_context \<Rightarrow> Provider option \<Rightarrow> ClientClaim \<Rightarrow> Signer option \<Rightarrow> SignedClaim res" where
  "SignWithProvider prims encs ctx provider claim signer =
     bind_res (non_nil (New_err ''crypto provider is required'') provider) (\<lambda>p.
     checked (first_err
       [err_if (claim_SchemaVersion claim \<noteq> SchemaClientClaim) (New_err ''unexpected claim schema: %s''),
        map_option (Wrapf ''claim crypto_suite: %w'') (RequireSame (provider_Suite p) [claim_CryptoSuite claim]),
        err_if (case signer of None \<Rightarrow> True | Some sg \<Rightarrow> kh_KeyID (signer_Handle sg) \<noteq> claim_KeyID claim)
          (New_err ''signer key_id does not match claim key_id'')])
    (bind_res (pooledClaimSigningInput encs (provider_Suite p) claim) (\<lambda>input.
     bind_res (Sign prims ctx (provider_Suite p) signer input) (\<lambda>sig.
     Inr \<lparr>signed_SchemaVersion = SchemaSignedClaim, signed_CryptoSuite = provider_Suite p,
          signed_Claim = claim, signed_Signature = sig\<rparr>))))"

definition SignWithSigner ::
  "crypto_prims \<Rightarrow> encoders \<Rightarrow> go_context \<Rightarrow> ClientClaim \<Rightarrow> Signer option \<Rightarrow> SignedClaim res" where
  "SignWithSigner prims encs ctx claim signer = SignWithProvider prims encs ctx (Some DefaultProvider) claim signer"

definition Claim_Sign :: "crypto_prims \<Rightarrow> encoders \<Rightarrow> ClientClaim \<Rightarrow> bytes \<Rightarrow> SignedClaim res" where
  "Claim_Sign prims encs claim privateKey =
     bind_res (NewEd25519Signer prims (claim_KeyID claim) privateKey) (\<lambda>signer.
       SignWithSigner prims encs None claim (Some signer))"

definition RecordIDWithProvider ::
  "crypto_prims \<Rightarrow> encoders \<Rightarrow> Provider option \<Rightarrow> bytes \<Rightarrow> Signature \<Rightarrow> string res" where
  "RecordIDWithProvider prims encs provider claimCBOR sig =
     bind_res (non_nil (New_err ''crypto provider is required'') provider) (\<lambda>p.
     bind_res (RequireAvailable (provider_Suite p)) (\<lambda>suite.
     bind_res (provider_HashFactory p (hash_Algorithm (suite_RecordIDHash suite))) (\<lambda>factory.
     let framing = \<lparr>rid_SchemaVersion = ''trustdb.record-id-input.v2'', rid_CryptoSuite = suite_ID suite,
                    rid_ClaimCBOR = claimCBOR, rid_Signature = sig\<rparr> in
     bind_res (Marshal (cbor_RecordIDInput encs) (Some framing)) (\<lambda>payload.
     let sum = factory_Sum prims factory (string_bytes (dom_RecordID (suite_Domains suite)) @ [0] @ payload)
     in Inr (''tr2'' @ b32_lower sum)))))"

definition mustRecordIDWithProvider ::
  "crypto_prims \<Rightarrow> encoders \<Rightarrow> Provider option \<Rightarrow> bytes \<Rightarrow> Signature \<Rightarrow> string option" where
  "mustRecordIDWithProvider prims encs provider claimCBOR sig =
     (case RecordIDWithProvider prims encs provider claimCBOR sig of Inl _ \<Rightarrow> None | Inr recordID \<Rightarrow> Some recordID)"

definition RecordID :: "crypto_prims \<Rightarrow> encoders \<Rightarrow> bytes \<Rightarrow> Signature \<Rightarrow> string option" where
  "RecordID prims encs claimCBOR sig = mustRecordIDWithProvider prims encs (Some DefaultProvider) claimCBOR sig"

definition VerifyWithProvider ::
  "crypto_prims \<Rightarrow> encoders \<Rightarrow> go_context \<Rightarrow> SignedClaim \<Rightarrow> PublicKeyDescriptor \<Rightarrow> Provider option \<Rightarrow> Verified res" where
  "VerifyWithProvider prims encs ctx scl publicKey provider =
     bind_res (non_nil (New_err ''crypto provider is required'') provider) (\<lambda>p.
     checked (first_err
       [err_if (signed_SchemaVersion scl \<noteq> SchemaSignedClaim) (New_err ''unexpected signed claim schema: %s''),
        map_option (Wrapf ''signed claim crypto_suite: %w'')
          (RequireSame (provider_Suite p)
             [signed_CryptoSuite scl, claim_CryptoSuite (signed_Claim scl), pkd_Suite publicKey])])
    (bind_res (Canonical encs (signed_Claim scl)) (\<lambda>claimCBOR.
     if sig_KeyID (signed_Signature scl) \<noteq> claim_KeyID (signed_Claim scl)
     then Inl (New_err ''signature key_id does not match claim key_id'')
     else bind_res (pooledSigningInput (provider_Suite p) claimCBOR) (\<lambda>input.
     checked (Verify_sig prims ctx provider publicKey input (signed_Signature scl))
    (bind_res (RecordIDWithProvider prims encs provider claimCBOR (signed_Signature scl)) (\<lambda>recordID.
     Inr \<lparr>ver_Claim = signed_Claim scl, ver_ClaimCBOR = claimCBOR,
          ver_Signature = signed_Signature scl, ver_RecordID = recordID\<rparr>))))))"

definition Claim_Verify :: "crypto_prims \<Rightarrow> encoders \<Rightarrow> SignedClaim \<Rightarrow> bytes \<Rightarrow> Verified res" where
  "Claim_Verify prims encs scl publicKey =
     bind_res (NewEd25519PublicKey prims (claim_KeyID (signed_Claim scl)) publicKey) (\<lambda>descriptor.
       VerifyWithProvider prims encs None scl descriptor (Some DefaultProvider))"

section \<open>Facts\<close>

lemma validateMetadataString_None [check_simps]:
  "validateMetadataString s n = None \<longleftrightarrow> ValidString s \<and> length s \<le> n"
  by (auto simp: validateMetadataString_def check_simps)

lemma validateMetadata_None:
  "validateMetadata m = None \<longleftrightarrow>
     length (meta_Parents m) \<le> MaxMetadataParents \<and> length (meta_Custom m) \<le> MaxMetadataCustomEntries \<and>
     (\<forall>s \<in> {meta_EventType m, meta_Source m} \<union> set (meta_Parents m).
        ValidString s \<and> length s \<le> MaxMetadataStringBytes) \<and>
     (\<forall>(k, v) \<in> set (meta_Custom m).
        ValidString k \<and> length k \<le> MaxMetadataKeyBytes \<and> ValidString v \<and> length v \<le> MaxMetadataStringBytes)"
  unfolding validateMetadata_def first_err_append_None first_err_map_None
  by (simp add: first_err_None check_simps case_prod_beta' not_less ball_Un)

text \<open>A claim the suite can carry: \<open>Canonical\<close> succeeds on it whenever the encoder does.\<close>

definition claim_ok :: "suite_id \<Rightarrow> ClientClaim \<Rightarrow> bool" where
  "claim_ok sid c \<longleftrightarrow>
     claim_SchemaVersion c = SchemaClientClaim \<and> claim_CryptoSuite c = sid \<and>
     (\<exists>suite. Lookup sid = Some suite \<and> content_HashAlg (claim_Content c) = hash_Algorithm (suite_ContentHash suite)) \<and>
     length (content_ContentHash (claim_Content c)) = 32 \<and> validateMetadata (claim_Metadata c) = None"

lemma Canonical_Inr [check_simps]:
  "Canonical encs c = Inr b \<longleftrightarrow> claim_ok (claim_CryptoSuite c) c \<and> cbor_ClientClaim encs c = Inr b"
proof (cases "RequireAvailable (claim_CryptoSuite c)")
  case (Inl e)
  then have "\<nexists>suite. Lookup (claim_CryptoSuite c) = Some suite" by (metis RequireAvailable_Inr sum.distinct(1))
  then show ?thesis using Inl by (simp add: Canonical_def claim_ok_def)
next
  case (Inr suite)
  then have "Lookup (claim_CryptoSuite c) = Some suite" by (simp add: RequireAvailable_Inr)
  then show ?thesis
    using Inr Lookup_digests(1) [of "claim_CryptoSuite c" suite] by (auto simp: Canonical_def claim_ok_def check_simps)
qed

lemma NewFileClaimForSuite_Inr:
  assumes "NewFileClaimForSuite sid tenant client key t nonce idem content metadata = Inr c"
  shows "claim_ok sid c \<and> claim_TenantID c = tenant \<and> claim_ClientID c = client \<and> claim_KeyID c = key \<and>
    claim_ProducedAtUnixN c = t \<and> claim_Nonce c = nonce \<and> claim_IdempotencyKey c = idem \<and>
    claim_Metadata c = metadata \<and> content_ContentHash (claim_Content c) = content_ContentHash content \<and>
    content_ContentLength (claim_Content c) = content_ContentLength content \<and>
    tenant \<noteq> '''' \<and> client \<noteq> '''' \<and> key \<noteq> '''' \<and> idem \<noteq> '''' \<and> 16 \<le> length nonce \<and>
    0 \<le> content_ContentLength content \<and> meta_EventType metadata \<noteq> ''''"
proof -
  obtain suite where suite: "RequireAvailable sid = Inr suite" "Lookup sid = Some suite"
    using assms by (auto simp: NewFileClaimForSuite_def bind_res_Inr RequireAvailable_Inr)
  define content' where "content' = (if content_HashAlg content = ''''
    then content\<lparr>content_HashAlg := hash_Algorithm (suite_ContentHash suite)\<rparr> else content)"
  have same: "content_ContentHash content' = content_ContentHash content"
      "content_ContentLength content' = content_ContentLength content"
    by (simp_all add: content'_def)
  note run = assms [unfolded NewFileClaimForSuite_def suite(1) bind_res_simps Let_def, folded content'_def,
      unfolded checked_Inr, simplified first_err_None, simplified check_simps]
  show ?thesis
    using run same suite(2) Lookup_digests(1) [OF suite(2)] Lookup_suite_ID [OF suite(2)]
    by (auto simp: claim_ok_def err_if_None not_less)
qed

lemma pooledClaimSigningInput_eq:
  "pooledClaimSigningInput encs s c = encodeDomainInput (cbor_ClientClaim encs) s SignaturePurposeClientClaim c"
  by (simp add: pooledClaimSigningInput_def encodeDomainInput_def)

lemma pooledSigningInput_eq:
  "Lookup s = Some suite \<Longrightarrow> pooledSigningInput s x = SignatureInputForSuite s SignaturePurposeClientClaim x"
  using SignatureInput_total [of s suite SignaturePurposeClientClaim "[]"]
  by (auto simp: pooledSigningInput_def SignatureInput_prefix)

lemma pooledSigningInput_provider [simp]:
  "pooledSigningInput (provider_Suite p) x = SignatureInputForSuite (provider_Suite p) SignaturePurposeClientClaim x"
  using provider_suite_known [of p] pooledSigningInput_eq by blast

lemma provider_RecordIDHash:
  "Lookup (provider_Suite p) = Some suite \<Longrightarrow>
     \<exists>f. provider_HashFactory p (hash_Algorithm (suite_RecordIDHash suite)) = Inr f"
  by (cases p) (auto simp: Lookup_Some_iff provider_HashFactory_def suite_hash_algorithms)

lemma RecordID_Inr [check_simps]:
  "RecordIDWithProvider prims encs (Some p) b sig = Inr r \<longleftrightarrow>
     (\<exists>suite f payload. Lookup (provider_Suite p) = Some suite \<and>
        provider_HashFactory p (hash_Algorithm (suite_RecordIDHash suite)) = Inr f \<and>
        cbor_RecordIDInput encs \<lparr>rid_SchemaVersion = ''trustdb.record-id-input.v2'', rid_CryptoSuite = provider_Suite p,
          rid_ClaimCBOR = b, rid_Signature = sig\<rparr> = Inr payload \<and>
        r = ''tr2'' @ b32_lower (factory_Sum prims f (string_bytes (dom_RecordID (suite_Domains suite)) @ [0] @ payload)))"
  by (auto simp: RecordIDWithProvider_def Let_def check_simps RequireAvailable_Inr Lookup_suite_ID)

lemma VerifyWithProvider_Inr:
  "VerifyWithProvider prims encs ctx y pk provider = Inr v \<longleftrightarrow>
     (\<exists>p b input r. provider = Some p \<and> signed_SchemaVersion y = SchemaSignedClaim \<and>
        signed_CryptoSuite y = provider_Suite p \<and> pkd_Suite pk = provider_Suite p \<and>
        claim_ok (provider_Suite p) (signed_Claim y) \<and> cbor_ClientClaim encs (signed_Claim y) = Inr b \<and>
        sig_KeyID (signed_Signature y) = claim_KeyID (signed_Claim y) \<and>
        SignatureInputForSuite (provider_Suite p) SignaturePurposeClientClaim b = Inr input \<and>
        Verify_sig prims ctx provider pk input (signed_Signature y) = None \<and>
        RecordIDWithProvider prims encs provider b (signed_Signature y) = Inr r \<and>
        v = \<lparr>ver_Claim = signed_Claim y, ver_ClaimCBOR = b, ver_Signature = signed_Signature y, ver_RecordID = r\<rparr>)"
proof (cases provider)
  case None
  then show ?thesis by (simp add: VerifyWithProvider_def)
next
  case (Some p)
  show ?thesis
    unfolding VerifyWithProvider_def Some non_nil_simps bind_res_simps checked_Inr
    by (auto simp: check_simps claim_ok_def simp del: RecordID_Inr)
qed

text \<open>What verification of a signed claim requires besides the signature.\<close>

definition signed_claim_ok :: "crypto_prims \<Rightarrow> encoders \<Rightarrow> suite_id \<Rightarrow> SignedClaim \<Rightarrow> bool" where
  "signed_claim_ok prims encs sid y \<longleftrightarrow>
     signed_SchemaVersion y = SchemaSignedClaim \<and> signed_CryptoSuite y = sid \<and> claim_ok sid (signed_Claim y) \<and>
     sig_KeyID (signed_Signature y) = claim_KeyID (signed_Claim y) \<and>
     (\<forall>b. cbor_ClientClaim encs (signed_Claim y) = Inr b \<longrightarrow>
        (\<exists>payload. cbor_RecordIDInput encs \<lparr>rid_SchemaVersion = ''trustdb.record-id-input.v2'', rid_CryptoSuite = sid,
          rid_ClaimCBOR = b, rid_Signature = signed_Signature y\<rparr> = Inr payload))"

lemma signed_claim_record_id:
  assumes "signed_claim_ok prims encs (provider_Suite p) y" "cbor_ClientClaim encs (signed_Claim y) = Inr b"
  shows "\<exists>r. RecordIDWithProvider prims encs (Some p) b (signed_Signature y) = Inr r"
proof -
  obtain suite where "Lookup (provider_Suite p) = Some suite" using provider_suite_known by blast
  with provider_RecordIDHash [OF this] assms show ?thesis
    by (auto simp: signed_claim_ok_def RecordID_Inr)
qed

interpretation claims: signed_object prims "cbor_ClientClaim encs" SignaturePurposeClientClaim
  signed_Claim signed_Signature "signed_claim_ok prims encs" "SignWithProvider prims encs"
  "\<lambda>ctx y pk provider. err_of (VerifyWithProvider prims encs ctx y pk provider)" for prims encs
proof
  fix ctx provider x signer y
  assume "SignWithProvider prims encs ctx provider x signer = Inr y"
  then show "\<exists>p b input. provider = Some p \<and> cbor_ClientClaim encs (signed_Claim y) = Inr b \<and>
      SignatureInputForSuite (provider_Suite p) SignaturePurposeClientClaim b = Inr input \<and>
      Sign prims ctx (provider_Suite p) signer input = Inr (signed_Signature y)"
    by (auto simp: SignWithProvider_def pooledClaimSigningInput_eq check_simps)
next
  fix ctx y pk provider
  show "err_of (VerifyWithProvider prims encs ctx y pk provider) = None \<longleftrightarrow>
      (\<exists>p b input. provider = Some p \<and> signed_claim_ok prims encs (provider_Suite p) y \<and>
        pkd_Suite pk = provider_Suite p \<and> cbor_ClientClaim encs (signed_Claim y) = Inr b \<and>
        SignatureInputForSuite (provider_Suite p) SignaturePurposeClientClaim b = Inr input \<and>
        Verify_sig prims ctx provider pk input (signed_Signature y) = None)" (is "?l \<longleftrightarrow> ?r")
  proof
    assume ?l
    then obtain v where "VerifyWithProvider prims encs ctx y pk provider = Inr v" by (auto simp: err_of_None)
    then show ?r unfolding VerifyWithProvider_Inr by (auto simp: signed_claim_ok_def RecordID_Inr)
  next
    assume ?r
    then obtain p b input where r: "provider = Some p" "signed_claim_ok prims encs (provider_Suite p) y"
        "pkd_Suite pk = provider_Suite p" "cbor_ClientClaim encs (signed_Claim y) = Inr b"
        "SignatureInputForSuite (provider_Suite p) SignaturePurposeClientClaim b = Inr input"
        "Verify_sig prims ctx provider pk input (signed_Signature y) = None" by blast
    with signed_claim_record_id [OF r(2,4)] show ?l
      by (auto simp: err_of_None VerifyWithProvider_Inr signed_claim_ok_def)
  qed
qed

section \<open>Properties\<close>

text \<open>C28. A claim that \<open>NewFileClaimForSuite\<close> builds and \<open>SignWithProvider\<close> signs is
accepted by \<open>VerifyWithProvider\<close> under the signer's public key, and verification returns the
claim itself, its canonical encoding, the signature, and the record identifier derived from them.\<close>

theorem signed_claim_verifies:
  assumes "NewFileClaimForSuite (provider_Suite p) tenant client key t nonce idem content metadata = Inr c"
    and "SignWithProvider prims encs ctx (Some p) c (Some sg) = Inr y"
    and "signer_correct prims p sg pk" "pkd_Suite pk = provider_Suite p"
    and "\<And>x. \<exists>b. cbor_RecordIDInput encs x = Inr b"
  shows "\<exists>b r. VerifyWithProvider prims encs None y pk (Some p) =
        Inr \<lparr>ver_Claim = c, ver_ClaimCBOR = b, ver_Signature = signed_Signature y, ver_RecordID = r\<rparr> \<and>
      Canonical encs c = Inr b \<and> RecordIDWithProvider prims encs (Some p) b (signed_Signature y) = Inr r"
proof -
  have c: "claim_ok (provider_Suite p) c" using NewFileClaimForSuite_Inr [OF assms(1)] by simp
  obtain input where s: "kh_KeyID (signer_Handle sg) = claim_KeyID c" "signed_SchemaVersion y = SchemaSignedClaim"
      "signed_CryptoSuite y = provider_Suite p" "signed_Claim y = c"
      "Sign prims ctx (provider_Suite p) (Some sg) input = Inr (signed_Signature y)"
    using assms(2) by (auto simp: SignWithProvider_def check_simps)
  have "sig_KeyID (signed_Signature y) = claim_KeyID c" using Sign_Inr [OF s(5)] s(1) by auto
  with c s(2-4) assms(5) have "signed_claim_ok prims encs (provider_Suite p) y" by (simp add: signed_claim_ok_def)
  from claims.sign_then_verify [OF assms(2-4) this] obtain v
    where v: "VerifyWithProvider prims encs None y pk (Some p) = Inr v" by (auto simp: err_of_None)
  with c s(4) show ?thesis
    unfolding VerifyWithProvider_Inr by (auto simp: Canonical_Inr claim_ok_def simp del: RecordID_Inr)
qed

definition sample_encoders :: encoders where
  "sample_encoders = \<lparr>cbor_ClientClaim = (\<lambda>_. Inr [1]), cbor_RecordIDInput = (\<lambda>_. Inr [2]),
     cbor_ServerRecord = (\<lambda>_. Inr [3]), cbor_AcceptedReceipt = (\<lambda>_. Inr [4]), cbor_CommittedReceipt = (\<lambda>_. Inr [5]),
     cbor_GlobalLogLeaf = (\<lambda>_. Inr [6]), cbor_SignedTreeHead = (\<lambda>_. Inr [7])\<rparr>"

definition sample_claim :: ClientClaim where
  "sample_claim = \<lparr>claim_SchemaVersion = SchemaClientClaim, claim_CryptoSuite = INTLV1, claim_TenantID = ''t'',
     claim_ClientID = ''c'', claim_KeyID = ''k'', claim_ProducedAtUnixN = 1, claim_Nonce = replicate 16 0,
     claim_IdempotencyKey = ''i'',
     claim_Content = \<lparr>content_HashAlg = HashSHA256, content_ContentHash = replicate 32 0, content_ContentLength = 0,
       content_MediaType = '''', content_StorageURI = ''''\<rparr>,
     claim_Metadata = \<lparr>meta_EventType = ''e'', meta_Source = '''', meta_TraceID = '''', meta_Parents = [], meta_Custom = []\<rparr>,
     claim_TimeAttestation = \<lparr>tatt_Type = ''none'', tatt_Token = []\<rparr>\<rparr>"

lemma sample_claim_New:
  "NewFileClaimForSuite INTLV1 ''t'' ''c'' ''k'' 1 (replicate 16 0) ''i'' (claim_Content sample_claim)
     (claim_Metadata sample_claim) = Inr sample_claim"
proof -
  have v: "ValidString ''e''" "ValidString ''''" by code_simp+
  have "validateMetadata (claim_Metadata sample_claim) = None"
    by (simp add: validateMetadata_None sample_claim_def v)
  then show ?thesis
    by (simp add: NewFileClaimForSuite_def intl_v1_suite_def sha256_spec_def) (simp add: sample_claim_def)
qed

definition sample_signed :: SignedClaim where
  "sample_signed = \<lparr>signed_SchemaVersion = SchemaSignedClaim, signed_CryptoSuite = INTLV1, signed_Claim = sample_claim,
     signed_Signature = \<lparr>sig_Alg = SignatureEd25519, sig_KeyID = ''k'',
       sig_Signature = pad64 (string_bytes (purpose_domain SignaturePurposeClientClaim @ ''1'') @ [0, 1])\<rparr>\<rparr>"

lemma sample_Sign:
  "Sign sample_prims None INTLV1 (Some sample_signer) m =
     Inr \<lparr>sig_Alg = SignatureEd25519, sig_KeyID = ''k'', sig_Signature = pad64 m\<rparr>"
  by (simp add: Sign_def signWithSuite_def sample_signer_def Supports_def KeyHandle_Validate_def
      validateSignatureEncoding_def intl_v1_suite_def)

lemma sample_signed_Sign:
  "SignWithProvider sample_prims sample_encoders None (Some intlV1Provider) sample_claim (Some sample_signer) =
     Inr sample_signed"
  by (simp add: SignWithProvider_def sample_Sign pooledClaimSigningInput_eq encodeDomainInput_def encode_into_def
      MarshalBuffer_def sample_encoders_def SignatureInputForSuite_simps sample_signed_def)
    (simp add: sample_claim_def sample_signer_def)

theorem signed_claim_verifies_witness:
  "\<exists>b r. VerifyWithProvider sample_prims sample_encoders None sample_signed sample_pk (Some intlV1Provider) =
     Inr \<lparr>ver_Claim = sample_claim, ver_ClaimCBOR = b, ver_Signature = signed_Signature sample_signed, ver_RecordID = r\<rparr>"
proof -
  have "pkd_Suite sample_pk = INTLV1" "\<And>x. \<exists>b. cbor_RecordIDInput sample_encoders x = Inr b"
    by (simp_all add: sample_pk_def sample_encoders_def)
  then show ?thesis
    using signed_claim_verifies [of intlV1Provider, simplified, OF sample_claim_New sample_signed_Sign sample_signer_correct]
    by blast
qed

text \<open>The bytes a record identifier is the hash of.\<close>

definition record_id_preimage :: "encoders \<Rightarrow> Provider \<Rightarrow> bytes \<Rightarrow> Signature \<Rightarrow> bytes res" where
  "record_id_preimage encs p b s =
     bind_res (RequireKnown (provider_Suite p)) (\<lambda>suite.
     bind_res (cbor_RecordIDInput encs \<lparr>rid_SchemaVersion = ''trustdb.record-id-input.v2'',
         rid_CryptoSuite = provider_Suite p, rid_ClaimCBOR = b, rid_Signature = s\<rparr>) (\<lambda>payload.
     Inr (string_bytes (dom_RecordID (suite_Domains suite)) @ 0 # payload)))"

lemma record_ids_bind:
  assumes "RecordIDWithProvider prims encs (Some p) b s = Inr r" "RecordIDWithProvider prims encs (Some p) c t = Inr r"
    and "enc_inj (cbor_RecordIDInput encs)"
  shows "b = c \<and> s = t \<or>
    (\<exists>f x y. record_id_preimage encs p b s = Inr x \<and> record_id_preimage encs p c t = Inr y \<and>
       x \<noteq> y \<and> factory_Sum prims f x = factory_Sum prims f y)"
proof -
  let ?fr = "\<lambda>b s. \<lparr>rid_SchemaVersion = ''trustdb.record-id-input.v2'', rid_CryptoSuite = provider_Suite p,
    rid_ClaimCBOR = b, rid_Signature = s\<rparr>"
  obtain suite f x where l: "Lookup (provider_Suite p) = Some suite"
      "provider_HashFactory p (hash_Algorithm (suite_RecordIDHash suite)) = Inr f"
      "cbor_RecordIDInput encs (?fr b s) = Inr x"
      "r = ''tr2'' @ b32_lower (factory_Sum prims f (string_bytes (dom_RecordID (suite_Domains suite)) @ [0] @ x))"
    using RecordID_Inr [THEN iffD1, OF assms(1)] by (elim exE conjE) (rule that)
  obtain suite' f' y where y': "Lookup (provider_Suite p) = Some suite'"
      "provider_HashFactory p (hash_Algorithm (suite_RecordIDHash suite')) = Inr f'"
      "cbor_RecordIDInput encs (?fr c t) = Inr y"
      "r = ''tr2'' @ b32_lower (factory_Sum prims f' (string_bytes (dom_RecordID (suite_Domains suite')) @ [0] @ y))"
    using RecordID_Inr [THEN iffD1, OF assms(2)] by (elim exE conjE) (rule that)
  have same: "suite' = suite" "f' = f" using l(1,2) y'(1,2) by simp_all
  have y: "cbor_RecordIDInput encs (?fr c t) = Inr y"
      "r = ''tr2'' @ b32_lower (factory_Sum prims f (string_bytes (dom_RecordID (suite_Domains suite)) @ [0] @ y))"
    using y'(3,4) unfolding same by simp_all
  let ?pre = "\<lambda>z. string_bytes (dom_RecordID (suite_Domains suite)) @ 0 # z"
  have eq: "factory_Sum prims f (?pre x) = factory_Sum prims f (?pre y)"
    by (rule b32_lower_inj) (use l(4) y(2) in simp_all)
  have pre: "record_id_preimage encs p b s = Inr (?pre x)" "record_id_preimage encs p c t = Inr (?pre y)"
    using l y by (simp_all add: record_id_preimage_def RequireKnown_def)
  show ?thesis
  proof (cases "x = y")
    case True
    have "cbor_RecordIDInput encs (?fr c t) = Inr x" using y(1) unfolding True .
    then have "?fr b s = ?fr c t" by (rule assms(3) [THEN enc_injD, OF l(3)])
    then show ?thesis by simp
  next
    case False
    then have "?pre x \<noteq> ?pre y" by simp
    with eq pre show ?thesis by (intro disjI2 exI [of _ f] exI conjI)
  qed
qed

text \<open>C29. A record identifier binds the canonical claim and its signature: under one suite, equal
identifiers come from equal claim bytes and equal signatures, or the two framed inputs are a collision
of the suite's record hash (for an encoder that gives different frames different bytes).\<close>

theorem record_id_binding:
  assumes "RecordIDWithProvider prims encs (Some p) b s = Inr r" "RecordIDWithProvider prims encs (Some p) c t = Inr r"
    and "enc_inj (cbor_RecordIDInput encs)"
  shows "b = c \<and> s = t \<or>
    (\<exists>f x y. record_id_preimage encs p b s = Inr x \<and> record_id_preimage encs p c t = Inr y \<and>
       x \<noteq> y \<and> factory_Sum prims f x = factory_Sum prims f y)"
  using assms by (rule record_ids_bind)

definition sample_frame :: "bytes \<Rightarrow> RecordIDInput" where
  "sample_frame b = \<lparr>rid_SchemaVersion = ''trustdb.record-id-input.v2'', rid_CryptoSuite = INTLV1,
     rid_ClaimCBOR = b, rid_Signature = zero_Signature\<rparr>"

definition frame_encoders :: encoders where
  "frame_encoders = sample_encoders\<lparr>cbor_RecordIDInput := (\<lambda>i.
     if i = sample_frame [1] then Inr [9] else if i = sample_frame [2] then Inr [8] else Inl (New_err ''x''))\<rparr>"

lemma frame_preimages:
  "record_id_preimage frame_encoders intlV1Provider [1] zero_Signature =
     Inr (string_bytes (dom_RecordID (suite_Domains intl_v1_suite)) @ [0, 9])"
  "record_id_preimage frame_encoders intlV1Provider [2] zero_Signature =
     Inr (string_bytes (dom_RecordID (suite_Domains intl_v1_suite)) @ [0, 8])"
  by (simp_all add: record_id_preimage_def frame_encoders_def sample_frame_def)

theorem record_id_binding_witness:
  "RecordIDWithProvider sample_prims frame_encoders (Some intlV1Provider) [1] zero_Signature \<noteq>
   RecordIDWithProvider sample_prims frame_encoders (Some intlV1Provider) [2] zero_Signature"
proof
  assume eq: "RecordIDWithProvider sample_prims frame_encoders (Some intlV1Provider) [1] zero_Signature =
    RecordIDWithProvider sample_prims frame_encoders (Some intlV1Provider) [2] zero_Signature"
  have inj: "enc_inj (cbor_RecordIDInput frame_encoders)"
    by (auto simp: enc_inj_def frame_encoders_def split: if_splits)
  have "\<exists>r. RecordIDWithProvider sample_prims frame_encoders (Some intlV1Provider) [1] zero_Signature = Inr r"
    using provider_RecordIDHash [of intlV1Provider intl_v1_suite]
    by (auto simp: RecordID_Inr frame_encoders_def sample_frame_def)
  then obtain r where r: "RecordIDWithProvider sample_prims frame_encoders (Some intlV1Provider) [1] zero_Signature = Inr r"
      "RecordIDWithProvider sample_prims frame_encoders (Some intlV1Provider) [2] zero_Signature = Inr r"
    using eq by auto
  from record_id_binding [OF this inj] obtain f where
    "factory_Sum sample_prims f (string_bytes (dom_RecordID (suite_Domains intl_v1_suite)) @ [0, 9]) =
     factory_Sum sample_prims f (string_bytes (dom_RecordID (suite_Domains intl_v1_suite)) @ [0, 8])"
    by (auto simp: frame_preimages)
  then show False
    by (cases f) (simp_all add: sample_prims_def array32_def intl_v1_suite_def)
qed

end
