(* ===== verification/Global_Log.thy ===== *)
theory Global_Log
  imports Merkle_Tree Signed_Objects Anchor_Schedule
begin

text \<open>
  \<open>internal/globallog/service.go\<close>: the global transparency log. One leaf per committed batch
  root; the state keeps the frontier of complete subtrees; every append signs a tree head; proofs are
  read from the stored leaves and nodes.

  \<^item> \<open>'s log_store\<close> is the method table of the \<open>Store\<close> interface over a store state
    \<open>'s\<close>; a method that may write returns the state after it. The methods are taken with their
    context applied. Optional interfaces (\<open>BatchAppendStore\<close> and the anchor readers) are
    \<open>option\<close> fields, \<open>None\<close> where the type assertion fails. A lookup returns
    \<open>Inr None\<close> for \<open>found = false\<close>.
  \<^item> \<open>clock i\<close> is the \<open>i\<close>-th reading of the clock in a call.
  \<^item> The loops over \<open>ListGlobalLeavesRange\<close> run as long as the store returns leaves, so
    \<open>loadState\<close> and what calls it are partial: \<open>None\<close> is a call that does not return.
  \<^item> Levels are naturals (they index the frontier slice); a shift by 64 or more gives 0, as in Go.
\<close>

section \<open>The store interface\<close>

record 's log_store =
  ls_GetGlobalLeaf :: "'s \<Rightarrow> uint64 \<Rightarrow> GlobalLogLeaf option res"
  ls_GetGlobalLeafByBatchID :: "'s \<Rightarrow> string \<Rightarrow> GlobalLogLeaf option res"
  ls_ListGlobalLeavesRange :: "'s \<Rightarrow> uint64 \<Rightarrow> int \<Rightarrow> GlobalLogLeaf list res"
  ls_PutGlobalLogNode :: "'s \<Rightarrow> GlobalLogNode \<Rightarrow> 's \<times> go_error option"
  ls_GetGlobalLogNode :: "'s \<Rightarrow> uint64 \<Rightarrow> uint64 \<Rightarrow> GlobalLogNode option res"
  ls_PutGlobalLogState :: "'s \<Rightarrow> GlobalLogState \<Rightarrow> 's \<times> go_error option"
  ls_GetGlobalLogState :: "'s \<Rightarrow> GlobalLogState option res"
  ls_GetSignedTreeHead :: "'s \<Rightarrow> uint64 \<Rightarrow> SignedTreeHead option res"
  ls_LatestSignedTreeHead :: "'s \<Rightarrow> 's \<times> SignedTreeHead option res"
  ls_PutGlobalLogTile :: "'s \<Rightarrow> GlobalLogTile \<Rightarrow> 's \<times> go_error option"
  ls_CommitGlobalLogAppend :: "'s \<Rightarrow> GlobalLogAppend \<Rightarrow> 's \<times> go_error option"
  ls_CommitGlobalLogAppends :: "('s \<Rightarrow> GlobalLogAppend list \<Rightarrow> 's \<times> go_error option) option"
  ls_LatestSTHAnchorResult :: "('s \<Rightarrow> STHAnchorResult option res) option"
  ls_LatestSTHAnchorResultForKey :: "('s \<Rightarrow> STHAnchorScheduleKey \<Rightarrow> STHAnchorResult option res) option"

record log_service =
  svc_nodeID :: string
  svc_logID :: string
  svc_signer :: "Signer option"
  svc_provider :: Provider
  svc_profile :: Profile
  svc_anchorKey :: "STHAnchorScheduleKey option"

record log_options =
  lopt_NodeID :: string
  lopt_LogID :: string
  lopt_Signer :: "Signer option"
  lopt_CryptoProvider :: "Provider option"
  lopt_AnchorSinkName :: string

text \<open>\<open>hasStore\<close> is whether \<open>opts.Store\<close> is set.\<close>

definition New_service :: "crypto_prims \<Rightarrow> bool \<Rightarrow> log_options \<Rightarrow> log_service res" where
  "New_service prims hasStore opts =
     (if \<not> hasStore then Inl (New CodeInvalidArgument ''global log store is required'')
      else
        let provider = (case lopt_CryptoProvider opts of None \<Rightarrow> DefaultProvider | Some p \<Rightarrow> p) in
        case ValidateSignerWithProvider prims None (Some provider) (lopt_Signer opts) of
          Some e \<Rightarrow> Inl (Wrap CodeInvalidArgument ''global log signer is invalid'' (Some e))
        | None \<Rightarrow>
        (case ProfileForSuite (provider_Suite provider) of
          Inl e \<Rightarrow> Inl (Wrap CodeInvalidArgument ''global log merkle profile is invalid'' (Some e))
        | Inr profile \<Rightarrow>
          let logID = (if TrimSpace (lopt_LogID opts) = '''' then ''trustdb-global-log'' else TrimSpace (lopt_LogID opts));
              nodeID = TrimSpace (lopt_NodeID opts);
              sinkName = TrimSpace (lopt_AnchorSinkName opts)
          in Inr \<lparr>svc_nodeID = nodeID, svc_logID = logID, svc_signer = lopt_Signer opts, svc_provider = provider,
                  svc_profile = profile,
                  svc_anchorKey = (if sinkName \<noteq> ''''
                    then Some \<lparr>skey_NodeID = nodeID, skey_LogID = logID, skey_SinkName = sinkName\<rparr> else None)\<rparr>))"

definition NewReaderWithProvider :: "bool \<Rightarrow> Provider option \<Rightarrow> log_service res" where
  "NewReaderWithProvider hasStore provider =
     (if \<not> hasStore then Inl (New CodeInvalidArgument ''global log store is required'')
      else case provider of
        None \<Rightarrow> Inl (New CodeInvalidArgument ''global log crypto provider is required'')
      | Some p \<Rightarrow>
        (case ProfileForSuite (provider_Suite p) of
           Inl e \<Rightarrow> Inl (Wrap CodeInvalidArgument ''global log merkle profile is invalid'' (Some e))
         | Inr profile \<Rightarrow> Inr \<lparr>svc_nodeID = '''', svc_logID = '''', svc_signer = None, svc_provider = p,
             svc_profile = profile, svc_anchorKey = None\<rparr>))"

definition StreamIdentity :: "log_service option \<Rightarrow> string \<times> string" where
  "StreamIdentity s = (case s of None \<Rightarrow> ('''', '''') | Some svc \<Rightarrow> (svc_nodeID svc, svc_logID svc))"

section \<open>Hashing a leaf\<close>

definition HashLeafWithProvider ::
  "crypto_prims \<Rightarrow> encoders \<Rightarrow> Provider option \<Rightarrow> GlobalLogLeaf \<Rightarrow> bytes res" where
  "HashLeafWithProvider prims encs provider leaf =
     bind_res (non_nil (New CodeInvalidArgument ''global log crypto provider is required'') provider) (\<lambda>p.
     checked (map_option (\<lambda>e. Wrap CodeInvalidArgument ''global log leaf crypto_suite'' (Some e))
       (RequireSame (provider_Suite p) [gleaf_CryptoSuite leaf]))
    (let leaf = leaf\<lparr>gleaf_LeafHash := [], gleaf_AppendedAtUnixN := 0\<rparr> in
     bind_res (Marshal (cbor_GlobalLogLeaf encs) (Some leaf)) (\<lambda>payload.
     bind_res (RequireAvailable (provider_Suite p)) (\<lambda>suite.
     bind_res (ProfileForAlgorithm (suite_ID suite) (merkle_Algorithm (suite_Merkle suite))) (\<lambda>profile.
     bind_res (provider_HashFactory p (hash_Algorithm (merkle_Hash (suite_Merkle suite)))) (\<lambda>factory.
     if factory_Algorithm factory \<noteq> prof_hashAlg profile \<or> factory_Size factory \<noteq> profile_Size profile
     then Inl (New CodeInvalidArgument ''global log provider hash does not match the suite merkle profile'')
     else Inr (factory_Sum prims factory
       ([merkle_LeafPrefix (suite_Merkle suite)] @ string_bytes SchemaGlobalLogLeaf @ [0] @ payload))))))))"

definition HashLeaf :: "crypto_prims \<Rightarrow> encoders \<Rightarrow> GlobalLogLeaf \<Rightarrow> bytes res" where
  "HashLeaf prims encs leaf = HashLeafWithProvider prims encs (Some DefaultProvider) leaf"

section \<open>The frontier\<close>

fun root_loop :: "crypto_prims \<Rightarrow> Profile \<Rightarrow> bytes list \<Rightarrow> bytes option \<Rightarrow> bytes option res" where
  "root_loop prims profile [] root = Inr root"
| "root_loop prims profile (h # frontier) root =
     (if h = [] then root_loop prims profile frontier root
      else if length h \<noteq> profile_Size profile then Inl (New CodeInternal ''global frontier hash is invalid'')
      else case root of
        None \<Rightarrow> root_loop prims profile frontier (Some h)
      | Some r \<Rightarrow> bind_res (HashNodeForSuite prims (prof_suite profile) (prof_algorithm profile) h r)
          (\<lambda>combined. root_loop prims profile frontier (Some combined)))"

definition rootFromFrontier :: "crypto_prims \<Rightarrow> Profile \<Rightarrow> bytes list \<Rightarrow> bytes res" where
  "rootFromFrontier prims profile frontier =
     (if profile_Size profile = 0 then Inl (New CodeInternal ''global merkle profile is invalid'')
      else bind_res (root_loop prims profile frontier None) (\<lambda>root. Inr (case root of None \<Rightarrow> [] | Some r \<Rightarrow> r)))"

definition trimFrontier :: "bytes list \<Rightarrow> bytes list" where
  "trimFrontier fr = rev (dropWhile (\<lambda>h. h = []) (rev fr))"

definition log_node :: "log_service \<Rightarrow> int64 \<Rightarrow> nat \<Rightarrow> uint64 \<Rightarrow> bytes \<Rightarrow> GlobalLogNode" where
  "log_node svc now level start h =
     \<lparr>gnode_SchemaVersion = SchemaGlobalLogNode, gnode_CryptoSuite = provider_Suite (svc_provider svc),
      gnode_Level = word_of_nat level, gnode_StartIndex = start, gnode_Width = push_bit level 1,
      gnode_Hash = h, gnode_CreatedAtUnixN = now\<rparr>"

text \<open>The loop of \<open>appendState\<close>: merge with every occupied slot from level 0 up.\<close>

function carry ::
  "crypto_prims \<Rightarrow> log_service \<Rightarrow> int64 \<Rightarrow> bytes list \<Rightarrow> nat \<Rightarrow> uint64 \<Rightarrow> bytes \<Rightarrow> GlobalLogNode list \<Rightarrow>
   (bytes list \<times> nat \<times> bytes \<times> GlobalLogNode list) res" where
  "carry prims svc now frontier level start current nodes =
     (if level < length frontier \<and> frontier ! level \<noteq> []
      then let width = push_bit level (1 :: uint64) in
        if start < width then Inl (New CodeInternal ''global frontier start underflow'')
        else bind_res (HashNodeForSuite prims (prof_suite (svc_profile svc)) (prof_algorithm (svc_profile svc))
               (frontier ! level) current) (\<lambda>parent.
             carry prims svc now (frontier[level := []]) (level + 1) (start - width) parent
               (nodes @ [log_node svc now (level + 1) (start - width) parent]))
      else Inr (frontier, level, current, nodes))"
  by pat_completeness auto
termination
  by (relation "measure (\<lambda>(prims, svc, now, frontier, level, start, current, nodes). length frontier - level)") auto

declare carry.simps [simp del]

definition appendState ::
  "crypto_prims \<Rightarrow> log_service \<Rightarrow> int64 \<Rightarrow> GlobalLogState \<Rightarrow> GlobalLogLeaf \<Rightarrow>
   (GlobalLogState \<times> GlobalLogNode list) res" where
  "appendState prims svc now state leaf =
     checked (map_option (\<lambda>e. Wrap CodeInvalidArgument ''global log append crypto_suite'' (Some e))
       (RequireSame (provider_Suite (svc_provider svc)) [gstate_CryptoSuite state, gleaf_CryptoSuite leaf]))
    (checked (first_err
       [err_if (length (gleaf_LeafHash leaf) \<noteq> profile_Size (svc_profile svc))
          (New CodeInvalidArgument ''global leaf hash has the wrong digest size''),
        err_if (gleaf_LeafIndex leaf \<noteq> gstate_TreeSize state)
          (New CodeFailedPrecondition ''global leaf index does not match tree frontier'')])
    (bind_res (carry prims svc now (gstate_Frontier state) 0 (gleaf_LeafIndex leaf) (gleaf_LeafHash leaf)
        [log_node svc now 0 (gleaf_LeafIndex leaf) (gleaf_LeafHash leaf)])
      (\<lambda>(frontier, level, current, nodes).
     let frontier = (frontier @ replicate (Suc level - length frontier) [])[level := current] in
     bind_res (rootFromFrontier prims (svc_profile svc) frontier) (\<lambda>root.
     Inr (\<lparr>gstate_SchemaVersion = SchemaGlobalLogState, gstate_CryptoSuite = provider_Suite (svc_provider svc),
           gstate_TreeSize = gstate_TreeSize state + 1, gstate_RootHash = root,
           gstate_Frontier = trimFrontier frontier, gstate_UpdatedAtUnixN = now\<rparr>, nodes)))))"

section \<open>Signed tree heads\<close>

definition sign_tree_head ::
  "crypto_prims \<Rightarrow> encoders \<Rightarrow> go_context \<Rightarrow> log_service \<Rightarrow> SignedTreeHead \<Rightarrow> SignedTreeHead res" where
  "sign_tree_head prims encs ctx svc sth =
     (let payloadSTH = sth\<lparr>sth_Signature := zero_Signature\<rparr> in
      bind_res (Marshal (cbor_SignedTreeHead encs) (Some payloadSTH)) (\<lambda>payload.
      bind_res (SignatureInputForSuite (provider_Suite (svc_provider svc)) SignaturePurposeSignedTreeHead payload) (\<lambda>input.
      bind_res (Sign prims ctx (provider_Suite (svc_provider svc)) (svc_signer svc) input) (\<lambda>sig.
      Inr (sth\<lparr>sth_Signature := sig\<rparr>)))))"

definition signSTH ::
  "crypto_prims \<Rightarrow> encoders \<Rightarrow> go_context \<Rightarrow> log_service \<Rightarrow> int64 \<Rightarrow> GlobalLogLeaf list \<Rightarrow> SignedTreeHead res" where
  "signSTH prims encs ctx svc now leaves =
     bind_res (RootFromLeavesForSuite prims (prof_suite (svc_profile svc)) (prof_algorithm (svc_profile svc))
       (map gleaf_LeafHash leaves)) (\<lambda>root.
     sign_tree_head prims encs ctx svc
       \<lparr>sth_SchemaVersion = SchemaSignedTreeHead, sth_CryptoSuite = provider_Suite (svc_provider svc),
        sth_TreeAlg = prof_algorithm (svc_profile svc), sth_TreeSize = word_of_nat (length leaves),
        sth_RootHash = root, sth_TimestampUnixN = now, sth_NodeID = svc_nodeID svc, sth_LogID = svc_logID svc,
        sth_Signature = zero_Signature\<rparr>)"

definition signSTHFromState ::
  "crypto_prims \<Rightarrow> encoders \<Rightarrow> go_context \<Rightarrow> log_service \<Rightarrow> int64 \<Rightarrow> GlobalLogState \<Rightarrow> SignedTreeHead res" where
  "signSTHFromState prims encs ctx svc now state =
     checked (first_err
       [err_if (gstate_TreeSize state = 0) (New CodeInvalidArgument ''cannot sign empty global log''),
        err_if (length (gstate_RootHash state) \<noteq> profile_Size (svc_profile svc))
          (New CodeInternal ''global log state root is invalid'')])
    (sign_tree_head prims encs ctx svc
       \<lparr>sth_SchemaVersion = SchemaSignedTreeHead, sth_CryptoSuite = provider_Suite (svc_provider svc),
        sth_TreeAlg = prof_algorithm (svc_profile svc), sth_TreeSize = gstate_TreeSize state,
        sth_RootHash = gstate_RootHash state, sth_TimestampUnixN = now, sth_NodeID = svc_nodeID svc,
        sth_LogID = svc_logID svc, sth_Signature = zero_Signature\<rparr>)"

definition VerifySTHWithProvider ::
  "crypto_prims \<Rightarrow> encoders \<Rightarrow> go_context \<Rightarrow> SignedTreeHead \<Rightarrow> PublicKeyDescriptor \<Rightarrow> Provider option \<Rightarrow> go_error option" where
  "VerifySTHWithProvider prims encs ctx sth publicKey provider =
     bind_err (non_nil (New CodeInvalidArgument ''global log crypto provider is required'') provider) (\<lambda>p.
     bind_err (RequireAvailable (provider_Suite p)) (\<lambda>suite.
     then_err (first_err
       [err_if (sth_TreeAlg sth \<noteq> merkle_Algorithm (suite_Merkle suite))
          (New_err ''verify signed tree head: tree algorithm %q does not match suite %s''),
        map_option (Wrapf ''verify signed tree head: %w'')
          (RequireSame (suite_ID suite) [sth_CryptoSuite sth, pkd_Suite publicKey])])
    (let sig = sth_Signature sth; sth = sth\<lparr>sth_Signature := zero_Signature\<rparr> in
     bind_err (Marshal (cbor_SignedTreeHead encs) (Some sth)) (\<lambda>payload.
     bind_err (SignatureInputForSuite (provider_Suite p) SignaturePurposeSignedTreeHead payload) (\<lambda>input.
     map_option (Wrapf ''verify signed tree head: %w'') (Verify_sig prims ctx provider publicKey input sig))))))"

definition VerifySTH :: "crypto_prims \<Rightarrow> encoders \<Rightarrow> SignedTreeHead \<Rightarrow> bytes \<Rightarrow> go_error option" where
  "VerifySTH prims encs sth publicKey =
     bind_err (NewEd25519PublicKey prims '''' publicKey) (\<lambda>descriptor.
       VerifySTHWithProvider prims encs None sth descriptor (Some DefaultProvider))"

definition VerifyInclusionForSuite :: "crypto_prims \<Rightarrow> suite_id \<Rightarrow> GlobalLogProof \<Rightarrow> bool res option" where
  "VerifyInclusionForSuite prims suiteID pf =
     (if gproof_SchemaVersion pf \<noteq> SchemaGlobalLogProof then Some (Inr False)
      else case RequireSame suiteID [gproof_CryptoSuite pf, sth_CryptoSuite (gproof_STH pf)] of
        Some e \<Rightarrow> Some (Inl e)
      | None \<Rightarrow>
          if sth_SchemaVersion (gproof_STH pf) \<noteq> SchemaSignedTreeHead \<or>
             gproof_TreeSize pf \<noteq> sth_TreeSize (gproof_STH pf) then Some (Inr False)
          else if gproof_TreeSize pf = 0 \<or> gproof_LeafIndex pf \<ge> gproof_TreeSize pf then Some (Inr False)
          else VerifyForSuite prims suiteID (sth_TreeAlg (gproof_STH pf)) (gproof_LeafHash pf) (gproof_LeafIndex pf)
                 (gproof_TreeSize pf) (gproof_InclusionPath pf) (sth_RootHash (gproof_STH pf)))"

definition VerifyInclusionWithProvider :: "crypto_prims \<Rightarrow> Provider option \<Rightarrow> GlobalLogProof \<Rightarrow> bool option" where
  "VerifyInclusionWithProvider prims provider pf =
     (case provider of
        None \<Rightarrow> Some False
      | Some p \<Rightarrow> map_option (\<lambda>r. r = Inr True) (VerifyInclusionForSuite prims (provider_Suite p) pf))"

definition VerifyInclusion :: "crypto_prims \<Rightarrow> GlobalLogProof \<Rightarrow> bool option" where
  "VerifyInclusion prims pf = map_option (\<lambda>r. r = Inr True) (VerifyInclusionForSuite prims INTLV1 pf)"

section \<open>Appending batch roots\<close>

fun put_nodes :: "'s log_store \<Rightarrow> 's \<Rightarrow> GlobalLogNode list \<Rightarrow> 's \<times> go_error option" where
  "put_nodes st s [] = (s, None)"
| "put_nodes st s (node # nodes) =
     (case ls_PutGlobalLogNode st s node of
        (s', Some e) \<Rightarrow> (s', Some e)
      | (s', None) \<Rightarrow> put_nodes st s' nodes)"

fun rebuild_leaves ::
  "crypto_prims \<Rightarrow> log_service \<Rightarrow> 's log_store \<Rightarrow> (nat \<Rightarrow> int64) \<Rightarrow> 's \<Rightarrow> GlobalLogState \<Rightarrow> uint64 \<Rightarrow> nat \<Rightarrow>
   GlobalLogLeaf list \<Rightarrow> 's \<times> (GlobalLogState \<times> uint64 \<times> nat) res" where
  "rebuild_leaves prims svc st clock s state nextLeafIndex t [] = (s, Inr (state, nextLeafIndex, t))"
| "rebuild_leaves prims svc st clock s state nextLeafIndex t (leaf # leaves) =
     (case appendState prims svc (clock t) state leaf of
        Inl e \<Rightarrow> (s, Inl e)
      | Inr (next, nodes) \<Rightarrow>
          (case put_nodes st s nodes of
             (s', Some e) \<Rightarrow> (s', Inl e)
           | (s', None) \<Rightarrow> rebuild_leaves prims svc st clock s' next (gleaf_LeafIndex leaf + 1) (t + 1) leaves))"

partial_function (option) rebuild_loop ::
  "crypto_prims \<Rightarrow> log_service \<Rightarrow> 's log_store \<Rightarrow> (nat \<Rightarrow> int64) \<Rightarrow> 's \<Rightarrow> GlobalLogState \<Rightarrow> uint64 \<Rightarrow> nat \<Rightarrow>
   ('s \<times> (GlobalLogState \<times> nat) res) option" where
  "rebuild_loop prims svc st clock s state nextLeafIndex t =
     (case ls_ListGlobalLeavesRange st s nextLeafIndex 1024 of
        Inl e \<Rightarrow> Some (s, Inl e)
      | Inr leaves \<Rightarrow>
          if leaves = [] then Some (s, Inr (state, t))
          else (case rebuild_leaves prims svc st clock s state nextLeafIndex t leaves of
                  (s', Inl e) \<Rightarrow> Some (s', Inl e)
                | (s', Inr (state', next', t')) \<Rightarrow> rebuild_loop prims svc st clock s' state' next' t'))"

declare rebuild_loop.simps [code]

definition loadState ::
  "crypto_prims \<Rightarrow> log_service \<Rightarrow> 's log_store \<Rightarrow> (nat \<Rightarrow> int64) \<Rightarrow> 's \<Rightarrow> ('s \<times> (GlobalLogState \<times> nat) res) option" where
  "loadState prims svc st clock s =
     (case ls_GetGlobalLogState st s of
        Inl e \<Rightarrow> Some (s, Inl e)
      | Inr (Some state) \<Rightarrow>
          Some (s, checked (map_option (\<lambda>e. Wrap CodeDataLoss ''global log state crypto_suite'' (Some e))
            (RequireSame (provider_Suite (svc_provider svc)) [gstate_CryptoSuite state])) (Inr (state, 0)))
      | Inr None \<Rightarrow>
          Option.bind (rebuild_loop prims svc st clock s
              \<lparr>gstate_SchemaVersion = SchemaGlobalLogState, gstate_CryptoSuite = provider_Suite (svc_provider svc),
               gstate_TreeSize = 0, gstate_RootHash = [], gstate_Frontier = [], gstate_UpdatedAtUnixN = 0\<rparr> 0 0)
            (\<lambda>(s', r). case r of
               Inl e \<Rightarrow> Some (s', Inl e)
             | Inr (state, t) \<Rightarrow>
                 if gstate_TreeSize state > 0
                 then (case ls_PutGlobalLogState st s' state of
                         (s'', Some e) \<Rightarrow> Some (s'', Inl e)
                       | (s'', None) \<Rightarrow> Some (s'', Inr (state, t)))
                 else Some (s', Inr (state, t))))"

definition validateGlobalLogReplayRoot :: "BatchRoot \<Rightarrow> BatchRoot \<Rightarrow> go_error option" where
  "validateGlobalLogReplayRoot existing incoming =
     err_if (broot_BatchID existing \<noteq> broot_BatchID incoming \<or> broot_CryptoSuite existing \<noteq> broot_CryptoSuite incoming \<or>
             broot_NodeID existing \<noteq> broot_NodeID incoming \<or> broot_LogID existing \<noteq> broot_LogID incoming \<or>
             broot_TreeSize existing \<noteq> broot_TreeSize incoming \<or>
             broot_ClosedAtUnixN existing \<noteq> broot_ClosedAtUnixN incoming \<or>
             broot_BatchRoot existing \<noteq> broot_BatchRoot incoming)
       (New CodeDataLoss ''global log batch_id replay does not match the original batch root'')"

definition validateGlobalLogReplayLeaf :: "GlobalLogLeaf \<Rightarrow> BatchRoot \<Rightarrow> go_error option" where
  "validateGlobalLogReplayLeaf existing incoming =
     err_if (gleaf_BatchID existing \<noteq> broot_BatchID incoming \<or> gleaf_CryptoSuite existing \<noteq> broot_CryptoSuite incoming \<or>
             gleaf_NodeID existing \<noteq> broot_NodeID incoming \<or> gleaf_LogID existing \<noteq> broot_LogID incoming \<or>
             gleaf_BatchTreeSize existing \<noteq> broot_TreeSize incoming \<or>
             gleaf_BatchClosedAtUnixN existing \<noteq> broot_ClosedAtUnixN incoming \<or>
             gleaf_BatchRoot existing \<noteq> broot_BatchRoot incoming)
       (New CodeDataLoss ''global log batch_id conflicts with the durable leaf'')"

text \<open>The identity a root is appended under: trimmed, and the stream's own where it is empty.\<close>

definition stream_root :: "log_service \<Rightarrow> BatchRoot \<Rightarrow> BatchRoot" where
  "stream_root svc root =
     root\<lparr>broot_NodeID := (if TrimSpace (broot_NodeID root) = '''' then svc_nodeID svc else TrimSpace (broot_NodeID root)),
          broot_LogID := (if TrimSpace (broot_LogID root) = '''' then svc_logID svc else TrimSpace (broot_LogID root))\<rparr>"

definition new_leaf :: "log_service \<Rightarrow> int64 \<Rightarrow> GlobalLogState \<Rightarrow> BatchRoot \<Rightarrow> GlobalLogLeaf" where
  "new_leaf svc now state root =
     \<lparr>gleaf_SchemaVersion = SchemaGlobalLogLeaf, gleaf_CryptoSuite = provider_Suite (svc_provider svc),
      gleaf_NodeID = broot_NodeID root, gleaf_LogID = broot_LogID root, gleaf_BatchID = broot_BatchID root,
      gleaf_BatchRoot = broot_BatchRoot root, gleaf_BatchTreeSize = broot_TreeSize root,
      gleaf_BatchClosedAtUnixN = broot_ClosedAtUnixN root, gleaf_LeafIndex = gstate_TreeSize state,
      gleaf_LeafHash = [], gleaf_AppendedAtUnixN = now\<rparr>"

text \<open>The loop of \<open>appendBatchRootsOnce\<close>: what to append and the tree head of every root.\<close>

fun plan_roots ::
  "crypto_prims \<Rightarrow> encoders \<Rightarrow> go_context \<Rightarrow> log_service \<Rightarrow> 's log_store \<Rightarrow> (nat \<Rightarrow> int64) \<Rightarrow> 's \<Rightarrow>
   GlobalLogState \<Rightarrow> GlobalLogAppend list \<Rightarrow> (string \<Rightarrow> (SignedTreeHead \<times> BatchRoot) option) \<Rightarrow> SignedTreeHead list \<Rightarrow> nat \<Rightarrow>
   BatchRoot list \<Rightarrow> (GlobalLogAppend list \<times> SignedTreeHead list) res" where
  "plan_roots prims encs ctx svc st clock s state appends planned sths t [] = Inr (appends, sths)"
| "plan_roots prims encs ctx svc st clock s state appends planned sths t (root0 # roots) =
     (let root = stream_root svc root0 in
      if broot_NodeID root \<noteq> svc_nodeID svc \<or> broot_LogID root \<noteq> svc_logID svc
      then Inl (New CodeInvalidArgument ''global log batch root identity does not match signer stream'')
      else case planned (broot_BatchID root) of
        Some (sth, original) \<Rightarrow>
          checked (validateGlobalLogReplayRoot original root)
            (plan_roots prims encs ctx svc st clock s state appends planned (sths @ [sth]) t roots)
      | None \<Rightarrow>
          bind_res (ls_GetGlobalLeafByBatchID st s (broot_BatchID root)) (\<lambda>found.
          case found of
            Some existing \<Rightarrow>
              checked (validateGlobalLogReplayLeaf existing root)
             (bind_res (ls_GetSignedTreeHead st s (gleaf_LeafIndex existing + 1)) (\<lambda>sth.
              case sth of
                None \<Rightarrow> Inl (New CodeDataLoss ''global log leaf exists without matching signed tree head'')
              | Some sth \<Rightarrow>
                  if sth_NodeID sth \<noteq> svc_nodeID svc \<or> sth_LogID sth \<noteq> svc_logID svc
                  then Inl (New CodeDataLoss ''global log replay signed tree head identity does not match signer stream'')
                  else plan_roots prims encs ctx svc st clock s state appends (planned(broot_BatchID root \<mapsto> (sth, root)))
                         (sths @ [sth]) t roots))
          | None \<Rightarrow>
              bind_res (map_err (\<lambda>e. Wrap CodeInternal ''hash global log leaf'' (Some e))
                (HashLeafWithProvider prims encs (Some (svc_provider svc)) (new_leaf svc (clock t) state root))) (\<lambda>h.
              let leaf = (new_leaf svc (clock t) state root)\<lparr>gleaf_LeafHash := h\<rparr> in
              bind_res (appendState prims svc (clock (t + 1)) state leaf) (\<lambda>(nextState, nodes).
              bind_res (signSTHFromState prims encs ctx svc (clock (t + 2)) nextState) (\<lambda>sth.
              plan_roots prims encs ctx svc st clock s nextState
                (appends @ [\<lparr>gapp_Leaf = leaf, gapp_Nodes = nodes, gapp_State = nextState, gapp_STH = sth\<rparr>])
                (planned(broot_BatchID root \<mapsto> (sth, root))) (sths @ [sth]) (t + 3) roots)))))"

fun commit_each :: "'s log_store \<Rightarrow> 's \<Rightarrow> GlobalLogAppend list \<Rightarrow> 's \<times> go_error option" where
  "commit_each st s [] = (s, None)"
| "commit_each st s (entry # entries) =
     (case ls_CommitGlobalLogAppend st s entry of
        (s', Some e) \<Rightarrow> (s', Some e)
      | (s', None) \<Rightarrow> commit_each st s' entries)"

definition commit_appends :: "'s log_store \<Rightarrow> 's \<Rightarrow> GlobalLogAppend list \<Rightarrow> 's \<times> go_error option" where
  "commit_appends st s appends =
     (if appends = [] then (s, None)
      else case ls_CommitGlobalLogAppends st of
        Some commit \<Rightarrow> commit s appends
      | None \<Rightarrow> commit_each st s appends)"

text \<open>
  An error comes with the flag \<open>retryable\<close>. Other writers of a shared store may act between
  reading the log and committing: \<open>between\<close> is what they do to the store.
\<close>

definition appendBatchRootsOnce ::
  "crypto_prims \<Rightarrow> encoders \<Rightarrow> go_context \<Rightarrow> log_service \<Rightarrow> 's log_store \<Rightarrow> (nat \<Rightarrow> int64) \<Rightarrow> ('s \<Rightarrow> 's) \<Rightarrow> 's \<Rightarrow>
   BatchRoot list \<Rightarrow> ('s \<times> ((bool \<times> go_error) + SignedTreeHead list)) option" where
  "appendBatchRootsOnce prims encs ctx svc st clock between s roots =
     Option.bind (loadState prims svc st clock s) (\<lambda>(s, r).
       case r of
         Inl e \<Rightarrow> Some (s, Inl (False, e))
       | Inr (state, t) \<Rightarrow>
           (case plan_roots prims encs ctx svc st clock s state [] Map.empty [] t roots of
              Inl e \<Rightarrow> Some (s, Inl (False, e))
            | Inr (appends, sths) \<Rightarrow>
                (case commit_appends st (between s) appends of
                   (s', Some e) \<Rightarrow> Some (s', Inl (CodeOf (Some e) = CodeFailedPrecondition, e))
                 | (s', None) \<Rightarrow> Some (s', Inr sths))))"

text \<open>
  The retry loop. \<open>cancelled i\<close> is \<open>ctx.Err()\<close> when the wait after attempt \<open>i\<close> ends
  with \<open>ctx.Done()\<close>; \<open>other (2 * i)\<close> is what other writers do to the store during attempt
  \<open>i\<close> and \<open>other (2 * i + 1)\<close> what they do in the wait after it.
\<close>

function append_loop ::
  "crypto_prims \<Rightarrow> encoders \<Rightarrow> go_context \<Rightarrow> log_service \<Rightarrow> 's log_store \<Rightarrow> (nat \<Rightarrow> nat \<Rightarrow> int64) \<Rightarrow> (nat \<Rightarrow> go_context) \<Rightarrow>
   (nat \<Rightarrow> 's \<Rightarrow> 's) \<Rightarrow> BatchRoot list \<Rightarrow> nat \<Rightarrow> 's \<Rightarrow> ('s \<times> SignedTreeHead list res) option" where
  "append_loop prims encs ctx svc st clock cancelled other roots attempt s =
     Option.bind (appendBatchRootsOnce prims encs ctx svc st (clock attempt) (other (2 * attempt)) s roots) (\<lambda>(s', r).
       case r of
         Inr sths \<Rightarrow> Some (s', Inr sths)
       | Inl (retryable, e) \<Rightarrow>
           if \<not> retryable \<or> attempt + 1 \<ge> 16 then Some (s', Inl e)
           else case cancelled attempt of
             Some e' \<Rightarrow> Some (s', Inl e')
           | None \<Rightarrow> append_loop prims encs ctx svc st clock cancelled other roots (attempt + 1) (other (2 * attempt + 1) s'))"
  by pat_completeness auto
termination
  by (relation "measure (\<lambda>(prims, encs, ctx, svc, st, clock, cancelled, other, roots, attempt, s). 16 - attempt)") auto

declare append_loop.simps [simp del]

definition AppendBatchRoots ::
  "crypto_prims \<Rightarrow> encoders \<Rightarrow> go_context \<Rightarrow> log_service \<Rightarrow> 's log_store \<Rightarrow> (nat \<Rightarrow> nat \<Rightarrow> int64) \<Rightarrow> (nat \<Rightarrow> go_context) \<Rightarrow>
   (nat \<Rightarrow> 's \<Rightarrow> 's) \<Rightarrow> 's \<Rightarrow> BatchRoot list \<Rightarrow> ('s \<times> SignedTreeHead list res) option" where
  "AppendBatchRoots prims encs ctx svc st clock cancelled other s roots =
     (case first_err
       ([err_if (svc_signer svc = None) (New CodeFailedPrecondition ''global log signer is not configured''),
         err_if (roots = []) (New CodeInvalidArgument ''global log append requires at least one batch root'')] @
        map (\<lambda>root. first_err
          [map_option (\<lambda>e. Wrap CodeInvalidArgument ''global log batch root %d crypto_suite'' (Some e))
             (RequireSame (provider_Suite (svc_provider svc)) [broot_CryptoSuite root]),
           err_if (broot_BatchID root = '''') (New CodeInvalidArgument ''global log batch_id is required''),
           err_if (length (broot_BatchRoot root) \<noteq> profile_Size (svc_profile svc))
             (New CodeInvalidArgument ''global log batch_root has the wrong digest size'')]) roots) of
        Some e \<Rightarrow> Some (s, Inl e)
      | None \<Rightarrow> append_loop prims encs ctx svc st clock cancelled other roots 0 s)"

definition AppendBatchRoot ::
  "crypto_prims \<Rightarrow> encoders \<Rightarrow> go_context \<Rightarrow> log_service \<Rightarrow> 's log_store \<Rightarrow> (nat \<Rightarrow> nat \<Rightarrow> int64) \<Rightarrow> (nat \<Rightarrow> go_context) \<Rightarrow>
   (nat \<Rightarrow> 's \<Rightarrow> 's) \<Rightarrow> 's \<Rightarrow> BatchRoot \<Rightarrow> ('s \<times> SignedTreeHead res) option" where
  "AppendBatchRoot prims encs ctx svc st clock cancelled other s root =
     map_option (\<lambda>(s', r). (s', bind_res r (\<lambda>sths. Inr (sths ! 0))))
       (AppendBatchRoots prims encs ctx svc st clock cancelled other s [root])"

section \<open>Subtrees and proofs\<close>

text \<open>\<open>bits.Len64\<close> and \<open>bits.TrailingZeros64\<close> on the value of a word.\<close>

fun bit_len :: "nat \<Rightarrow> nat" where
  "bit_len n = (if n = 0 then 0 else Suc (bit_len (n div 2)))"

fun trailing_zeros :: "nat \<Rightarrow> nat" where
  "trailing_zeros n = (if n = 0 \<or> odd n then 0 else Suc (trailing_zeros (n div 2)))"

declare bit_len.simps [simp del] trailing_zeros.simps [simp del]

definition gl_largestPowerOfTwoLessThan64 :: "uint64 \<Rightarrow> uint64" where
  "gl_largestPowerOfTwoLessThan64 n = (if n < 2 then 0 else push_bit (bit_len (unat (n - 1)) - 1) 1)"

definition isPowerOfTwo :: "uint64 \<Rightarrow> bool" where
  "isPowerOfTwo n \<longleftrightarrow> n > 0 \<and> n AND (n - 1) = 0"

lemma bit_len_pow2: "0 < n \<Longrightarrow> 2 ^ (bit_len n - 1) \<le> n \<and> n < 2 * 2 ^ (bit_len n - 1)"
proof (induction n rule: bit_len.induct)
  case (1 n)
  show ?case
  proof (cases "n = 1")
    case True
    then show ?thesis by (simp add: bit_len.simps)
  next
    case False
    with 1 have IH: "2 ^ (bit_len (n div 2) - 1) \<le> n div 2 \<and> n div 2 < 2 * 2 ^ (bit_len (n div 2) - 1)"
      by simp
    moreover have "bit_len n - 1 = Suc (bit_len (n div 2) - 1)"
      using False 1(2) bit_len.simps [of n] bit_len.simps [of "n div 2"] by auto
    ultimately show ?thesis
      by simp linarith
  qed
qed

lemma unat_push_bit_1: "j < 64 \<Longrightarrow> unat (push_bit j (1 :: uint64)) = 2 ^ j"
proof -
  assume "j < 64"
  then have "(2 :: nat) ^ j < 2 ^ 64" by (rule power_strict_increasing) simp
  then have "unat (word_of_nat (2 ^ j) :: uint64) = 2 ^ j"
    unfolding unat_of_nat by simp
  then show ?thesis by (simp add: push_bit_eq_mult)
qed

lemma unat_gl_largestPowerOfTwoLessThan64: "unat (gl_largestPowerOfTwoLessThan64 n) = lpt (unat n)"
proof (cases "n < 2")
  case True
  then have "unat n < 2" by (simp add: word_less_nat_alt)
  with True show ?thesis by (simp add: gl_largestPowerOfTwoLessThan64_def)
next
  case False
  then have n: "2 \<le> unat n" by (simp add: word_less_nat_alt)
  define j where "j = bit_len (unat (n - 1)) - 1"
  have "unat (n - 1) = unat n - 1"
    using n by (simp add: unat_sub word_le_nat_alt)
  with bit_len_pow2 [of "unat (n - 1)"] n have j: "2 ^ j < unat n" "unat n \<le> 2 * 2 ^ j"
    by (auto simp: j_def)
  have "(2 :: nat) ^ j < 2 ^ 64"
    using j(1) unsigned_less [of n, where 'a = nat] by simp
  then have "j < 64" by (rule power_less_imp_less_exp [rotated]) simp
  then show ?thesis
    using False lpt_eqI [OF j] unat_push_bit_1 by (simp add: gl_largestPowerOfTwoLessThan64_def j_def)
qed

lemma gl_split_less:
  assumes "\<not> w < (2 :: uint64)"
  shows "unat (gl_largestPowerOfTwoLessThan64 w) < unat w"
    "unat (w - gl_largestPowerOfTwoLessThan64 w) = unat w - lpt (unat w)"
    "unat (w - gl_largestPowerOfTwoLessThan64 w) < unat w"
proof -
  have "2 \<le> unat w" using assms by (simp add: word_less_nat_alt)
  note b = lpt_bounds [OF this]
  then show "unat (gl_largestPowerOfTwoLessThan64 w) < unat w"
    by (simp add: unat_gl_largestPowerOfTwoLessThan64)
  show *: "unat (w - gl_largestPowerOfTwoLessThan64 w) = unat w - lpt (unat w)"
    using b by (simp add: unat_sub word_le_nat_alt unat_gl_largestPowerOfTwoLessThan64)
  show "unat (w - gl_largestPowerOfTwoLessThan64 w) < unat w"
    using b by (simp add: *)
qed

lemma gl_half_less:
  assumes "\<not> w < (2 :: uint64)"
  shows "unat (w div 2) < unat w" "unat (w - w div 2) < unat w"
proof -
  have w: "2 \<le> unat w" using assms by (simp add: word_less_nat_alt)
  then show "unat (w div 2) < unat w" by (simp add: unat_div)
  show "unat (w - w div 2) < unat w"
    using w by (simp add: unat_sub word_le_nat_alt unat_div)
qed

lemma word_ge_2:
  assumes "w \<noteq> 0" "w \<noteq> (1 :: uint64)"
  shows "\<not> w < 2"
proof
  assume "w < 2"
  then have "unat w = 0 \<or> unat w = 1" by (auto simp: word_less_nat_alt)
  with assms show False by (auto simp: word_unat_eq_iff)
qed

lemma range_ge_2:
  assumes "f \<noteq> 0" "\<not> w < f" "f \<noteq> w"
  shows "\<not> w < (2 :: uint64)"
proof (rule word_ge_2)
  show "w \<noteq> 0" using assms(1,2) by (auto simp: word_neq_0_conv)
  show "w \<noteq> 1"
    using assms by (auto simp: word_less_nat_alt word_unat_eq_iff)
qed

text \<open>The split of \<open>subtreeRoot\<close>: half of a power of two.\<close>

definition subtree_split :: "uint64 \<Rightarrow> uint64" where
  "subtree_split width =
     (if isPowerOfTwo width then width div 2 else gl_largestPowerOfTwoLessThan64 width)"

function subtreeRoot ::
  "crypto_prims \<Rightarrow> log_service \<Rightarrow> 's log_store \<Rightarrow> 's \<Rightarrow> uint64 \<Rightarrow> uint64 \<Rightarrow> bytes res" where
  "subtreeRoot prims svc st s start width =
     (if width = 0 then Inl (New CodeInvalidArgument ''global subtree width is zero'')
      else if width = 1 then
        bind_res (ls_GetGlobalLeaf st s start) (\<lambda>leaf.
        case leaf of
          None \<Rightarrow> Inl (New CodeNotFound ''global log leaf not found'')
        | Some leaf \<Rightarrow> Inr (gleaf_LeafHash leaf))
      else
        bind_res (if isPowerOfTwo width
            then ls_GetGlobalLogNode st s (word_of_nat (trailing_zeros (unat width))) start
            else Inr None) (\<lambda>node.
        case node of
          Some node \<Rightarrow> Inr (gnode_Hash node)
        | None \<Rightarrow>
            let k = subtree_split width in
            bind_res (subtreeRoot prims svc st s start k) (\<lambda>left.
            bind_res (subtreeRoot prims svc st s (start + k) (width - k)) (\<lambda>right.
            HashNodeForSuite prims (prof_suite (svc_profile svc)) (prof_algorithm (svc_profile svc)) left right))))"
  by pat_completeness auto
termination
proof (relation "measure (\<lambda>(prims, svc, st, s, start, width). unat width)")
  fix prims svc st s start and width k :: uint64
  assume w: "width \<noteq> 0" "width \<noteq> 1" and k: "k = subtree_split width"
  from word_ge_2 [OF w] k show "((prims, svc, st, s, start, k), prims, svc, st, s, start, width)
      \<in> measure (\<lambda>(prims, svc, st, s, start, width). unat width)"
    "((prims, svc, st, s, start + k, width - k), prims, svc, st, s, start, width)
      \<in> measure (\<lambda>(prims, svc, st, s, start, width). unat width)"
    by (auto simp: subtree_split_def gl_split_less(1,3) gl_half_less)
qed simp

declare subtreeRoot.simps [simp del]

function Service_auditPath ::
  "crypto_prims \<Rightarrow> log_service \<Rightarrow> 's log_store \<Rightarrow> 's \<Rightarrow> uint64 \<Rightarrow> uint64 \<Rightarrow> uint64 \<Rightarrow> bytes list res" where
  "Service_auditPath prims svc st s leafIndex start width =
     (if width = 0 \<or> leafIndex < start \<or> leafIndex \<ge> start + width
      then Inl (New CodeInvalidArgument ''global audit path range is invalid'')
      else if width = 1 then Inr []
      else
        let k = gl_largestPowerOfTwoLessThan64 width in
        if leafIndex < start + k
        then bind_res (Service_auditPath prims svc st s leafIndex start k) (\<lambda>path.
             bind_res (subtreeRoot prims svc st s (start + k) (width - k)) (\<lambda>right. Inr (path @ [right])))
        else bind_res (Service_auditPath prims svc st s leafIndex (start + k) (width - k)) (\<lambda>path.
             bind_res (subtreeRoot prims svc st s start k) (\<lambda>left. Inr (path @ [left]))))"
  by pat_completeness auto
termination
  by (relation "measure (\<lambda>(prims, svc, st, s, leafIndex, start, width). unat width)")
    (auto simp: gl_split_less(1,3) word_ge_2)

declare Service_auditPath.simps [simp del]

function consistencyProofRange ::
  "crypto_prims \<Rightarrow> log_service \<Rightarrow> 's log_store \<Rightarrow> 's \<Rightarrow> uint64 \<Rightarrow> uint64 \<Rightarrow> uint64 \<Rightarrow> bool \<Rightarrow> bytes list res" where
  "consistencyProofRange prims svc st s start width from_size complete =
     (if from_size = 0 \<or> from_size > width
      then Inl (New CodeInvalidArgument ''invalid consistency proof range'')
      else if from_size = width then
        (if complete then Inr []
         else bind_res (subtreeRoot prims svc st s start width) (\<lambda>root. Inr [root]))
      else
        let k = gl_largestPowerOfTwoLessThan64 width in
        if from_size \<le> k
        then bind_res (consistencyProofRange prims svc st s start k from_size complete) (\<lambda>left.
             bind_res (subtreeRoot prims svc st s (start + k) (width - k)) (\<lambda>right. Inr (left @ [right])))
        else bind_res (consistencyProofRange prims svc st s (start + k) (width - k) (from_size - k) False) (\<lambda>right.
             bind_res (subtreeRoot prims svc st s start k) (\<lambda>left. Inr (right @ [left]))))"
  by pat_completeness auto
termination
  by (relation "measure (\<lambda>(prims, svc, st, s, start, width, from_size, complete). unat width)")
    (auto, (metis gl_split_less(1,3) range_ge_2)+)

declare consistencyProofRange.simps [simp del]

section \<open>Reading the log\<close>

definition InclusionProof ::
  "crypto_prims \<Rightarrow> log_service \<Rightarrow> 's log_store \<Rightarrow> 's \<Rightarrow> string \<Rightarrow> uint64 \<Rightarrow> 's \<times> GlobalLogProof res" where
  "InclusionProof prims svc st s batchID treeSize =
     (case ls_GetGlobalLeafByBatchID st s batchID of
        Inl e \<Rightarrow> (s, Inl e)
      | Inr None \<Rightarrow> (s, Inl (New CodeNotFound ''global log leaf not found''))
      | Inr (Some leaf) \<Rightarrow>
          (case (if treeSize = 0
              then (case ls_LatestSignedTreeHead st s of
                      (s', Inl e) \<Rightarrow> (s', Inl e)
                    | (s', Inr None) \<Rightarrow> (s', Inl (New CodeNotFound ''signed tree head not found''))
                    | (s', Inr (Some latest)) \<Rightarrow> (s', Inr (sth_TreeSize latest)))
              else (s, Inr treeSize)) of
             (s', Inl e) \<Rightarrow> (s', Inl e)
           | (s', Inr treeSize) \<Rightarrow> (s',
               if gleaf_LeafIndex leaf \<ge> treeSize
               then Inl (New CodeFailedPrecondition ''batch is not included in requested STH'')
               else
                 bind_res (ls_GetSignedTreeHead st s' treeSize) (\<lambda>sth.
                 bind_res (non_nil (New CodeNotFound ''signed tree head not found'') sth) (\<lambda>sth.
                 bind_res (map_err (\<lambda>e. Wrap CodeInternal ''build global inclusion proof'' (Some e))
                   (Service_auditPath prims svc st s' (gleaf_LeafIndex leaf) 0 treeSize)) (\<lambda>path.
                 Inr \<lparr>gproof_SchemaVersion = SchemaGlobalLogProof, gproof_CryptoSuite = provider_Suite (svc_provider svc),
                      gproof_NodeID = gleaf_NodeID leaf, gproof_LogID = gleaf_LogID leaf, gproof_BatchID = batchID,
                      gproof_LeafIndex = gleaf_LeafIndex leaf, gproof_LeafHash = gleaf_LeafHash leaf,
                      gproof_TreeSize = treeSize, gproof_InclusionPath = path, gproof_STH = sth,
                      gproof_Consistency = zero_GlobalConsistencyProof\<rparr>))))))"

text \<open>\<open>None\<close> is \<open>available = false\<close>.\<close>

definition latestAnchorResult ::
  "log_service \<Rightarrow> 's log_store \<Rightarrow> 's \<Rightarrow> STHAnchorResult option res option" where
  "latestAnchorResult svc st s =
     (case svc_anchorKey svc of
        Some key \<Rightarrow>
          (case ls_LatestSTHAnchorResultForKey st of
             None \<Rightarrow> Some (Inl (New CodeFailedPrecondition ''global evidence store does not support keyed anchor lookup''))
           | Some reader \<Rightarrow> Some (reader s key))
      | None \<Rightarrow>
          (case ls_LatestSTHAnchorResult st of
             None \<Rightarrow> None
           | Some reader \<Rightarrow> Some (reader s)))"

text \<open>
  The anchor result \<open>Evidence\<close> builds on: one that gives offline L5 by itself, or a raw FISCO
  BCOS result.
\<close>

definition usable_anchor ::
  "STHAnchorResult option res option \<Rightarrow> STHAnchorResult option res" where
  "usable_anchor latest =
     (case latest of
        None \<Rightarrow> Inr None
      | Some (Inl e) \<Rightarrow> Inl e
      | Some (Inr None) \<Rightarrow> Inr None
      | Some (Inr (Some result)) \<Rightarrow>
          if \<not> ValidAnchorEvidenceStage (ares_EvidenceStage result)
          then Inl (New CodeDataLoss ''latest STH anchor result has an unknown evidence stage'')
          else if \<not> AnchorResultProvidesOfflineL5 result \<and>
            \<not> (ares_SinkName result = fiscobcos_SinkName \<and> ares_EvidenceStage result = AnchorEvidenceStageRaw)
          then Inr None
          else if ares_TreeSize result = 0
          then Inl (New CodeDataLoss ''latest STH anchor result has an empty tree size'')
          else Inr (Some result))"

definition Service_Evidence :: "crypto_prims \<Rightarrow> log_service \<Rightarrow> 's log_store \<Rightarrow> 's \<Rightarrow> string \<Rightarrow> 's \<times> GlobalLogEvidence res" where
  "Service_Evidence prims svc st s batchID =
     (let fallback = (case InclusionProof prims svc st s batchID 0 of
        (s', r) \<Rightarrow> (s', bind_res r (\<lambda>pf. Inr \<lparr>gevid_GlobalProof = pf, gevid_AnchorResult = None\<rparr>)))
      in
      case ls_GetGlobalLeafByBatchID st s batchID of
        Inl e \<Rightarrow> (s, Inl e)
      | Inr None \<Rightarrow> (s, Inl (New CodeNotFound ''global log leaf not found''))
      | Inr (Some leaf) \<Rightarrow>
          (case usable_anchor (latestAnchorResult svc st s) of
             Inl e \<Rightarrow> (s, Inl e)
           | Inr None \<Rightarrow> fallback
           | Inr (Some result) \<Rightarrow>
               if gleaf_LeafIndex leaf < ares_TreeSize result
               then (case InclusionProof prims svc st s batchID (ares_TreeSize result) of
                       (s', r) \<Rightarrow> (s', bind_res r (\<lambda>pf.
                         checked (first_err
                           [err_if (ares_RootHash result \<noteq> sth_RootHash (gproof_STH pf))
                              (New CodeDataLoss ''latest STH anchor root does not match signed tree head''),
                            err_if (ares_NodeID result \<noteq> '''' \<and> sth_NodeID (gproof_STH pf) \<noteq> '''' \<and>
                                    ares_NodeID result \<noteq> sth_NodeID (gproof_STH pf))
                              (New CodeDataLoss ''latest STH anchor node does not match signed tree head''),
                            err_if (ares_LogID result \<noteq> '''' \<and> sth_LogID (gproof_STH pf) \<noteq> '''' \<and>
                                    ares_LogID result \<noteq> sth_LogID (gproof_STH pf))
                              (New CodeDataLoss ''latest STH anchor log does not match signed tree head'')])
                        (Inr \<lparr>gevid_GlobalProof = pf, gevid_AnchorResult = Some result\<rparr>))))
               else fallback))"

definition ConsistencyProof ::
  "crypto_prims \<Rightarrow> log_service \<Rightarrow> 's log_store \<Rightarrow> 's \<Rightarrow> uint64 \<Rightarrow> uint64 \<Rightarrow> GlobalConsistencyProof res" where
  "ConsistencyProof prims svc st s from_size to_size =
     (if from_size = 0 \<or> to_size = 0 \<or> from_size > to_size
      then Inl (New CodeInvalidArgument ''consistency proof requires 0 < from <= to'')
      else bind_res (consistencyProofRange prims svc st s 0 to_size from_size True) (\<lambda>path.
        Inr \<lparr>gcons_FromTreeSize = from_size, gcons_ToTreeSize = to_size, gcons_AuditPath = path\<rparr>))"

definition history_tile :: "log_service \<Rightarrow> int64 \<Rightarrow> GlobalLogLeaf list \<Rightarrow> GlobalLogTile" where
  "history_tile svc now leaves =
     \<lparr>gtile_SchemaVersion = SchemaGlobalLogTile, gtile_CryptoSuite = provider_Suite (svc_provider svc),
      gtile_Level = 0, gtile_StartIndex = gleaf_LeafIndex (hd leaves), gtile_Width = word_of_nat (length leaves),
      gtile_Hashes = map gleaf_LeafHash leaves, gtile_Compressed = True, gtile_CreatedAtUnixN = now\<rparr>"

partial_function (option) compact_loop ::
  "log_service \<Rightarrow> 's log_store \<Rightarrow> (nat \<Rightarrow> int64) \<Rightarrow> int \<Rightarrow> 's \<Rightarrow> uint64 \<Rightarrow> nat \<Rightarrow> ('s \<times> nat \<times> go_error option) option" where
  "compact_loop svc st clock limit s start written =
     (case ls_ListGlobalLeavesRange st s start limit of
        Inl e \<Rightarrow> Some (s, written, Some e)
      | Inr leaves \<Rightarrow>
          if leaves = [] then Some (s, written, None)
          else (case ls_PutGlobalLogTile st s (history_tile svc (clock written) leaves) of
                  (s', Some e) \<Rightarrow> Some (s', written, Some e)
                | (s', None) \<Rightarrow> compact_loop svc st clock limit s' (gleaf_LeafIndex (last leaves) + 1) (written + 1)))"

declare compact_loop.simps [code]

definition CompactHistory ::
  "log_service \<Rightarrow> 's log_store \<Rightarrow> (nat \<Rightarrow> int64) \<Rightarrow> 's \<Rightarrow> uint64 \<Rightarrow> ('s \<times> nat \<times> go_error option) option" where
  "CompactHistory svc st clock s tileSize =
     compact_loop svc st clock (sint (if tileSize = 0 then 256 else tileSize)) s 0 0"

section \<open>Consistency proofs over a list of leaf hashes\<close>

text \<open>
  The reference construction kept beside the store-backed one. A slice length fits Go's
  \<open>int\<close>; a call that recurses for ever is \<open>None\<close>.
\<close>

definition gl_largestPowerOfTwoLessThan :: "nat \<Rightarrow> nat" where
  "gl_largestPowerOfTwoLessThan n = pow2_loop 1 n"

partial_function (option) subproof ::
  "crypto_prims \<Rightarrow> bytes list \<Rightarrow> nat \<Rightarrow> bool \<Rightarrow> bytes list res option" where
  "subproof prims leaves from_size complete =
     (if from_size = length leaves then
        Some (if complete then Inr []
              else bind_res (RootFromLeaves prims leaves) (\<lambda>root. Inr [root]))
      else
        let k = gl_largestPowerOfTwoLessThan (length leaves) in
        if from_size \<le> k
        then Option.bind (subproof prims (take k leaves) from_size complete) (\<lambda>r. Some (
             bind_res r (\<lambda>left.
             bind_res (RootFromLeaves prims (drop k leaves)) (\<lambda>right. Inr (left @ [right])))))
        else Option.bind (subproof prims (drop k leaves) (from_size - k) False) (\<lambda>r. Some (
             bind_res r (\<lambda>right.
             bind_res (RootFromLeaves prims (take k leaves)) (\<lambda>left. Inr (right @ [left]))))))"

declare subproof.simps [code]

definition consistencyProof :: "crypto_prims \<Rightarrow> bytes list \<Rightarrow> uint64 \<Rightarrow> bytes list res option" where
  "consistencyProof prims leaves from_size =
     (if from_size = 0 \<or> unat from_size > length leaves
      then Some (Inl (New CodeInvalidArgument ''invalid consistency proof range''))
      else if unat from_size = length leaves then Some (Inr [])
      else subproof prims leaves (unat from_size) True)"

end
