(* ===== verification/Verify_Bundle.thy ===== *)
theory Verify_Bundle
  imports Ots_Timestamp Claims Global_Log Proof_Level
begin

text \<open>
  \<open>internal/verify/verify.go\<close>: offline verification of a proof bundle, and with it the
  identifiers of anchors (\<open>internal/anchor/file_sink.go\<close>, \<open>ots_sink.go\<close>).

  \<^item> Verification may not return (the Merkle verifier on huge tree sizes) or panic (the
    OpenTimestamps parser), so it is a \<open>run\<close>.
  \<^item> The JSON decoder of the OpenTimestamps envelope and the hash functions of its operations
    are parameters; the anchor verifier of a dynamically configured sink is an argument, as in
    the code.
\<close>

abbreviation FileSinkName :: string where "FileSinkName \<equiv> ''file''"
abbreviation NoopSinkName :: string where "NoopSinkName \<equiv> ''noop''"
abbreviation OtsSinkName :: string where "OtsSinkName \<equiv> ''ots''"
abbreviation SchemaOtsAnchorProof :: string where "SchemaOtsAnchorProof \<equiv> ''trustdb.anchor-ots-proof.v1''"

section \<open>Anchor identifiers\<close>

definition HashBytesForSuite :: "crypto_prims \<Rightarrow> suite_id \<Rightarrow> string \<Rightarrow> bytes \<Rightarrow> bytes res" where
  "HashBytesForSuite prims suiteID alg data =
     bind_res (HashFactoryForSuite suiteID alg) (\<lambda>factory. Inr (factory_Sum prims factory data))"

definition PutUint32 :: "32 word \<Rightarrow> bytes" where
  "PutUint32 v = map (\<lambda>i. ucast (drop_bit (8 * i) v)) [3, 2, 1, 0]"

definition appendLengthFramed :: "bytes \<Rightarrow> bytes \<Rightarrow> bytes" where
  "appendLengthFramed dst val = dst @ PutUint32 (word_of_nat (length val)) @ val"

definition deterministicAnchorID :: "crypto_prims \<Rightarrow> string \<Rightarrow> string \<Rightarrow> SignedTreeHead \<Rightarrow> string res" where
  "deterministicAnchorID prims sinkName pre sth =
     bind_res (map_err (Wrapf ''anchor crypto_suite: %w'') (RequireAvailable (sth_CryptoSuite sth))) (\<lambda>suite.
     checked (first_err
       [err_if (sth_TreeSize sth = 0) (New_err ''tree_size is empty''),
        err_if (length (sth_RootHash sth) \<noteq> hash_DigestBytes (suite_AnchorDigest suite))
          (New_err ''root_hash must be %d bytes for %s, got %d'')])
    (let input = fold (\<lambda>val dst. appendLengthFramed dst val)
           [string_bytes ''trustdb.anchor-id.v2'', string_bytes sinkName, string_bytes (sth_CryptoSuite sth),
            string_bytes (sth_NodeID sth), string_bytes (sth_LogID sth), PutUint64 (sth_TreeSize sth), sth_RootHash sth] []
     in bind_res (map_err (Wrapf ''hash anchor id: %w'')
          (HashBytesForSuite prims (sth_CryptoSuite sth) (hash_Algorithm (suite_AnchorDigest suite)) input)) (\<lambda>digest.
        Inr (pre @ take 32 (hex_EncodeToString digest)))))"

definition id_or_empty :: "string res \<Rightarrow> string" where
  "id_or_empty r = (case r of Inl _ \<Rightarrow> '''' | Inr i \<Rightarrow> i)"

definition DeterministicFileAnchorID :: "crypto_prims \<Rightarrow> SignedTreeHead \<Rightarrow> string" where
  "DeterministicFileAnchorID prims sth = id_or_empty (deterministicAnchorID prims FileSinkName ''file2-'' sth)"

definition DeterministicNoopAnchorID :: "crypto_prims \<Rightarrow> SignedTreeHead \<Rightarrow> string" where
  "DeterministicNoopAnchorID prims sth = id_or_empty (deterministicAnchorID prims NoopSinkName ''noop2-'' sth)"

definition DeterministicOtsAnchorID :: "crypto_prims \<Rightarrow> SignedTreeHead \<Rightarrow> string" where
  "DeterministicOtsAnchorID prims sth =
     (if sth_CryptoSuite sth \<noteq> INTLV1 then ''''
      else id_or_empty (deterministicAnchorID prims OtsSinkName ''ots2-'' sth))"

record OtsCalendarTimestamp =
  ocal_URL :: string
  ocal_Accepted :: bool
  ocal_RawTimestamp :: bytes
  ocal_StatusCode :: int
  ocal_Error :: string
  ocal_ElapsedMillis :: int64
  ocal_Upgraded :: bool

record OtsAnchorProof =
  oproof_SchemaVersion :: string
  oproof_TreeSize :: uint64
  oproof_HashAlg :: string
  oproof_Digest :: bytes
  oproof_Calendars :: "OtsCalendarTimestamp list"
  oproof_SubmittedAtN :: int64

definition AllUpgraded :: "OtsAnchorProof option \<Rightarrow> bool" where
  "AllUpgraded p =
     (case p of
        None \<Rightarrow> True
      | Some p \<Rightarrow> \<not> list_ex (\<lambda>c. ocal_Accepted c \<and> \<not> ocal_Upgraded c) (oproof_Calendars p))"

section \<open>Anchors\<close>

definition sameSignedTreeHead :: "SignedTreeHead \<Rightarrow> SignedTreeHead \<Rightarrow> bool" where
  "sameSignedTreeHead left right \<longleftrightarrow>
     sth_SchemaVersion left = sth_SchemaVersion right \<and>
     sth_CryptoSuite left = sth_CryptoSuite right \<and>
     sth_TreeAlg left = sth_TreeAlg right \<and>
     sth_TreeSize left = sth_TreeSize right \<and>
     sth_RootHash left = sth_RootHash right \<and>
     sth_TimestampUnixN left = sth_TimestampUnixN right \<and>
     sth_NodeID left = sth_NodeID right \<and>
     sth_LogID left = sth_LogID right \<and>
     sig_Alg (sth_Signature left) = sig_Alg (sth_Signature right) \<and>
     sig_KeyID (sth_Signature left) = sig_KeyID (sth_Signature right) \<and>
     sig_Signature (sth_Signature left) = sig_Signature (sth_Signature right)"

definition AnchorBindingConsistency :: "GlobalLogProof \<Rightarrow> STHAnchorResult \<Rightarrow> go_error option" where
  "AnchorBindingConsistency pf ar =
     then_err (err_if (ares_SchemaVersion ar \<noteq> SchemaSTHAnchorResult) (New_err ''verify: unexpected anchor result schema: %s''))
    (bind_err (map_err (Wrapf ''verify: anchor result crypto_suite: %w'') (RequireAvailable (ares_CryptoSuite ar))) (\<lambda>suite.
     let sth = gproof_STH pf in
     first_err
      [map_option (Wrapf ''verify: global proof crypto_suite: %w'') (Require (suite_ID suite) (SB_GlobalLogProof pf)),
       map_option (Wrapf ''verify: anchor result crypto_suite: %w'') (Require (suite_ID suite) (SB_STHAnchorResult ar)),
       err_if (ares_EvidenceStage ar \<noteq> AnchorEvidenceStageOfflineVerified)
         (New_err ''verify: anchor evidence stage is not offline_verified: %s''),
       err_if (ares_TreeSize ar \<noteq> sth_TreeSize sth) (New_err ''verify: anchor tree_size mismatch: anchor=%d sth=%d''),
       err_if (ares_NodeID ar = '''' \<or> sth_NodeID sth = '''' \<or> ares_NodeID ar \<noteq> sth_NodeID sth)
         (New_err ''verify: anchor node_id mismatch: anchor=%s sth=%s''),
       err_if (ares_LogID ar = '''' \<or> sth_LogID sth = '''' \<or> ares_LogID ar \<noteq> sth_LogID sth)
         (New_err ''verify: anchor log_id mismatch: anchor=%s sth=%s''),
       err_if (ares_RootHash ar \<noteq> sth_RootHash sth) (New_err ''verify: anchor root_hash does not match STH root''),
       err_if (ares_SinkName ar = '''') (New_err ''verify: anchor result is missing sink_name''),
       err_if (ares_AnchorID ar = '''') (New_err ''verify: anchor result is missing anchor_id''),
       err_if (\<not> sameSignedTreeHead (ares_STH ar) sth)
         (New_err ''verify: anchor signed tree head does not exactly match global proof STH'')]))"

text \<open>The loop over the calendars; \<open>accepted\<close> counts those seen so far.\<close>

fun check_calendars :: "ots_hashes \<Rightarrow> bytes \<Rightarrow> nat \<Rightarrow> OtsCalendarTimestamp list \<Rightarrow> nat run" where
  "check_calendars hs digest accepted [] = run_res (Inr accepted)"
| "check_calendars hs digest accepted (c # cs) =
     (if \<not> ocal_Accepted c then check_calendars hs digest accepted cs
      else check_run (err_if (length (ocal_RawTimestamp c) = 0) (New_err ''verify: ots accepted calendar has empty timestamp''))
       (bind_run (map_run_err (Wrapf ''verify: parse ots timestamp: %w'') (ParseOtsTimestamp hs digest (ocal_RawTimestamp c)))
         (\<lambda>_. check_calendars hs digest (accepted + 1) cs)))"

definition validateOtsAnchorProof ::
  "ots_hashes \<Rightarrow> (bytes \<Rightarrow> OtsAnchorProof res) \<Rightarrow> SignedTreeHead \<Rightarrow> STHAnchorResult \<Rightarrow> unit run" where
  "validateOtsAnchorProof hs json_decode sth ar =
     check_run (err_if (length (ares_Proof ar) = 0) (New_err ''verify: ots anchor proof is empty''))
    (bind_run (run_res (map_err (Wrapf ''verify: decode ots anchor proof: %w'') (json_decode (ares_Proof ar)))) (\<lambda>pf.
     check_run (first_err
       [err_if (oproof_SchemaVersion pf \<noteq> SchemaOtsAnchorProof) (New_err ''verify: unexpected ots anchor proof schema: %s''),
        err_if (oproof_TreeSize pf \<noteq> sth_TreeSize sth) (New_err ''verify: ots anchor proof tree_size mismatch''),
        err_if (oproof_HashAlg pf \<noteq> HashSHA256) (New_err ''verify: unsupported ots anchor proof hash_alg: %s''),
        err_if (oproof_Digest pf \<noteq> sth_RootHash sth) (New_err ''verify: ots anchor proof digest mismatch'')])
    (bind_run (check_calendars hs (oproof_Digest pf) 0 (oproof_Calendars pf)) (\<lambda>accepted.
     check_run (err_if (accepted = 0) (New_err ''verify: ots anchor proof has no accepted calendars'')) (run_res (Inr ()))))))"

text \<open>Whether the sink is a built-in one, and the outcome of its check.\<close>

definition verifyBuiltInAnchor ::
  "crypto_prims \<Rightarrow> ots_hashes \<Rightarrow> (bytes \<Rightarrow> OtsAnchorProof res) \<Rightarrow> GlobalLogProof \<Rightarrow> STHAnchorResult \<Rightarrow> bool \<times> unit run" where
  "verifyBuiltInAnchor prims hs json_decode pf ar =
     (if ares_SinkName ar = FileSinkName
      then (True, run_res (Inl (New_err
        ''verify: file sink is local-only and cannot provide offline-verifiable anchor evidence'')))
      else if ares_SinkName ar = NoopSinkName
      then (True, run_res (Inl (New_err
        ''verify: noop sink is local-only and cannot provide offline-verifiable anchor evidence'')))
      else if ares_SinkName ar = OtsSinkName
      then (True, check_run (err_if (ares_AnchorID ar \<noteq> DeterministicOtsAnchorID prims (gproof_STH pf))
              (New_err ''verify: ots sink anchor_id mismatch: got %s want %s''))
            (validateOtsAnchorProof hs json_decode (gproof_STH pf) ar))
      else (False, run_res (Inr ())))"

type_synonym AnchorVerifier = "SignedTreeHead \<Rightarrow> STHAnchorResult \<Rightarrow> go_error option"

definition AnchorConsistencyWithVerifier ::
  "crypto_prims \<Rightarrow> ots_hashes \<Rightarrow> (bytes \<Rightarrow> OtsAnchorProof res) \<Rightarrow> GlobalLogProof \<Rightarrow> STHAnchorResult \<Rightarrow>
   AnchorVerifier option \<Rightarrow> unit run" where
  "AnchorConsistencyWithVerifier prims hs json_decode pf ar verifier =
     check_run (AnchorBindingConsistency pf ar)
    (case verifyBuiltInAnchor prims hs json_decode pf ar of
       (True, r) \<Rightarrow> r
     | (False, _) \<Rightarrow>
         (case verifier of
            None \<Rightarrow> run_res (Inl (New_err ''verify: unsupported anchor sink: %s''))
          | Some v \<Rightarrow> check_run (v (gproof_STH pf) ar) (run_res (Inr ()))))"

definition AnchorConsistency ::
  "crypto_prims \<Rightarrow> ots_hashes \<Rightarrow> (bytes \<Rightarrow> OtsAnchorProof res) \<Rightarrow> GlobalLogProof \<Rightarrow> STHAnchorResult \<Rightarrow> unit run" where
  "AnchorConsistency prims hs json_decode pf ar = AnchorConsistencyWithVerifier prims hs json_decode pf ar None"

definition AnchorContainerConsistency ::
  "crypto_prims \<Rightarrow> ots_hashes \<Rightarrow> (bytes \<Rightarrow> OtsAnchorProof res) \<Rightarrow> GlobalLogProof \<Rightarrow> STHAnchorResult \<Rightarrow> unit run" where
  "AnchorContainerConsistency prims hs json_decode pf ar =
     check_run (AnchorBindingConsistency pf ar) (snd (verifyBuiltInAnchor prims hs json_decode pf ar))"

section \<open>The global log\<close>

definition globalLogConsistencyWithProvider ::
  "crypto_prims \<Rightarrow> encoders \<Rightarrow> ProofBundle \<Rightarrow> GlobalLogProof \<Rightarrow> Provider option \<Rightarrow> unit run" where
  "globalLogConsistencyWithProvider prims encs bundle pf provider =
     bind_run (run_res (non_nil (New_err ''verify: crypto provider is required'') provider)) (\<lambda>p.
     check_run (first_err
       [err_if (gproof_SchemaVersion pf \<noteq> SchemaGlobalLogProof) (New_err ''verify: unexpected global log proof schema: %s''),
        err_if (sth_SchemaVersion (gproof_STH pf) \<noteq> SchemaSignedTreeHead) (New_err ''verify: unexpected STH schema: %s'')])
    (bind_run (run_res (RequireAvailable (provider_Suite p))) (\<lambda>suite.
     let sth = gproof_STH pf; committed = bundle_CommittedReceipt bundle in
     check_run (first_err
       [map_option (Wrapf ''verify: proof bundle crypto_suite: %w'') (Require (suite_ID suite) (SB_ProofBundle bundle)),
        map_option (Wrapf ''verify: global proof crypto_suite: %w'') (Require (suite_ID suite) (SB_GlobalLogProof pf)),
        err_if (sth_TreeAlg sth \<noteq> merkle_Algorithm (suite_Merkle suite)) (New_err ''verify: unsupported STH tree_alg: %s''),
        err_if (gproof_TreeSize pf \<noteq> sth_TreeSize sth)
          (New_err ''verify: global proof tree_size mismatch: proof=%d sth=%d''),
        err_if (length (sth_RootHash sth) \<noteq> hash_DigestBytes (merkle_Hash (suite_Merkle suite)))
          (New_err ''verify: STH root_hash has length %d, want %d''),
        err_if (gproof_BatchID pf \<noteq> com_BatchID committed)
          (New_err ''verify: global proof batch_id mismatch: proof=%s bundle=%s''),
        err_if (gproof_NodeID pf \<noteq> '''' \<and> bundle_NodeID bundle \<noteq> '''' \<and> gproof_NodeID pf \<noteq> bundle_NodeID bundle)
          (New_err ''verify: global proof node_id mismatch: proof=%s bundle=%s''),
        err_if (gproof_LogID pf \<noteq> '''' \<and> bundle_LogID bundle \<noteq> '''' \<and> gproof_LogID pf \<noteq> bundle_LogID bundle)
          (New_err ''verify: global proof log_id mismatch: proof=%s bundle=%s''),
        err_if (sth_NodeID sth \<noteq> '''' \<and> gproof_NodeID pf \<noteq> '''' \<and> sth_NodeID sth \<noteq> gproof_NodeID pf)
          (New_err ''verify: global proof STH node_id mismatch: proof=%s sth=%s''),
        err_if (sth_LogID sth \<noteq> '''' \<and> gproof_LogID pf \<noteq> '''' \<and> sth_LogID sth \<noteq> gproof_LogID pf)
          (New_err ''verify: global proof STH log_id mismatch: proof=%s sth=%s'')])
    (case VerifyInclusionWithProvider prims provider pf of
       None \<Rightarrow> None
     | Some included \<Rightarrow>
         check_run (err_if (\<not> included) (New_err ''verify: global log inclusion proof failed''))
        (let leaf = \<lparr>gleaf_SchemaVersion = SchemaGlobalLogLeaf, gleaf_CryptoSuite = suite_ID suite,
               gleaf_NodeID = gproof_NodeID pf, gleaf_LogID = gproof_LogID pf, gleaf_BatchID = com_BatchID committed,
               gleaf_BatchRoot = com_BatchRoot committed, gleaf_BatchTreeSize = bproof_TreeSize (bundle_BatchProof bundle),
               gleaf_BatchClosedAtUnixN = com_ClosedAtUnixN committed, gleaf_LeafIndex = gproof_LeafIndex pf,
               gleaf_LeafHash = [], gleaf_AppendedAtUnixN = 0\<rparr>
         in bind_run (run_res (HashLeafWithProvider prims encs provider leaf)) (\<lambda>hash.
            check_run (err_if (hash \<noteq> gproof_LeafHash pf) (New_err ''verify: global log leaf hash mismatch''))
              (run_res (Inr ()))))))))"

definition GlobalLogConsistency :: "crypto_prims \<Rightarrow> encoders \<Rightarrow> ProofBundle \<Rightarrow> GlobalLogProof \<Rightarrow> unit run" where
  "GlobalLogConsistency prims encs bundle pf = globalLogConsistencyWithProvider prims encs bundle pf (Some DefaultProvider)"

definition GlobalLogConsistencyForSuite :: "crypto_prims \<Rightarrow> encoders \<Rightarrow> ProofBundle \<Rightarrow> GlobalLogProof \<Rightarrow> unit run" where
  "GlobalLogConsistencyForSuite prims encs bundle pf =
     check_run (map_option (Wrapf ''verify: global log crypto_suite mismatch: %w'')
       (RequireSame (bundle_CryptoSuite bundle) [gproof_CryptoSuite pf, sth_CryptoSuite (gproof_STH pf)]))
    (bind_run (run_res (ProviderForSuite (bundle_CryptoSuite bundle))) (\<lambda>p.
       globalLogConsistencyWithProvider prims encs bundle pf (Some p)))"

definition VerifyGlobalLogProof ::
  "crypto_prims \<Rightarrow> encoders \<Rightarrow> ProofBundle \<Rightarrow> GlobalLogProof \<Rightarrow> PublicKeyDescriptor \<Rightarrow> Provider option \<Rightarrow> unit run" where
  "VerifyGlobalLogProof prims encs bundle pf publicKey provider =
     bind_run (globalLogConsistencyWithProvider prims encs bundle pf provider) (\<lambda>_.
     check_run (VerifySTHWithProvider prims encs None (gproof_STH pf) publicKey provider) (run_res (Inr ())))"

section \<open>Proof bundles\<close>

record TrustedKeys =
  keys_ClientPublicKey :: PublicKeyDescriptor
  keys_ServerPublicKey :: PublicKeyDescriptor
  keys_AcceptedReceiptPublicKey :: PublicKeyDescriptor
  keys_CommittedReceiptPublicKey :: PublicKeyDescriptor
  keys_SignedTreeHeadPublicKey :: PublicKeyDescriptor
  keys_CryptoProvider :: "Provider option"

record Result =
  result_Valid :: bool
  result_RecordID :: string
  result_ProofLevel :: string
  result_AnchorSink :: string
  result_AnchorID :: string

record namespaceBinding =
  ns_nodeID :: string
  ns_logID :: string

record options =
  opt_global :: "GlobalLogProof option"
  opt_anchor :: "STHAnchorResult option"
  opt_anchorVerifier :: "AnchorVerifier option"
  opt_namespace :: "namespaceBinding option"

definition WithGlobalProof :: "GlobalLogProof \<Rightarrow> options \<Rightarrow> options" where
  "WithGlobalProof p op = op\<lparr>opt_global := Some p\<rparr>"

definition WithAnchor :: "STHAnchorResult \<Rightarrow> options \<Rightarrow> options" where
  "WithAnchor a op = op\<lparr>opt_anchor := Some a\<rparr>"

definition WithAnchorVerifier :: "AnchorVerifier option \<Rightarrow> options \<Rightarrow> options" where
  "WithAnchorVerifier verifier op = op\<lparr>opt_anchorVerifier := verifier\<rparr>"

definition WithExactNamespaceBinding :: "string \<Rightarrow> string \<Rightarrow> options \<Rightarrow> options" where
  "WithExactNamespaceBinding nodeID logID op = op\<lparr>opt_namespace := Some \<lparr>ns_nodeID = nodeID, ns_logID = logID\<rparr>\<rparr>"

definition zero_options :: options where
  "zero_options = \<lparr>opt_global = None, opt_anchor = None, opt_anchorVerifier = None, opt_namespace = None\<rparr>"

definition exactGlobalNamespace :: "GlobalLogProof \<Rightarrow> namespaceBinding \<Rightarrow> go_error option" where
  "exactGlobalNamespace pf binding = first_err
     [err_if (ns_nodeID binding = '''' \<or> gproof_NodeID pf \<noteq> ns_nodeID binding \<or>
              sth_NodeID (gproof_STH pf) \<noteq> ns_nodeID binding)
        (New_err ''verify: global proof node_id does not exactly match the evidence namespace''),
      err_if (ns_logID binding = '''' \<or> gproof_LogID pf \<noteq> ns_logID binding \<or>
              sth_LogID (gproof_STH pf) \<noteq> ns_logID binding)
        (New_err ''verify: global proof log_id does not exactly match the evidence namespace'')]"

definition exactAnchorNamespace :: "STHAnchorResult \<Rightarrow> namespaceBinding \<Rightarrow> go_error option" where
  "exactAnchorNamespace ar binding = first_err
     [err_if (ns_nodeID binding = '''' \<or> ares_NodeID ar \<noteq> ns_nodeID binding \<or>
              sth_NodeID (ares_STH ar) \<noteq> ns_nodeID binding)
        (New_err ''verify: anchor result node_id does not exactly match the evidence namespace''),
      err_if (ns_logID binding = '''' \<or> ares_LogID ar \<noteq> ns_logID binding \<or>
              sth_LogID (ares_STH ar) \<noteq> ns_logID binding)
        (New_err ''verify: anchor result log_id does not exactly match the evidence namespace'')]"

definition publicKeyOrFallback :: "PublicKeyDescriptor \<Rightarrow> PublicKeyDescriptor \<Rightarrow> PublicKeyDescriptor" where
  "publicKeyOrFallback specific fallback = (if length (pkd_Bytes specific) = 0 then fallback else specific)"

definition validateBundleBindings ::
  "crypto_prims \<Rightarrow> ProofBundle \<Rightarrow> Verified \<Rightarrow> Provider \<Rightarrow> go_error option" where
  "validateBundleBindings prims bundle verified provider =
     bind_err (RequireAvailable (provider_Suite provider)) (\<lambda>suite.
     let record = bundle_ServerRecord bundle; scl = bundle_SignedClaim bundle; accepted = bundle_AcceptedReceipt bundle;
         committed = bundle_CommittedReceipt bundle; batch = bundle_BatchProof bundle in
     then_err (first_err
       [map_option (Wrapf ''verify: proof bundle crypto_suite: %w'') (Require (suite_ID suite) (SB_ProofBundle bundle)),
        err_if (rec_TenantID record \<noteq> claim_TenantID (signed_Claim scl))
          (New_err ''verify: server record tenant_id mismatch''),
        err_if (rec_ClientID record \<noteq> claim_ClientID (signed_Claim scl))
          (New_err ''verify: server record client_id mismatch''),
        err_if (rec_KeyID record \<noteq> claim_KeyID (signed_Claim scl)) (New_err ''verify: server record key_id mismatch'')])
    (bind_err (HashBytesWithProvider prims (Some provider) (hash_Algorithm (suite_ClaimHash suite)) (ver_ClaimCBOR verified))
       (\<lambda>claimHash.
     then_err (err_if (rec_ClaimHash record \<noteq> claimHash) (New_err ''verify: server record claim_hash mismatch''))
    (bind_err (HashBytesWithProvider prims (Some provider) (hash_Algorithm (suite_SignatureHash suite))
        (sig_Signature (signed_Signature scl))) (\<lambda>sigHash.
     first_err
       [err_if (rec_ClientSignatureHash record \<noteq> sigHash) (New_err ''verify: server record client_signature_hash mismatch''),
        err_if (acc_RecordID accepted \<noteq> ver_RecordID verified) (New_err ''verify: accepted receipt record_id mismatch''),
        err_if (acc_ReceivedAtUnixN accepted \<noteq> rec_ReceivedAtUnixN record)
          (New_err ''verify: accepted receipt received_at mismatch''),
        err_if (acc_WAL accepted \<noteq> rec_WAL record) (New_err ''verify: accepted receipt WAL mismatch''),
        err_if (bundle_NodeID bundle \<noteq> '''' \<and> acc_ServerID accepted \<noteq> '''' \<and> bundle_NodeID bundle \<noteq> acc_ServerID accepted)
          (New_err ''verify: bundle node_id mismatch''),
        err_if (com_RecordID committed \<noteq> ver_RecordID verified) (New_err ''verify: committed receipt record_id mismatch''),
        err_if (com_LeafIndex committed \<noteq> bproof_LeafIndex batch) (New_err ''verify: committed receipt leaf_index mismatch''),
        err_if (com_NodeID committed \<noteq> '''' \<and> bundle_NodeID bundle \<noteq> '''' \<and> com_NodeID committed \<noteq> bundle_NodeID bundle)
          (New_err ''verify: committed receipt node_id mismatch''),
        err_if (com_LogID committed \<noteq> '''' \<and> bundle_LogID bundle \<noteq> '''' \<and> com_LogID committed \<noteq> bundle_LogID bundle)
          (New_err ''verify: committed receipt log_id mismatch''),
        err_if (bproof_TreeAlg batch \<noteq> merkle_Algorithm (suite_Merkle suite))
          (New_err ''verify: unsupported batch proof tree_alg: %s''),
        err_if (bproof_TreeSize batch = 0 \<or> bproof_LeafIndex batch \<ge> bproof_TreeSize batch)
          (New_err ''verify: invalid batch proof leaf index'')])))))"

definition at_stage :: "Stage \<Rightarrow> go_error \<Rightarrow> go_error" where
  "at_stage stage e = failStage stage (Some e)"

text \<open>The last two steps of \<open>ProofBundle\<close>: the global log proof and the anchor, if they are given.\<close>

definition global_stage ::
  "crypto_prims \<Rightarrow> encoders \<Rightarrow> Provider \<Rightarrow> TrustedKeys \<Rightarrow> ProofBundle \<Rightarrow> options \<Rightarrow> Evidence \<times> Result \<Rightarrow> (Evidence \<times> Result) run" where
  "global_stage prims encs provider keys bundle op st =
     (case opt_global op of
        None \<Rightarrow> run_res (Inr st)
      | Some global \<Rightarrow>
          (let evidence = fst st; result = snd st in
           check_run (map_option (at_stage StageGlobalLog)
             (case opt_namespace op of None \<Rightarrow> None | Some ns \<Rightarrow> exactGlobalNamespace global ns))
          (bind_run (map_run_err (at_stage StageGlobalLog) (VerifyGlobalLogProof prims encs bundle global
              (publicKeyOrFallback (keys_SignedTreeHeadPublicKey keys) (keys_ServerPublicKey keys)) (Some provider))) (\<lambda>_.
           let evidence = evidence\<lparr>ev_GlobalLogProof := True\<rparr> in
           run_res (Inr (evidence, result\<lparr>result_ProofLevel := Evaluate evidence\<rparr>))))))"

definition anchor_stage ::
  "crypto_prims \<Rightarrow> ots_hashes \<Rightarrow> (bytes \<Rightarrow> OtsAnchorProof res) \<Rightarrow> options \<Rightarrow> Evidence \<times> Result \<Rightarrow> Result run" where
  "anchor_stage prims hs json_decode op st =
     (case opt_anchor op of
        None \<Rightarrow> run_res (Inr (snd st))
      | Some anchor \<Rightarrow>
          bind_run (run_res (non_nil (at_stage StageAnchor (New_err ''verify: L5 anchor requires a global log proof''))
            (opt_global op))) (\<lambda>global.
          check_run (map_option (at_stage StageAnchor)
            (case opt_namespace op of None \<Rightarrow> None | Some ns \<Rightarrow> exactAnchorNamespace anchor ns))
         (bind_run (map_run_err (at_stage StageAnchor)
             (AnchorConsistencyWithVerifier prims hs json_decode global anchor (opt_anchorVerifier op))) (\<lambda>_.
          let evidence = (fst st)\<lparr>ev_STHAnchorResult := True\<rparr> in
          run_res (Inr ((snd st)\<lparr>result_ProofLevel := Evaluate evidence, result_AnchorSink := ares_SinkName anchor,
            result_AnchorID := ares_AnchorID anchor\<rparr>))))))"

text \<open>The part of \<open>ProofBundle\<close> up to the batch, which gives the record identifier.\<close>

definition batch_stages ::
  "crypto_prims \<Rightarrow> encoders \<Rightarrow> Provider \<Rightarrow> reader \<Rightarrow> ProofBundle \<Rightarrow> TrustedKeys \<Rightarrow> string run" where
  "batch_stages prims encs provider raw bundle keys =
     (let content = claim_Content (signed_Claim (bundle_SignedClaim bundle)); committed = bundle_CommittedReceipt bundle;
          batch = bundle_BatchProof bundle in
      check_run (err_if (bundle_SchemaVersion bundle \<noteq> SchemaProofBundle)
        (at_stage StageProofBundle (New_err ''verify: unexpected proof bundle schema: %s'')))
     (bind_run (run_res (map_err (at_stage StageProofBundle) (RequireAvailable (provider_Suite provider)))) (\<lambda>suite.
      check_run (map_option (Wrapf ''verify: proof bundle crypto_suite: %w'') (Require (suite_ID suite) (SB_ProofBundle bundle)))
     (bind_run (run_res (map_err (at_stage StageContent)
        (HashReaderWithProvider prims (Some provider) (content_HashAlg content) raw))) (\<lambda>(sum, n).
      check_run (map_option (at_stage StageContent) (first_err
        [err_if (n \<noteq> content_ContentLength content) (New_err ''verify: content length mismatch: got %d want %d''),
         err_if (sum \<noteq> content_ContentHash content) (New_err ''verify: content hash mismatch'')]))
     (bind_run (run_res (map_err (at_stage StageClientClaim)
        (VerifyWithProvider prims encs None (bundle_SignedClaim bundle) (keys_ClientPublicKey keys) (Some provider)))) (\<lambda>verified.
      check_run (first_err
        [map_option (at_stage StageBundleBindings) (first_err
           [err_if (ver_RecordID verified \<noteq> bundle_RecordID bundle \<or>
                    ver_RecordID verified \<noteq> rec_RecordID (bundle_ServerRecord bundle))
              (New_err ''verify: record id mismatch''),
            validateBundleBindings prims bundle verified provider]),
         map_option (at_stage StageAcceptedReceipt)
           (VerifyAcceptedWithProvider prims encs None (bundle_AcceptedReceipt bundle)
             (publicKeyOrFallback (keys_AcceptedReceiptPublicKey keys) (keys_ServerPublicKey keys)) (Some provider)),
         map_option (at_stage StageCommittedReceipt)
           (VerifyCommittedWithProvider prims encs None (bundle_CommittedReceipt bundle)
             (publicKeyOrFallback (keys_CommittedReceiptPublicKey keys) (keys_ServerPublicKey keys)) (Some provider))])
     (bind_run (run_res (map_err (at_stage StageBatchMerkle) (HashLeafForSuite prims (cbor_ServerRecord encs) (suite_ID suite)
        (merkle_Algorithm (suite_Merkle suite)) (bundle_ServerRecord bundle)))) (\<lambda>leaf.
      check_run (err_if (leaf \<noteq> com_LeafHash committed) (at_stage StageBatchMerkle (New_err ''verify: leaf hash mismatch'')))
     (case VerifyForSuite prims (suite_ID suite) (bproof_TreeAlg batch) leaf (bproof_LeafIndex batch) (bproof_TreeSize batch)
             (bproof_AuditPath batch) (com_BatchRoot committed) of
        None \<Rightarrow> None
      | Some r \<Rightarrow> bind_run (run_res (map_err (at_stage StageBatchMerkle) r)) (\<lambda>ok.
          check_run (err_if (\<not> ok) (at_stage StageBatchMerkle (New_err ''verify: merkle proof failed'')))
         (run_res (Inr (ver_RecordID verified))))))))))))))"

definition verify_ProofBundle ::
  "crypto_prims \<Rightarrow> encoders \<Rightarrow> ots_hashes \<Rightarrow> (bytes \<Rightarrow> OtsAnchorProof res) \<Rightarrow>
   reader \<Rightarrow> ProofBundle \<Rightarrow> TrustedKeys \<Rightarrow> (options \<Rightarrow> options) list \<Rightarrow> Result run" where
  "verify_ProofBundle prims encs hs json_decode raw bundle keys opts =
     (let provider = (case keys_CryptoProvider keys of None \<Rightarrow> DefaultProvider | Some p \<Rightarrow> p);
          op = fold (\<lambda>apply. apply) opts zero_options in
      bind_run (batch_stages prims encs provider raw bundle keys) (\<lambda>recordID.
      let evidence = EvidenceFor L3;
          result = \<lparr>result_Valid = True, result_RecordID = recordID, result_ProofLevel = Evaluate evidence,
            result_AnchorSink = '''', result_AnchorID = ''''\<rparr> in
      bind_run (global_stage prims encs provider keys bundle op (evidence, result)) (\<lambda>st.
      anchor_stage prims hs json_decode op st)))"

section \<open>What a successful verification has checked\<close>

lemma check_run_err_if: "check_run (err_if b e) r = run_res (Inr v) \<longleftrightarrow> \<not> b \<and> r = run_res (Inr v)"
  by (simp add: check_run_Inr err_if_None)

definition bundle_bound :: "crypto_prims \<Rightarrow> Provider \<Rightarrow> Suite \<Rightarrow> ProofBundle \<Rightarrow> Verified \<Rightarrow> bool" where
  "bundle_bound prims provider suite bundle verified \<longleftrightarrow>
     (let record = bundle_ServerRecord bundle; scl = bundle_SignedClaim bundle; accepted = bundle_AcceptedReceipt bundle;
          committed = bundle_CommittedReceipt bundle; batch = bundle_BatchProof bundle in
      (\<forall>i \<in> set (bound_suites (SB_ProofBundle bundle)). i = suite_ID suite) \<and>
      rec_TenantID record = claim_TenantID (signed_Claim scl) \<and> rec_ClientID record = claim_ClientID (signed_Claim scl) \<and>
      rec_KeyID record = claim_KeyID (signed_Claim scl) \<and>
      HashBytesWithProvider prims (Some provider) (hash_Algorithm (suite_ClaimHash suite)) (ver_ClaimCBOR verified) =
        Inr (rec_ClaimHash record) \<and>
      HashBytesWithProvider prims (Some provider) (hash_Algorithm (suite_SignatureHash suite)) (sig_Signature (signed_Signature scl)) =
        Inr (rec_ClientSignatureHash record) \<and>
      acc_RecordID accepted = ver_RecordID verified \<and> acc_ReceivedAtUnixN accepted = rec_ReceivedAtUnixN record \<and>
      acc_WAL accepted = rec_WAL record \<and>
      (bundle_NodeID bundle = '''' \<or> acc_ServerID accepted = '''' \<or> bundle_NodeID bundle = acc_ServerID accepted) \<and>
      com_RecordID committed = ver_RecordID verified \<and> com_LeafIndex committed = bproof_LeafIndex batch \<and>
      (com_NodeID committed = '''' \<or> bundle_NodeID bundle = '''' \<or> com_NodeID committed = bundle_NodeID bundle) \<and>
      (com_LogID committed = '''' \<or> bundle_LogID bundle = '''' \<or> com_LogID committed = bundle_LogID bundle) \<and>
      bproof_TreeAlg batch = merkle_Algorithm (suite_Merkle suite) \<and>
      bproof_TreeSize batch \<noteq> 0 \<and> bproof_LeafIndex batch < bproof_TreeSize batch)"

lemma bundle_suite_gate:
  "Require (suite_ID suite) (SB_ProofBundle bundle) = None \<longleftrightarrow>
     (\<exists>s. Lookup (suite_ID suite) = Some s) \<and> (\<forall>i \<in> set (bound_suites (SB_ProofBundle bundle)). i = suite_ID suite)"
  by (simp add: Require_None del: bound_suites.simps)

lemma validateBundleBindings_None:
  assumes "Lookup (provider_Suite p) = Some suite"
  shows "validateBundleBindings prims bundle verified p = None \<longleftrightarrow> bundle_bound prims p suite bundle verified"
proof -
  have r: "RequireAvailable (provider_Suite p) = Inr suite" using assms by (simp add: RequireAvailable_Inr)
  have l: "Lookup (suite_ID suite) = Some suite" using assms by (auto simp: Lookup_Some_iff)
  show ?thesis
    unfolding validateBundleBindings_def bundle_bound_def r bind_err_simps Let_def
    by (simp add: then_err_None first_err_None err_if_None bind_err_None bundle_suite_gate l del: bound_suites.simps) auto
qed

text \<open>The checks up to the batch, with \<open>suite\<close> the suite of the provider.\<close>

definition batch_evidence ::
  "crypto_prims \<Rightarrow> encoders \<Rightarrow> Provider \<Rightarrow> reader \<Rightarrow> ProofBundle \<Rightarrow> TrustedKeys \<Rightarrow> Suite \<Rightarrow> Verified \<Rightarrow> bool" where
  "batch_evidence prims encs p raw bundle keys suite verified \<longleftrightarrow>
     (let content = claim_Content (signed_Claim (bundle_SignedClaim bundle)); committed = bundle_CommittedReceipt bundle;
          batch = bundle_BatchProof bundle; record = bundle_ServerRecord bundle in
      bundle_SchemaVersion bundle = SchemaProofBundle \<and>
      HashReaderWithProvider prims (Some p) (content_HashAlg content) raw =
        Inr (content_ContentHash content, content_ContentLength content) \<and>
      VerifyWithProvider prims encs None (bundle_SignedClaim bundle) (keys_ClientPublicKey keys) (Some p) = Inr verified \<and>
      bundle_RecordID bundle = ver_RecordID verified \<and> rec_RecordID record = ver_RecordID verified \<and>
      bundle_bound prims p suite bundle verified \<and>
      VerifyAcceptedWithProvider prims encs None (bundle_AcceptedReceipt bundle)
        (publicKeyOrFallback (keys_AcceptedReceiptPublicKey keys) (keys_ServerPublicKey keys)) (Some p) = None \<and>
      VerifyCommittedWithProvider prims encs None committed
        (publicKeyOrFallback (keys_CommittedReceiptPublicKey keys) (keys_ServerPublicKey keys)) (Some p) = None \<and>
      HashLeafForSuite prims (cbor_ServerRecord encs) (suite_ID suite) (merkle_Algorithm (suite_Merkle suite)) record =
        Inr (com_LeafHash committed) \<and>
      VerifyForSuite prims (suite_ID suite) (bproof_TreeAlg batch) (com_LeafHash committed) (bproof_LeafIndex batch)
        (bproof_TreeSize batch) (bproof_AuditPath batch) (com_BatchRoot committed) = Some (Inr True))"

lemma final_check:
  "(case r of None \<Rightarrow> None
    | Some r \<Rightarrow> bind_run (run_res (map_err f r)) (\<lambda>ok. check_run (err_if (\<not> ok) e) (run_res (Inr v)))) = run_res (Inr w) \<longleftrightarrow>
   r = Some (Inr True) \<and> v = w"
  by (cases r) (auto simp: bind_run_Inr check_run_err_if map_err_Inr)

lemma batch_stages_Inr:
  assumes suite: "Lookup (provider_Suite p) = Some suite"
  shows "batch_stages prims encs p raw bundle keys = run_res (Inr rid) \<longleftrightarrow>
    (\<exists>verified. batch_evidence prims encs p raw bundle keys suite verified \<and> rid = ver_RecordID verified)"
proof -
  have r: "RequireAvailable (provider_Suite p) = Inr suite" using suite by (simp add: RequireAvailable_Inr)
  have l: "Lookup (suite_ID suite) = Some suite" using suite by (auto simp: Lookup_Some_iff)
  have gate: "Require (suite_ID suite) (SB_ProofBundle bundle) = None" if "bundle_bound prims p suite bundle v" for v
    using that l unfolding bundle_suite_gate bundle_bound_def Let_def by blast
  show ?thesis
    unfolding batch_stages_def batch_evidence_def r Let_def map_err_simps bind_run_simps check_run_err_if
    unfolding check_run_Inr bind_run_Inr case_prod_unfold first_err.simps
    by (auto simp: final_check check_run_Inr bind_run_Inr map_err_Inr first_err_None err_if_None
        validateBundleBindings_None [OF suite] gate simp del: bound_suites.simps)
qed

text \<open>The proof level that the options ask for.\<close>

definition asked_level :: "options \<Rightarrow> Level" where
  "asked_level op = (if opt_anchor op \<noteq> None then L5 else if opt_global op \<noteq> None then L4 else L3)"

definition global_evidence ::
  "crypto_prims \<Rightarrow> encoders \<Rightarrow> Provider \<Rightarrow> TrustedKeys \<Rightarrow> ProofBundle \<Rightarrow> options \<Rightarrow> GlobalLogProof \<Rightarrow> bool" where
  "global_evidence prims encs p keys bundle op g \<longleftrightarrow>
     (\<forall>ns. opt_namespace op = Some ns \<longrightarrow> exactGlobalNamespace g ns = None) \<and>
     VerifyGlobalLogProof prims encs bundle g
       (publicKeyOrFallback (keys_SignedTreeHeadPublicKey keys) (keys_ServerPublicKey keys)) (Some p) = run_res (Inr ())"

definition anchor_evidence ::
  "crypto_prims \<Rightarrow> ots_hashes \<Rightarrow> (bytes \<Rightarrow> OtsAnchorProof res) \<Rightarrow> options \<Rightarrow> GlobalLogProof \<Rightarrow> STHAnchorResult \<Rightarrow> bool" where
  "anchor_evidence prims hs json_decode op g a \<longleftrightarrow>
     (\<forall>ns. opt_namespace op = Some ns \<longrightarrow> exactAnchorNamespace a ns = None) \<and>
     AnchorConsistencyWithVerifier prims hs json_decode g a (opt_anchorVerifier op) = run_res (Inr ())"

lemma global_stage_Inr:
  "global_stage prims encs p keys bundle op (ev, res) = run_res (Inr st) \<longleftrightarrow>
     (case opt_global op of
        None \<Rightarrow> st = (ev, res)
      | Some g \<Rightarrow> global_evidence prims encs p keys bundle op g \<and>
          st = (ev\<lparr>ev_GlobalLogProof := True\<rparr>, res\<lparr>result_ProofLevel := Evaluate (ev\<lparr>ev_GlobalLogProof := True\<rparr>)\<rparr>))"
  by (auto simp: global_stage_def global_evidence_def Let_def check_run_Inr bind_run_Inr map_run_err_Inr split: option.splits)

lemma anchor_stage_Inr:
  "anchor_stage prims hs json_decode op (ev, res) = run_res (Inr result) \<longleftrightarrow>
     (case opt_anchor op of
        None \<Rightarrow> result = res
      | Some a \<Rightarrow> (\<exists>g. opt_global op = Some g \<and> anchor_evidence prims hs json_decode op g a) \<and>
          result = res\<lparr>result_ProofLevel := Evaluate (ev\<lparr>ev_STHAnchorResult := True\<rparr>), result_AnchorSink := ares_SinkName a,
            result_AnchorID := ares_AnchorID a\<rparr>)"
  by (auto simp: anchor_stage_def anchor_evidence_def Let_def check_run_Inr bind_run_Inr map_run_err_Inr non_nil_Inr
      split: option.splits)

lemma stage_levels:
  "Evaluate (EvidenceFor L3) = L3" "Evaluate ((EvidenceFor L3)\<lparr>ev_GlobalLogProof := True\<rparr>) = L4"
  "Evaluate ((EvidenceFor L3)\<lparr>ev_GlobalLogProof := True, ev_STHAnchorResult := True\<rparr>) = L5"
  by code_simp+

lemma verify_ProofBundle_Inr:
  assumes p: "p = (case keys_CryptoProvider keys of None \<Rightarrow> DefaultProvider | Some p \<Rightarrow> p)"
    and suite: "Lookup (provider_Suite p) = Some suite" and op: "op = fold (\<lambda>apply. apply) opts zero_options"
  shows "verify_ProofBundle prims encs hs json_decode raw bundle keys opts = run_res (Inr result) \<longleftrightarrow>
    (\<exists>verified. batch_evidence prims encs p raw bundle keys suite verified \<and>
      (\<forall>g. opt_global op = Some g \<longrightarrow> global_evidence prims encs p keys bundle op g) \<and>
      (\<forall>a. opt_anchor op = Some a \<longrightarrow> (\<exists>g. opt_global op = Some g \<and> anchor_evidence prims hs json_decode op g a)) \<and>
      result = \<lparr>result_Valid = True, result_RecordID = ver_RecordID verified, result_ProofLevel = asked_level op,
        result_AnchorSink = (case opt_anchor op of None \<Rightarrow> '''' | Some a \<Rightarrow> ares_SinkName a),
        result_AnchorID = (case opt_anchor op of None \<Rightarrow> '''' | Some a \<Rightarrow> ares_AnchorID a)\<rparr>)"
  unfolding verify_ProofBundle_def Let_def p [symmetric] op [symmetric] bind_run_Inr batch_stages_Inr [OF suite] split_paired_Ex
    global_stage_Inr anchor_stage_Inr
  by (cases "opt_global op"; cases "opt_anchor op") (auto simp: asked_level_def stage_levels)

end
