(* ===== verification/Local_Engine.thy ===== *)
theory Local_Engine
  imports Verify_Bundle Merkle_Correct
begin

text \<open>
  \<open>internal/app/local.go\<close>: the engine that accepts signed claims and computes batches.

  \<^item> The engine's configuration is a record; the write-ahead log and the idempotency index are
    state of their own (theories \<open>Idempotency_Index\<close> and \<open>Submission\<close>).
  \<^item> A time is its Unix nanoseconds; the zero \<open>time.Time\<close> is \<open>None\<close>.
  \<^item> Bundles are computed by parallel workers, each writing its own slot, and the first error in
    the order of the records is returned. The context is live or cancelled for the whole call, so
    the result does not depend on the schedule: it is the list of the slots.
\<close>

type_synonym ClientKeyResolver = "string \<Rightarrow> string \<Rightarrow> string \<Rightarrow> int64 \<Rightarrow> ClientKey res"

record LocalEngine =
  eng_ServerID :: string
  eng_LogID :: string
  eng_ServerKeyID :: string
  eng_ClientPublicKey :: PublicKeyDescriptor
  eng_ClientKeys :: "ClientKeyResolver option"
  eng_ServerSigner :: "Signer option"
  eng_CryptoProvider :: "Provider option"
  eng_ProofWorkers :: int

definition cryptoProvider :: "LocalEngine \<Rightarrow> Provider" where
  "cryptoProvider e = (case eng_CryptoProvider e of None \<Rightarrow> DefaultProvider | Some p \<Rightarrow> p)"

definition serverSigner :: "LocalEngine \<Rightarrow> Signer res" where
  "serverSigner e =
     checked (map_option (Wrapf ''app: invalid server signer: %w'')
       (ValidateSignerHandle (provider_Suite (cryptoProvider e)) (eng_ServerSigner e)))
    (bind_res (non_nil (New_err ''app: invalid server signer: %w'') (eng_ServerSigner e)) (\<lambda>sg.
     checked (err_if (eng_ServerKeyID e \<noteq> '''' \<and> kh_KeyID (signer_Handle sg) \<noteq> eng_ServerKeyID e)
       (New_err ''app: server signer key_id %q does not match configured key_id %q'')) (Inr sg)))"

definition resolveClientKey ::
  "crypto_prims \<Rightarrow> LocalEngine \<Rightarrow> SignedClaim \<Rightarrow> int64 \<Rightarrow> (PublicKeyDescriptor \<times> string) res" where
  "resolveClientKey prims e scl receivedAt =
     (case eng_ClientKeys e of
        Some lookup_key \<Rightarrow>
          bind_res (map_err (\<lambda>err. Wrap CodeFailedPrecondition ''client key is not admissible at claim receipt time'' (Some err))
            (lookup_key (claim_TenantID (signed_Claim scl)) (claim_ClientID (signed_Claim scl)) (claim_KeyID (signed_Claim scl))
               receivedAt)) (\<lambda>key.
          let descriptor = \<lparr>pkd_Suite = ckey_CryptoSuite key, pkd_KeyID = ckey_KeyID key, pkd_Algorithm = ckey_Alg key,
                pkd_Encoding = ckey_PublicKeyEncoding key, pkd_Bytes = ckey_PublicKey key\<rparr> in
          checked (map_option (Wrapf ''app: invalid resolved client public key: %w'')
            (ValidatePublicKey prims (Some (cryptoProvider e)) descriptor)) (Inr (descriptor, ckey_Status key)))
      | None \<Rightarrow>
          checked (first_err
            [err_if (length (pkd_Bytes (eng_ClientPublicKey e)) = 0) (New_err ''app: client public key or key resolver required''),
             map_option (Wrapf ''app: invalid client public key: %w'')
               (ValidatePublicKey prims (Some (cryptoProvider e)) (eng_ClientPublicKey e))])
          (Inr (eng_ClientPublicKey e, KeyStatusValid)))"

definition validateSigned ::
  "crypto_prims \<Rightarrow> encoders \<Rightarrow> LocalEngine \<Rightarrow> go_context \<Rightarrow> SignedClaim \<Rightarrow> int64 \<Rightarrow>
   (Verified \<times> string \<times> bytes \<times> bytes) res" where
  "validateSigned prims encs e ctx scl receivedAt =
     (let provider = cryptoProvider e in
      bind_res (RequireAvailable (provider_Suite provider)) (\<lambda>suite.
      checked (map_option (\<lambda>err. Wrap CodeInvalidArgument ''signed claim crypto_suite does not match server'' (Some err))
        (RequireSame (suite_ID suite) [signed_CryptoSuite scl, claim_CryptoSuite (signed_Claim scl)]))
     (bind_res (resolveClientKey prims e scl receivedAt) (\<lambda>(clientPub, keyStatus).
      bind_res (VerifyWithProvider prims encs ctx scl clientPub (Some provider)) (\<lambda>verified.
      bind_res (HashBytesWithProvider prims (Some provider) (hash_Algorithm (suite_ClaimHash suite)) (ver_ClaimCBOR verified)) (\<lambda>claimHash.
      bind_res (HashBytesWithProvider prims (Some provider) (hash_Algorithm (suite_SignatureHash suite))
        (sig_Signature (signed_Signature scl))) (\<lambda>sigHash.
      Inr (verified, keyStatus, claimHash, sigHash))))))))"

definition server_record ::
  "LocalEngine \<Rightarrow> SignedClaim \<Rightarrow> Verified \<Rightarrow> string \<Rightarrow> bytes \<Rightarrow> bytes \<Rightarrow> WALPosition \<Rightarrow> int64 \<Rightarrow> ServerRecord" where
  "server_record e scl verified keyStatus claimHash sigHash pos receivedAt =
     \<lparr>rec_SchemaVersion = SchemaServerRecord, rec_CryptoSuite = provider_Suite (cryptoProvider e),
      rec_RecordID = ver_RecordID verified, rec_TenantID = claim_TenantID (signed_Claim scl),
      rec_ClientID = claim_ClientID (signed_Claim scl), rec_KeyID = claim_KeyID (signed_Claim scl),
      rec_ClaimHash = claimHash, rec_ClientSignatureHash = sigHash, rec_ReceivedAtUnixN = receivedAt, rec_WAL = pos,
      rec_Validation = \<lparr>valid_PolicyVersion = DefaultValidationPolicy, valid_HashAlgAllowed = True,
        valid_SignatureAlgAllowed = True, valid_KeyStatus = keyStatus\<rparr>\<rparr>"

definition buildAccepted ::
  "crypto_prims \<Rightarrow> encoders \<Rightarrow> LocalEngine \<Rightarrow> go_context \<Rightarrow> SignedClaim \<Rightarrow> Verified \<Rightarrow> string \<Rightarrow> bytes \<Rightarrow> bytes \<Rightarrow>
   WALPosition \<Rightarrow> int64 \<Rightarrow> (ServerRecord \<times> AcceptedReceipt) res" where
  "buildAccepted prims encs e ctx scl verified keyStatus claimHash sigHash pos receivedAt =
     (let record = server_record e scl verified keyStatus claimHash sigHash pos receivedAt;
          accepted = \<lparr>acc_SchemaVersion = SchemaAcceptedReceipt, acc_CryptoSuite = provider_Suite (cryptoProvider e),
            acc_RecordID = rec_RecordID record, acc_Status = ''accepted'', acc_ServerID = eng_ServerID e,
            acc_ReceivedAtUnixN = receivedAt, acc_WAL = pos, acc_ServerSig = zero_Signature\<rparr> in
      bind_res (serverSigner e) (\<lambda>signer.
      bind_res (SignAcceptedWithProvider prims encs ctx (Some (cryptoProvider e)) accepted (Some signer)) (\<lambda>accepted.
      Inr (record, accepted))))"

section \<open>Batches\<close>

abbreviation BatchComputePlanOnly :: string where "BatchComputePlanOnly \<equiv> ''plan_only''"
abbreviation BatchComputeMaterialized :: string where "BatchComputeMaterialized \<equiv> ''materialized''"

record BatchComputeOptions =
  bopt_Mode :: string
  bopt_IncludeTree :: bool

definition LeafHashView :: "Tree \<Rightarrow> int \<Rightarrow> bytes res" where
  "LeafHashView t index =
     (if index < 0 \<or> index \<ge> int (length (tree_leafHashes t))
      then Inl (New_err ''merkle: leaf index out of range: %d'')
      else Inr (tree_leafHashes t ! nat index))"

definition CompactNodes :: "Tree \<Rightarrow> BatchTreeSnapshotNode list" where
  "CompactNodes t = map (\<lambda>((start, sz), index).
       \<lparr>bsnode_Level = rangeLevel sz, bsnode_StartIndex = word_of_nat start,
        bsnode_Width = word_of_nat sz, bsnode_Hash = tree_nodeHashes t ! index\<rparr>) (tree_nodeIndex t)"

text \<open>Nodes sorted by level, then by start.\<close>

definition compactBatchTree :: "suite_id \<Rightarrow> string \<Rightarrow> int64 \<Rightarrow> ServerRecord list \<Rightarrow> Tree \<Rightarrow> BatchTreeSnapshot" where
  "compactBatchTree suiteID batchID createdAt records tree =
     \<lparr>bsnap_CryptoSuite = suiteID, bsnap_BatchID = batchID, bsnap_CreatedAtUnixN = createdAt,
      bsnap_RecordIDs = map rec_RecordID records, bsnap_LeafHashes = tree_leafHashes tree,
      bsnap_Nodes = sort_key bsnode_Level (sort_key bsnode_StartIndex (CompactNodes tree))\<rparr>"

definition zero_BatchTreeSnapshot :: BatchTreeSnapshot where
  "zero_BatchTreeSnapshot = \<lparr>bsnap_CryptoSuite = '''', bsnap_BatchID = '''', bsnap_CreatedAtUnixN = 0,
     bsnap_RecordIDs = [], bsnap_LeafHashes = [], bsnap_Nodes = []\<rparr>"

text \<open>What a worker puts in slot \<open>i\<close>.\<close>

definition batch_bundle ::
  "crypto_prims \<Rightarrow> encoders \<Rightarrow> LocalEngine \<Rightarrow> go_context \<Rightarrow> Suite \<Rightarrow> Signer \<Rightarrow> Tree \<Rightarrow> string \<Rightarrow> int64 \<Rightarrow> nat \<Rightarrow>
   nat \<Rightarrow> SignedClaim \<Rightarrow> ServerRecord \<Rightarrow> AcceptedReceipt \<Rightarrow> ProofBundle res" where
  "batch_bundle prims encs e ctx suite signer tree batchID closedAt n i scl record accepted =
     checked ctx
    (bind_res (LeafHashView tree (int i)) (\<lambda>leaf.
     bind_res (ProofView tree (int i)) (\<lambda>pf.
     bind_res (SignCommittedWithProvider prims encs ctx (Some (cryptoProvider e))
       \<lparr>com_SchemaVersion = SchemaCommittedReceipt, com_CryptoSuite = suite_ID suite, com_RecordID = rec_RecordID record,
        com_Status = ''committed'', com_BatchID = batchID, com_LeafIndex = word_of_nat i, com_LeafHash = leaf,
        com_BatchRoot = tree_root tree, com_ClosedAtUnixN = closedAt, com_NodeID = eng_ServerID e, com_LogID = eng_LogID e,
        com_ServerSig = zero_Signature\<rparr> (Some signer)) (\<lambda>committed.
     Inr \<lparr>bundle_SchemaVersion = SchemaProofBundle, bundle_CryptoSuite = suite_ID suite,
       bundle_RecordID = rec_RecordID record, bundle_NodeID = eng_ServerID e, bundle_LogID = eng_LogID e,
       bundle_SignedClaim = scl, bundle_ServerRecord = record, bundle_AcceptedReceipt = accepted,
       bundle_CommittedReceipt = committed,
       bundle_BatchProof = \<lparr>bproof_TreeAlg = merkle_Algorithm (suite_Merkle suite), bproof_LeafIndex = word_of_nat i,
         bproof_TreeSize = word_of_nat n, bproof_AuditPath = pf\<rparr>\<rparr>))))"

fun first_results :: "'a res list \<Rightarrow> 'a list res" where
  "first_results [] = Inr []"
| "first_results (r # rs) = bind_res r (\<lambda>v. bind_res (first_results rs) (\<lambda>vs. Inr (v # vs)))"

definition ComputeBatch ::
  "crypto_prims \<Rightarrow> encoders \<Rightarrow> LocalEngine \<Rightarrow> int64 \<Rightarrow> go_context \<Rightarrow> string \<Rightarrow> int64 option \<Rightarrow> SignedClaim list \<Rightarrow>
   ServerRecord list \<Rightarrow> AcceptedReceipt list \<Rightarrow> BatchComputeOptions \<Rightarrow> BatchCommit res" where
  "ComputeBatch prims encs e now ctx batchID closedAt signs records accepted opts =
     checked ctx
    (checked (err_if (length records = 0 \<or> length records \<noteq> length signs \<or> length records \<noteq> length accepted)
       (New_err ''app: inconsistent batch input sizes''))
    (bind_res (RequireAvailable (provider_Suite (cryptoProvider e))) (\<lambda>suite.
     checked (first_err (map (\<lambda>i. map_option (\<lambda>err. Wrap CodeInvalidArgument ''batch item %d mixes cryptographic suites'' (Some err))
         (RequireSame (suite_ID suite) [signed_CryptoSuite (signs ! i), claim_CryptoSuite (signed_Claim (signs ! i)),
            rec_CryptoSuite (records ! i), acc_CryptoSuite (accepted ! i)])) [0..<length records]))
    (bind_res (BuildForSuite prims (cbor_ServerRecord encs) (suite_ID suite) (merkle_Algorithm (suite_Merkle suite)) records) (\<lambda>tree.
     let closedAt = (case closedAt of None \<Rightarrow> now | Some t \<Rightarrow> t);
         materialized = (bopt_Mode opts = BatchComputeMaterialized);
         proofLevel = (if materialized then ''L3'' else ''L2'');
         result = \<lparr>bcommit_TreeAlg = merkle_Algorithm (suite_Merkle suite),
           bcommit_Root = \<lparr>broot_SchemaVersion = SchemaBatchRoot, broot_CryptoSuite = suite_ID suite, broot_BatchID = batchID,
             broot_NodeID = eng_ServerID e, broot_LogID = eng_LogID e, broot_BatchRoot = tree_root tree,
             broot_TreeSize = word_of_nat (length records), broot_ClosedAtUnixN = closedAt\<rparr>,
           bcommit_Indexes = map (\<lambda>i. RecordIndexFromBatchInputs (signs ! i) (records ! i) (accepted ! i) (eng_ServerID e)
             (eng_LogID e) batchID (word_of_nat i) closedAt proofLevel) [0..<length records],
           bcommit_Tree = (if bopt_IncludeTree opts then compactBatchTree (suite_ID suite) batchID closedAt records tree
             else zero_BatchTreeSnapshot),
           bcommit_Bundles = []\<rparr>
     in if \<not> materialized then Inr result
        else bind_res (serverSigner e) (\<lambda>signer.
          bind_res (first_results (map (\<lambda>i. batch_bundle prims encs e ctx suite signer tree batchID closedAt (length records) i
            (signs ! i) (records ! i) (accepted ! i)) [0..<length records])) (\<lambda>bundles.
          Inr (result\<lparr>bcommit_Bundles := bundles\<rparr>))))))))"

definition CommitBatch ::
  "crypto_prims \<Rightarrow> encoders \<Rightarrow> LocalEngine \<Rightarrow> int64 \<Rightarrow> string \<Rightarrow> int64 option \<Rightarrow> SignedClaim list \<Rightarrow>
   ServerRecord list \<Rightarrow> AcceptedReceipt list \<Rightarrow> ProofBundle list res" where
  "CommitBatch prims encs e now batchID closedAt signs records accepted =
     bind_res (ComputeBatch prims encs e now None batchID closedAt signs records accepted
       \<lparr>bopt_Mode = BatchComputeMaterialized, bopt_IncludeTree = False\<rparr>) (\<lambda>result. Inr (bcommit_Bundles result))"

definition CommitBatchIndexes ::
  "crypto_prims \<Rightarrow> encoders \<Rightarrow> LocalEngine \<Rightarrow> int64 \<Rightarrow> string \<Rightarrow> int64 option \<Rightarrow> SignedClaim list \<Rightarrow>
   ServerRecord list \<Rightarrow> AcceptedReceipt list \<Rightarrow> (BatchRoot \<times> RecordIndex list) res" where
  "CommitBatchIndexes prims encs e now batchID closedAt signs records accepted =
     bind_res (ComputeBatch prims encs e now None batchID closedAt signs records accepted
       \<lparr>bopt_Mode = BatchComputePlanOnly, bopt_IncludeTree = False\<rparr>) (\<lambda>result. Inr (bcommit_Root result, bcommit_Indexes result))"

text \<open>\<open>gomaxprocs\<close> is \<open>runtime.GOMAXPROCS(0)\<close>.\<close>

definition proofWorkerCount :: "int \<Rightarrow> LocalEngine \<Rightarrow> int \<Rightarrow> int" where
  "proofWorkerCount gomaxprocs e records =
     (let workers = eng_ProofWorkers e;
          workers = (if workers \<le> 0 then (if gomaxprocs > 32 then 32 else gomaxprocs) else workers);
          workers = (if workers > records then records else workers)
      in if workers < 1 then 1 else workers)"

end
