(* ===== verification/Log_Frontier.thy ===== *)
theory Log_Frontier
  imports Global_Log Merkle_Correct
begin

text \<open>
  The frontier of \<open>appendState\<close> is the RFC 6962 tree in incremental form: slot \<open>l\<close> is
  empty or holds the root of a complete subtree of \<open>2 ^ l\<close> leaves, and the occupied slots, from
  the highest to the lowest, cover the leaves from left to right.
\<close>

section \<open>Node hashing of a service\<close>

definition svc_ok :: "log_service \<Rightarrow> bool" where
  "svc_ok svc \<longleftrightarrow> ProfileForSuite (provider_Suite (svc_provider svc)) = Inr (svc_profile svc)"

abbreviation nodeh :: "crypto_prims \<Rightarrow> log_service \<Rightarrow> digest \<Rightarrow> digest \<Rightarrow> digest" where
  "nodeh prims svc \<equiv> hashNode prims (svc_profile svc)"

lemma svc_ok_profile:
  assumes "svc_ok svc"
  shows "ProfileForAlgorithm (prof_suite (svc_profile svc)) (prof_algorithm (svc_profile svc)) = Inr (svc_profile svc)"
    "profile_Size (svc_profile svc) = 32" "profile_valid (svc_profile svc)"
    "prof_suite (svc_profile svc) = provider_Suite (svc_provider svc)"
  using assms
  by (auto simp: svc_ok_def ProfileForSuite_Inr ProfileForAlgorithm_Inr profile_Size_def profile_valid_def
      defaultProfile_def smProfile_def)

lemma HashNodeForSuite_svc:
  assumes "svc_ok svc" "length l = 32" "length r = 32"
  shows "HashNodeForSuite prims (prof_suite (svc_profile svc)) (prof_algorithm (svc_profile svc)) l r =
    Inr (nodeh prims svc l r)"
  using assms by (simp add: HashNodeForSuite_def svc_ok_profile(1,2))

lemma New_service_ok: "New_service prims b opts = Inr svc \<Longrightarrow> svc_ok svc"
  by (auto simp: New_service_def svc_ok_def Let_def split: if_splits option.splits sum.splits)

lemma NewReader_ok: "NewReaderWithProvider b p = Inr svc \<Longrightarrow> svc_ok svc"
  by (auto simp: NewReaderWithProvider_def svc_ok_def split: if_splits option.splits sum.splits)

abbreviation digests :: "bytes list \<Rightarrow> bool" where
  "digests \<equiv> list_all (\<lambda>b. length b = 32)"

lemma mth_digest: "digests xs \<Longrightarrow> xs \<noteq> [] \<Longrightarrow> length (mth (nodeh prims svc) xs) = 32"
  by (rule mth_length) auto

section \<open>Frontiers\<close>

fun fr_ok :: "(bytes \<Rightarrow> bytes \<Rightarrow> bytes) \<Rightarrow> nat \<Rightarrow> bytes list \<Rightarrow> bytes list \<Rightarrow> bool" where
  "fr_ok h lvl [] xs \<longleftrightarrow> xs = []"
| "fr_ok h lvl (s # fr) xs \<longleftrightarrow>
     (if s = [] then fr_ok h (Suc lvl) fr xs
      else \<exists>ys zs. xs = ys @ zs \<and> length zs = 2 ^ lvl \<and> s = mth h zs \<and> fr_ok h (Suc lvl) fr ys)"

lemma fr_ok_empty_slots: "\<forall>s \<in> set es. s = [] \<Longrightarrow> fr_ok h lvl (es @ fr) xs \<longleftrightarrow> fr_ok h (lvl + length es) fr xs"
  by (induction es arbitrary: lvl) auto

lemma fr_ok_trailing: "\<forall>s \<in> set es. s = [] \<Longrightarrow> fr_ok h lvl (fr @ es) xs \<longleftrightarrow> fr_ok h lvl fr xs"
proof (induction fr arbitrary: lvl xs)
  case Nil
  then show ?case using fr_ok_empty_slots [of es h lvl "[]" xs] by simp
qed auto

lemma trimFrontier_append: "\<exists>es. fr = trimFrontier fr @ es \<and> (\<forall>s \<in> set es. s = [])"
proof -
  have "rev fr = takeWhile (\<lambda>h. h = []) (rev fr) @ dropWhile (\<lambda>h. h = []) (rev fr)" by simp
  then have "fr = trimFrontier fr @ rev (takeWhile (\<lambda>h. h = []) (rev fr))"
    unfolding trimFrontier_def by (metis rev_append rev_rev_ident)
  then show ?thesis
    by (intro exI [of _ "rev (takeWhile (\<lambda>h. h = []) (rev fr))"]) (auto dest: set_takeWhileD)
qed

lemma fr_ok_trim [simp]: "fr_ok h lvl (trimFrontier fr) xs \<longleftrightarrow> fr_ok h lvl fr xs"
  using trimFrontier_append [of fr] fr_ok_trailing by metis

lemma root_loop_Some:
  assumes "svc_ok svc" "fr_ok (nodeh prims svc) lvl fr xs" "digests xs" "digests zs" "zs \<noteq> []" "length zs \<le> 2 ^ lvl"
  shows "root_loop prims (svc_profile svc) fr (Some (mth (nodeh prims svc) zs)) =
    Inr (Some (mth (nodeh prims svc) (xs @ zs)))"
  using assms(2-)
proof (induction fr arbitrary: lvl xs zs)
  case (Cons s fr)
  show ?case
  proof (cases "s = []")
    case True
    with Cons show ?thesis by simp
  next
    case False
    with Cons.prems(1) obtain ys bs where
      b: "xs = ys @ bs" "length bs = 2 ^ lvl" "s = mth (nodeh prims svc) bs" "fr_ok (nodeh prims svc) (Suc lvl) fr ys"
      by auto
    have ne: "bs \<noteq> []" using b(2) by auto
    have d: "digests bs" "digests ys" using Cons.prems(2) b(1) by auto
    have "mth (nodeh prims svc) (bs @ zs) = nodeh prims svc s (mth (nodeh prims svc) zs)"
      using mth_append [of bs lvl zs] b Cons.prems by simp
    moreover have "root_loop prims (svc_profile svc) fr (Some (mth (nodeh prims svc) (bs @ zs))) =
        Inr (Some (mth (nodeh prims svc) (ys @ bs @ zs)))"
      using Cons.prems b d by (intro Cons.IH) auto
    ultimately show ?thesis
      using False b(1,3) d ne Cons.prems(3,4) assms(1)
      by (simp add: HashNodeForSuite_svc mth_digest svc_ok_profile(2))
  qed
qed simp

lemma root_loop_None:
  assumes "svc_ok svc" "fr_ok (nodeh prims svc) lvl fr xs" "digests xs"
  shows "root_loop prims (svc_profile svc) fr None = Inr (if xs = [] then None else Some (mth (nodeh prims svc) xs))"
  using assms(2-)
proof (induction fr arbitrary: lvl xs)
  case (Cons s fr)
  show ?case
  proof (cases "s = []")
    case True
    with Cons show ?thesis by simp
  next
    case False
    with Cons.prems(1) obtain ys bs where
      b: "xs = ys @ bs" "length bs = 2 ^ lvl" "s = mth (nodeh prims svc) bs" "fr_ok (nodeh prims svc) (Suc lvl) fr ys"
      by auto
    have ne: "bs \<noteq> []" using b(2) by auto
    have d: "digests bs" "digests ys" using Cons.prems(2) b(1) by auto
    have "root_loop prims (svc_profile svc) fr (Some (mth (nodeh prims svc) bs)) = Inr (Some (mth (nodeh prims svc) (ys @ bs)))"
      using root_loop_Some [OF assms(1) b(4) d(2,1) ne] b(2) by simp
    then show ?thesis
      using False b(1,3) d ne assms(1) by (simp add: mth_digest svc_ok_profile(2))
  qed
qed simp

lemma rootFromFrontier_ok:
  assumes "svc_ok svc" "fr_ok (nodeh prims svc) 0 fr xs" "digests xs" "xs \<noteq> []"
  shows "rootFromFrontier prims (svc_profile svc) fr = Inr (mth (nodeh prims svc) xs)"
  using root_loop_None [OF assms(1-3)] assms(1,4) by (simp add: rootFromFrontier_def svc_ok_profile(2) bind_res_def)

section \<open>Carrying\<close>

text \<open>A stored node is right for the leaf hashes \<open>hs\<close> if it is the root of the subtree it names.\<close>

definition node_ok :: "(bytes \<Rightarrow> bytes \<Rightarrow> bytes) \<Rightarrow> bytes list \<Rightarrow> GlobalLogNode \<Rightarrow> bool" where
  "node_ok h hs nd \<longleftrightarrow>
     (\<exists>l s. l < 64 \<and> gnode_Level nd = word_of_nat l \<and> gnode_StartIndex nd = word_of_nat s \<and> s < 2 ^ 64 \<and>
        gnode_Width nd = push_bit l 1 \<and> s + 2 ^ l \<le> length hs \<and> gnode_Hash nd = mth h (leaf_slice hs (s, 2 ^ l)))"

lemma leaf_slice_append: "s + n \<le> length xs \<Longrightarrow> leaf_slice (xs @ ys) (s, n) = leaf_slice xs (s, n)"
  by (simp add: leaf_slice_def)

lemma node_ok_append: "node_ok h hs nd \<Longrightarrow> node_ok h (hs @ ys) nd"
  unfolding node_ok_def by (force simp: leaf_slice_append)

lemma leaf_slice_tail: "leaf_slice (ys @ zs) (length ys, length zs) = zs"
  by (simp add: leaf_slice_def)

text \<open>A node \<open>appendState\<close> creates.\<close>

definition new_node_ok :: "crypto_prims \<Rightarrow> log_service \<Rightarrow> int64 \<Rightarrow> bytes list \<Rightarrow> GlobalLogNode \<Rightarrow> bool" where
  "new_node_ok prims svc now hs nd \<longleftrightarrow>
     node_ok (nodeh prims svc) hs nd \<and> gnode_CryptoSuite nd = provider_Suite (svc_provider svc) \<and>
     gnode_SchemaVersion nd = SchemaGlobalLogNode \<and> gnode_CreatedAtUnixN nd = now"

lemma log_node_ok:
  assumes "hs = ys @ zs" "length zs = 2 ^ l" "length hs < 2 ^ 64" "hsh = mth (nodeh prims svc) zs"
  shows "new_node_ok prims svc now hs (log_node svc now l (word_of_nat (length ys)) hsh)"
proof -
  have "(2 :: nat) ^ l < 2 ^ 64" using assms(1-3) by simp
  then have "l < 64" by (rule power_less_imp_less_exp [rotated]) simp
  then show ?thesis
    using assms leaf_slice_tail [of ys zs]
    unfolding new_node_ok_def node_ok_def log_node_def
    by (intro conjI exI [where x = l] exI [where x = "length ys"]) simp_all
qed

text \<open>What a carry returns: an empty slot, the block that belongs there and the untouched rest.\<close>

definition carried ::
  "crypto_prims \<Rightarrow> log_service \<Rightarrow> int64 \<Rightarrow> bytes list \<Rightarrow> bytes list \<times> nat \<times> bytes \<times> GlobalLogNode list \<Rightarrow> bool" where
  "carried prims svc now hs r \<longleftrightarrow>
     (case r of (frontier, level, current, nodes) \<Rightarrow>
       (\<forall>s \<in> set (take level frontier). s = []) \<and> (level < length frontier \<longrightarrow> frontier ! level = []) \<and>
       (\<exists>ys c. hs = ys @ c \<and> length c = 2 ^ level \<and> current = mth (nodeh prims svc) c \<and>
          fr_ok (nodeh prims svc) level (drop level frontier) ys) \<and>
       list_all (new_node_ok prims svc now hs) nodes)"

lemma carry_ok:
  assumes svc: "svc_ok svc"
  shows "fr_ok (nodeh prims svc) level (drop level frontier) xs \<Longrightarrow> \<forall>s \<in> set (take level frontier). s = [] \<Longrightarrow>
    length c = 2 ^ level \<Longrightarrow> digests (xs @ c) \<Longrightarrow> length (xs @ c) < 2 ^ 64 \<Longrightarrow>
    current = mth (nodeh prims svc) c \<Longrightarrow> start = word_of_nat (length xs) \<Longrightarrow>
    list_all (new_node_ok prims svc now (xs @ c)) nodes \<Longrightarrow>
    \<exists>r. carry prims svc now frontier level start current nodes = Inr r \<and> carried prims svc now (xs @ c) r"
  using svc
proof (induction prims svc now frontier level start current nodes arbitrary: xs c rule: carry.induct)
  case (1 prims svc now frontier level start current nodes)
  show ?case
  proof (cases "level < length frontier \<and> frontier ! level \<noteq> []")
    case False
    have "carry prims svc now frontier level start current nodes = Inr (frontier, level, current, nodes)"
      using False by (subst carry.simps) auto
    with False "1.prems" show ?thesis by (auto simp: carried_def)
  next
    case True
    then have "drop level frontier = frontier ! level # drop (Suc level) frontier" by (simp add: Cons_nth_drop_Suc)
    with True "1.prems"(1) obtain ys zs where z: "xs = ys @ zs" "length zs = 2 ^ level"
      "frontier ! level = mth (nodeh prims svc) zs" "fr_ok (nodeh prims svc) (Suc level) (drop (Suc level) frontier) ys"
      by auto
    have ne: "zs \<noteq> []" "c \<noteq> []" using z(2) "1.prems"(3) by auto
    have "(2 :: nat) ^ level < 2 ^ 64" using "1.prems"(3,5) by simp
    then have lv: "level < 64" by (rule power_less_imp_less_exp [rotated]) simp
    define parent where "parent = nodeh prims svc (frontier ! level) current"
    have parent: "parent = mth (nodeh prims svc) (zs @ c)"
      using mth_append [of zs level c] z ne "1.prems"(3,6) by (simp add: parent_def)
    have hn: "HashNodeForSuite prims (prof_suite (svc_profile svc)) (prof_algorithm (svc_profile svc))
        (frontier ! level) current = Inr parent"
      unfolding parent_def using "1.prems"(4,6) z(1,3) ne "1.prems"(9)
      by (intro HashNodeForSuite_svc) (auto intro: mth_digest)
    have w: "unat start = length xs" "unat (push_bit level (1 :: uint64)) = 2 ^ level"
      using "1.prems"(5,7) unat_push_bit_1 [OF lv] by (simp_all add: unat_of_nat)
    have nl: "\<not> start < push_bit level 1"
      using w z(1,2) by (simp add: word_less_nat_alt)
    have st: "start - push_bit level 1 = word_of_nat (length ys)"
      using w z(1,2) "1.prems"(5) by (simp add: word_unat_eq_iff unat_sub word_le_nat_alt unat_of_nat)
    have node: "new_node_ok prims svc now (xs @ c) (log_node svc now (level + 1) (start - push_bit level 1) parent)"
      unfolding st using z "1.prems"(3,5) parent by (intro log_node_ok [of _ _ "zs @ c"]) auto
    have "\<exists>r. carry prims svc now (frontier[level := []]) (level + 1) (start - push_bit level 1) parent
        (nodes @ [log_node svc now (level + 1) (start - push_bit level 1) parent]) = Inr r \<and>
        carried prims svc now (ys @ zs @ c) r"
    proof (rule "1.IH" [OF True refl nl])
      show "\<forall>s \<in> set (take (level + 1) (frontier[level := []])). s = []"
        using True "1.prems"(2) by (simp add: take_Suc_conv_app_nth)
      show "fr_ok (nodeh prims svc) (level + 1) (drop (level + 1) (frontier[level := []])) ys"
        using z(4) by simp
    qed (use z "1.prems" node parent st in auto)
    moreover have "carry prims svc now frontier level start current nodes =
        carry prims svc now (frontier[level := []]) (level + 1) (start - push_bit level 1) parent
          (nodes @ [log_node svc now (level + 1) (start - push_bit level 1) parent])"
      using True nl hn by (subst carry.simps) (simp add: Let_def)
    ultimately show ?thesis using z(1) by simp
  qed
qed

lemma carried_frontier:
  assumes "carried prims svc now hs (frontier, level, current, nodes)" "digests hs" "svc_ok svc"
  shows "fr_ok (nodeh prims svc) 0 ((frontier @ replicate (Suc level - length frontier) [])[level := current]) hs"
proof -
  obtain ys c where c: "hs = ys @ c" "length c = 2 ^ level" "current = mth (nodeh prims svc) c"
    "fr_ok (nodeh prims svc) level (drop level frontier) ys"
    and low: "\<forall>s \<in> set (take level frontier). s = []" "level < length frontier \<longrightarrow> frontier ! level = []"
    using assms(1) by (auto simp: carried_def)
  have ne: "c \<noteq> []" using c(2) by auto
  then have cur: "current \<noteq> []" using c assms(2) mth_digest [of c prims svc] by auto
  define F where "F = frontier @ replicate (Suc level - length frontier) []"
  have len: "level < length F" by (simp add: F_def)
  then have F: "level < length F" "drop level F = F ! level # drop (Suc level) F" "\<forall>s \<in> set (take level F). s = []"
    using low(1) by (auto simp: F_def Cons_nth_drop_Suc simp del: drop_append dest: in_set_takeD)
  have "F ! level = []"
    using low(2) by (auto simp: F_def nth_append)
  moreover have "fr_ok (nodeh prims svc) level (drop level F) ys"
    using c(4) by (simp add: F_def fr_ok_trailing)
  ultimately have rest: "fr_ok (nodeh prims svc) (Suc level) (drop (Suc level) F) ys"
    using F(2) by simp
  have "F[level := current] = take level F @ current # drop (Suc level) F"
    using F(1) by (rule upd_conv_take_nth_drop)
  moreover have "fr_ok (nodeh prims svc) level (current # drop (Suc level) F) hs"
    using c rest cur by auto
  moreover have "length (take level F) = level" using F(1) by simp
  ultimately have "fr_ok (nodeh prims svc) 0 (F[level := current]) hs"
    using fr_ok_empty_slots [OF F(3), of "nodeh prims svc" 0 "current # drop (Suc level) F" hs]
    by (simp del: fr_ok.simps)
  then show ?thesis by (simp add: F_def)
qed

section \<open>Appending one leaf\<close>

definition state_ok :: "crypto_prims \<Rightarrow> log_service \<Rightarrow> bytes list \<Rightarrow> GlobalLogState \<Rightarrow> bool" where
  "state_ok prims svc hs state \<longleftrightarrow>
     gstate_CryptoSuite state = provider_Suite (svc_provider svc) \<and> gstate_SchemaVersion state = SchemaGlobalLogState \<and>
     gstate_TreeSize state = word_of_nat (length hs) \<and>
     gstate_RootHash state = (if hs = [] then [] else mth (nodeh prims svc) hs) \<and>
     fr_ok (nodeh prims svc) 0 (gstate_Frontier state) hs"

lemma appendState_guards:
  assumes "appendState prims svc now state leaf = Inr r"
  shows "gleaf_CryptoSuite leaf = provider_Suite (svc_provider svc)" "length (gleaf_LeafHash leaf) = profile_Size (svc_profile svc)"
    "gleaf_LeafIndex leaf = gstate_TreeSize state" "gstate_CryptoSuite state = provider_Suite (svc_provider svc)"
  using assms by (auto simp: appendState_def check_simps RequireSame_None)

lemma appendState_ok:
  assumes svc: "svc_ok svc" and st: "state_ok prims svc hs state" and hs: "digests hs" "Suc (length hs) < 2 ^ 64"
    and leaf: "gleaf_CryptoSuite leaf = provider_Suite (svc_provider svc)" "length (gleaf_LeafHash leaf) = 32"
      "gleaf_LeafIndex leaf = word_of_nat (length hs)"
  shows "\<exists>state' nodes. appendState prims svc now state leaf = Inr (state', nodes) \<and>
    state_ok prims svc (hs @ [gleaf_LeafHash leaf]) state' \<and> gstate_UpdatedAtUnixN state' = now \<and>
    list_all (new_node_ok prims svc now (hs @ [gleaf_LeafHash leaf])) nodes"
proof -
  let ?h = "gleaf_LeafHash leaf"
  have first: "new_node_ok prims svc now (hs @ [?h]) (log_node svc now 0 (gleaf_LeafIndex leaf) ?h)"
    unfolding leaf(3) using hs(2) by (intro log_node_ok [of _ _ "[?h]"]) auto
  obtain frontier level current nodes where
    c: "carry prims svc now (gstate_Frontier state) 0 (gleaf_LeafIndex leaf) ?h
          [log_node svc now 0 (gleaf_LeafIndex leaf) ?h] = Inr (frontier, level, current, nodes)"
    and ok: "carried prims svc now (hs @ [?h]) (frontier, level, current, nodes)"
    using carry_ok [OF svc, of prims 0 "gstate_Frontier state" hs "[?h]" ?h "gleaf_LeafIndex leaf" now
        "[log_node svc now 0 (gleaf_LeafIndex leaf) ?h]"] st hs leaf first
    by (auto simp: state_ok_def)
  define F where "F = (frontier @ replicate (Suc level - length frontier) [])[level := current]"
  have fr: "fr_ok (nodeh prims svc) 0 F (hs @ [?h])"
    unfolding F_def using carried_frontier [OF ok _ svc] hs leaf by simp
  have root: "rootFromFrontier prims (svc_profile svc) F = Inr (mth (nodeh prims svc) (hs @ [?h]))"
    using rootFromFrontier_ok [OF svc fr] hs leaf by simp
  have "RequireSame (provider_Suite (svc_provider svc)) [gstate_CryptoSuite state, gleaf_CryptoSuite leaf] = None"
    using st leaf by (simp add: RequireSame_provider state_ok_def)
  then have eq: "appendState prims svc now state leaf =
      Inr (\<lparr>gstate_SchemaVersion = SchemaGlobalLogState, gstate_CryptoSuite = provider_Suite (svc_provider svc),
           gstate_TreeSize = gstate_TreeSize state + 1, gstate_RootHash = mth (nodeh prims svc) (hs @ [?h]),
           gstate_Frontier = trimFrontier F, gstate_UpdatedAtUnixN = now\<rparr>, nodes)"
    using st leaf c root svc by (simp add: appendState_def check_simps state_ok_def svc_ok_profile(2) F_def Let_def)
  show ?thesis
    using eq fr ok st by (auto simp: state_ok_def carried_def)
qed

section \<open>Powers of two\<close>

lemma and_pred_pow2: "0 < n \<Longrightarrow> n AND (n - 1) = (0 :: nat) \<Longrightarrow> n = 2 ^ trailing_zeros n"
proof (induction n rule: trailing_zeros.induct)
  case (1 n)
  show ?case
  proof (cases "odd n")
    case True
    then obtain m where m: "n = 2 * m + 1" by (elim oddE)
    have "n AND (n - 1) = 2 * (m AND m)"
      by (subst and_rec) (simp add: m)
    with 1(3) have "m = 0" by simp
    with m show ?thesis by (simp add: trailing_zeros.simps)
  next
    case False
    then obtain m where m: "n = 2 * m" by auto
    with 1(2) have "0 < m" by simp
    moreover have "(2 * m - 1) div 2 = m - 1" using \<open>0 < m\<close> by simp
    then have "n AND (n - 1) = 2 * (m AND (m - 1))"
      by (subst and_rec) (simp add: m)
    ultimately have "m = 2 ^ trailing_zeros m"
      using 1 False m by simp
    with m False 1(2) show ?thesis
      by (subst trailing_zeros.simps) simp
  qed
qed

lemma isPowerOfTwo_pow2:
  assumes "isPowerOfTwo w"
  shows "unat w = 2 ^ trailing_zeros (unat w)" "trailing_zeros (unat w) < 64"
proof -
  have "0 < unat w" using assms by (simp add: isPowerOfTwo_def word_less_nat_alt)
  moreover have "unat w AND unat (w - 1) = 0"
    using assms by (metis isPowerOfTwo_def unsigned_and_eq unat_0)
  moreover have "unat (w - 1) = unat w - 1"
    using \<open>0 < unat w\<close> by (simp add: unat_sub word_le_nat_alt Suc_le_eq)
  ultimately show *: "unat w = 2 ^ trailing_zeros (unat w)"
    using and_pred_pow2 by simp
  have "(2 :: nat) ^ trailing_zeros (unat w) < 2 ^ 64"
    using * unsigned_less [of w, where 'a = nat] by simp
  then show "trailing_zeros (unat w) < 64"
    by (rule power_less_imp_less_exp [rotated]) simp
qed

lemma unat_subtree_split: "\<not> w < 2 \<Longrightarrow> unat (subtree_split w) = lpt (unat w)"
proof (cases "isPowerOfTwo w")
  case True
  assume "\<not> w < 2"
  then have "2 \<le> unat w" by (simp add: word_less_nat_alt)
  moreover obtain j where j: "unat w = 2 ^ j" using isPowerOfTwo_pow2 [OF True] by blast
  ultimately obtain i where i: "j = Suc i" by (cases j) auto
  have "lpt (unat w) = 2 ^ i" using j i by (intro lpt_eqI) auto
  with True j i show ?thesis by (simp add: subtree_split_def unat_div)
qed (simp add: subtree_split_def unat_gl_largestPowerOfTwoLessThan64)

end
