(* ===== verification/Store_Marker.thy ===== *)
theory Store_Marker
  imports Model_Suite Encodings Trust_Crypto Cborx
begin

text \<open>
  \<open>internal/proofstoremeta/marker.go\<close>: the durable binding of a proof store to a suite, a node,
  a log and a namespace, and the check every write of every backend starts with
  (\<open>requireSuite\<close>).

  The package's sentinels are the plain errors of their messages. \<open>Decode\<close> is generic in the
  CBOR decoders of the marker and of the former string schema, which are parameters.
\<close>

section \<open>Markers\<close>

abbreviation MarkerSchema :: string where "MarkerSchema \<equiv> ''trustdb.proofstore-namespace.v2''"
abbreviation StorageSchemaV5 :: string where "StorageSchemaV5 \<equiv> ''trustdb-proofstore-v5''"
abbreviation FormatGeneration :: uint64 where "FormatGeneration \<equiv> 5"
abbreviation MaxMarkerBytes :: int where "MaxMarkerBytes \<equiv> 4096"
abbreviation MaxIdentityBytes :: nat where "MaxIdentityBytes \<equiv> 256"

abbreviation ErrInvalidMarker :: go_error where "ErrInvalidMarker \<equiv> New_err ''invalid proofstore suite marker''"
abbreviation ErrLegacySchema :: go_error where
  "ErrLegacySchema \<equiv> New_err ''legacy proofstore schema has no cryptographic suite marker''"
abbreviation ErrSuiteMismatch :: go_error where
  "ErrSuiteMismatch \<equiv> New_err ''proofstore cryptographic suite mismatch''"

record Marker =
  mark_SchemaVersion :: string
  mark_StorageSchema :: string
  mark_FormatGeneration :: uint64
  mark_CryptoSuite :: suite_id
  mark_NodeID :: string
  mark_LogID :: string
  mark_NamespaceID :: string

text \<open>\<open>unicode.IsControl\<close> on the runes of a valid UTF-8 string: U+0000 to U+001F and U+007F to U+009F.\<close>

fun has_control :: "nat list \<Rightarrow> bool" where
  "has_control [] = False"
| "has_control (a # r) =
     (a < 0x20 \<or> a = 0x7F \<or> (a = 0xC2 \<and> (case r of b # _ \<Rightarrow> b < 0xA0 | [] \<Rightarrow> False)) \<or> has_control r)"

definition identity_field :: "string \<Rightarrow> go_error option" where
  "identity_field val = first_err
     [err_if (val = '''' \<or> TrimSpace val \<noteq> val) (Wrapf ''%w: %s is empty or has surrounding whitespace'' ErrInvalidMarker),
      err_if (length val > MaxIdentityBytes \<or> \<not> ValidString val)
        (Wrapf ''%w: %s is oversized or invalid UTF-8'' ErrInvalidMarker),
      err_if (has_control (map of_char val)) (Wrapf ''%w: %s contains a control character'' ErrInvalidMarker)]"

definition ValidateIdentity :: "string \<Rightarrow> string \<Rightarrow> string \<Rightarrow> go_error option" where
  "ValidateIdentity nodeID logID namespaceID = first_err (map identity_field [nodeID, logID, namespaceID])"

definition New_marker :: "suite_id \<Rightarrow> string \<Rightarrow> string \<Rightarrow> string \<Rightarrow> Marker res" where
  "New_marker suiteID nodeID logID namespaceID =
     checked (map_option (\<lambda>_. Wrapf ''%w: %v'' ErrInvalidMarker) (err_of (RequireAvailable suiteID)))
    (checked (ValidateIdentity nodeID logID namespaceID)
    (Inr \<lparr>mark_SchemaVersion = MarkerSchema, mark_StorageSchema = StorageSchemaV5,
          mark_FormatGeneration = FormatGeneration, mark_CryptoSuite = suiteID,
          mark_NodeID = nodeID, mark_LogID = logID, mark_NamespaceID = namespaceID\<rparr>))"

definition RequestedSuite :: "suite_id \<Rightarrow> suite_id res" where
  "RequestedSuite suiteID =
     (if suiteID = '''' then Inl (Wrapf ''%w: crypto_suite is required'' ErrInvalidMarker)
      else checked (err_of (RequireAvailable suiteID)) (Inr suiteID))"

definition Validate_marker :: "Marker \<Rightarrow> suite_id \<Rightarrow> go_error option" where
  "Validate_marker marker expected = first_err
     [err_if (mark_SchemaVersion marker \<noteq> MarkerSchema) (Wrapf ''%w: schema_version=%q want=%q'' ErrInvalidMarker),
      err_if (mark_StorageSchema marker \<noteq> StorageSchemaV5) (Wrapf ''%w: storage_schema=%q want=%q'' ErrInvalidMarker),
      err_if (mark_FormatGeneration marker \<noteq> FormatGeneration)
        (Wrapf ''%w: format_generation=%d want=%d'' ErrInvalidMarker),
      map_option (\<lambda>_. Wrapf ''%w: %v'' ErrInvalidMarker) (err_of (RequireKnown (mark_CryptoSuite marker))),
      ValidateIdentity (mark_NodeID marker) (mark_LogID marker) (mark_NamespaceID marker),
      map_option (\<lambda>_. Wrapf ''%w: expected suite: %v'' ErrInvalidMarker) (err_of (RequireKnown expected)),
      err_if (mark_CryptoSuite marker \<noteq> expected) (Wrapf ''%w: stored=%s configured=%s'' ErrSuiteMismatch)]"

definition ValidateBinding :: "Marker \<Rightarrow> suite_id \<Rightarrow> string \<Rightarrow> string \<Rightarrow> string \<Rightarrow> go_error option" where
  "ValidateBinding marker expected nodeID logID namespaceID = first_err
     [ValidateIdentity nodeID logID namespaceID,
      Validate_marker marker expected,
      err_if (mark_NodeID marker \<noteq> nodeID \<or> mark_LogID marker \<noteq> logID \<or> mark_NamespaceID marker \<noteq> namespaceID)
        (Wrapf ''%w: stored=(%q,%q,%q) configured=(%q,%q,%q)'' ErrInvalidMarker)]"

definition Decode_marker :: "Marker decMode \<Rightarrow> string decMode \<Rightarrow> bytes \<Rightarrow> Marker res" where
  "Decode_marker markerDec stringDec data =
     (case UnmarshalLimit markerDec data MaxMarkerBytes of
        Inr marker \<Rightarrow> Inr marker
      | Inl e \<Rightarrow>
          (case UnmarshalLimit stringDec data MaxMarkerBytes of
             Inr legacy \<Rightarrow> Inl (Wrapf ''%w: %q'' ErrLegacySchema)
           | Inl _ \<Rightarrow> Inl e))"

text \<open>\<open>requireSuite\<close> of the stores: a store validates its binding against itself.\<close>

definition requireSuite :: "Marker \<Rightarrow> suite_bound \<Rightarrow> go_error option" where
  "requireSuite binding val = first_err
     [map_option (\<lambda>e. Wrap CodeFailedPrecondition ''proofstore namespace binding'' (Some e))
        (ValidateBinding binding (mark_CryptoSuite binding) (mark_NodeID binding) (mark_LogID binding)
          (mark_NamespaceID binding)),
      map_option (\<lambda>e. Wrap CodeInvalidArgument ''proofstore crypto_suite'' (Some e))
        (Require (mark_CryptoSuite binding) val)]"

section \<open>Consequences\<close>

definition marker_valid :: "Marker \<Rightarrow> bool" where
  "marker_valid m \<longleftrightarrow> Validate_marker m (mark_CryptoSuite m) = None"

lemma New_marker_valid:
  assumes "New_marker sid n l ns = Inr m"
  shows "marker_valid m" "mark_CryptoSuite m = sid"
    "ValidateBinding m sid n l ns = None"
  using assms
  by (auto simp: New_marker_def marker_valid_def Validate_marker_def ValidateBinding_def check_simps
      RequireAvailable_Known)

lemma requireSuite_iff:
  "marker_valid m \<Longrightarrow> requireSuite m v = None \<longleftrightarrow> Require (mark_CryptoSuite m) v = None"
  by (auto simp: requireSuite_def marker_valid_def Validate_marker_def ValidateBinding_def check_simps)

end
