(* ===== verification/Tables.thy ===== *)
theory Tables
  imports Trust_Prelude
begin

text \<open>
  Ordered tables: association lists kept sorted by key, as a store keeps the entries under one
  key prefix. A backend's tables are read by key, scanned from a key on, and written one entry at
  a time or by a list of writes.
\<close>

type_synonym ('k, 'v) tbl = "('k \<times> 'v) list"

fun tput :: "'k::linorder \<Rightarrow> 'v \<Rightarrow> ('k, 'v) tbl \<Rightarrow> ('k, 'v) tbl" where
  "tput k v [] = [(k, v)]"
| "tput k v ((k', v') # t) =
     (if k < k' then (k, v) # (k', v') # t
      else if k = k' then (k, v) # t
      else (k', v') # tput k v t)"

abbreviation tget :: "('k, 'v) tbl \<Rightarrow> 'k \<Rightarrow> 'v option" where
  "tget \<equiv> map_of"

definition tscan :: "'k::linorder \<Rightarrow> ('k, 'v) tbl \<Rightarrow> 'v list" where
  "tscan k t = map snd (dropWhile (\<lambda>e. fst e < k) t)"

abbreviation sorted_tbl :: "('k::linorder, 'v) tbl \<Rightarrow> bool" where
  "sorted_tbl t \<equiv> sorted_wrt (<) (map fst t)"

lemma tget_tput [simp]: "tget (tput k v t) = (tget t)(k \<mapsto> v)"
  by (induction t) (auto simp: fun_upd_twist)

lemma keys_tput [simp]: "fst ` set (tput k v t) = insert k (fst ` set t)"
proof (induction t)
  case (Cons e t)
  then show ?case
    by (cases e) (simp add: insert_commute)
qed simp

lemma sorted_tput [simp]: "sorted_tbl t \<Longrightarrow> sorted_tbl (tput k v t)"
proof (induction t)
  case (Cons e t)
  obtain k' v' where "e = (k', v')" by (cases e)
  with Cons keys_tput [of k v t] show ?case
    by (auto simp: image_iff Ball_def)
qed simp

lemma tput_last: "sorted_tbl t \<Longrightarrow> \<forall>x \<in> fst ` set t. x < k \<Longrightarrow> tput k v t = t @ [(k, v)]"
  by (induction t) auto

lemma tget_last:
  assumes "sorted_tbl t" "t \<noteq> []"
  shows "tget t (fst (last t)) = Some (snd (last t))"
proof -
  have "distinct (map fst t)"
    using assms(1) by (simp add: strict_sorted_iff)
  moreover have "last t \<in> set t" using assms(2) by simp
  ultimately show ?thesis by (metis map_of_eq_Some_iff prod.collapse)
qed

lemma last_greatest:
  assumes "sorted_tbl t" "k \<in> fst ` set t"
  shows "k \<le> fst (last t)"
  using assms
proof (induction t)
  case (Cons e t)
  show ?case
  proof (cases "t = []")
    case False
    with Cons have *: "\<forall>x \<in> fst ` set t. fst e < x" "fst (last t) \<in> fst ` set t" by auto
    with Cons False show ?thesis by (auto simp: less_imp_le)
  qed (use Cons in simp)
qed simp

lemma tscan_all: "sorted_tbl t \<Longrightarrow> \<forall>x \<in> fst ` set t. k \<le> x \<Longrightarrow> tscan k t = map snd t"
  by (cases t) (auto simp: tscan_def)

lemma tscan_none: "\<forall>x \<in> fst ` set t. x < k \<Longrightarrow> tscan k t = []"
  by (simp add: tscan_def)

section \<open>Tables over consecutive 64-bit keys\<close>

definition idx_tbl :: "nat \<Rightarrow> (nat \<Rightarrow> 'v) \<Rightarrow> nat \<Rightarrow> (uint64, 'v) tbl" where
  "idx_tbl a f b = map (\<lambda>i. (word_of_nat i, f i)) [a..<b]"

lemma word_of_nat_less: "i < j \<Longrightarrow> j < 2 ^ 64 \<Longrightarrow> (word_of_nat i :: uint64) < word_of_nat j"
  by (simp add: word_less_nat_alt unat_of_nat)

lemma unat_word_of_nat_id: "i < 2 ^ 64 \<Longrightarrow> unat (word_of_nat i :: uint64) = i"
  by (simp add: unat_of_nat)

lemma sorted_idx_tbl: "b \<le> 2 ^ 64 \<Longrightarrow> sorted_tbl (idx_tbl a f b)"
  by (auto simp: idx_tbl_def sorted_wrt_map o_def intro!: word_of_nat_less sorted_wrt_mono_rel [OF _ sorted_wrt_upt])

lemma tget_idx_tbl:
  assumes "b \<le> 2 ^ 64"
  shows "tget (idx_tbl a f b) w = (if a \<le> unat w \<and> unat w < b then Some (f (unat w)) else None)"
  using assms
proof (induction b)
  case (Suc b)
  show ?case
  proof (cases "a \<le> b")
    case True
    then have *: "idx_tbl a f (Suc b) = idx_tbl a f b @ [(word_of_nat b, f b)]" by (simp add: idx_tbl_def)
    have "w = word_of_nat b \<longleftrightarrow> unat w = b"
      using Suc.prems by (auto simp: unat_word_of_nat_id)
    with Suc True show ?thesis
      by (auto simp: * map_add_def split: option.splits)
  qed (simp add: idx_tbl_def)
qed (simp add: idx_tbl_def)

lemma tput_idx_tbl:
  assumes "a \<le> b" "b < 2 ^ 64"
  shows "tput (word_of_nat b) v (idx_tbl a f b) = idx_tbl a (f(b := v)) (Suc b)"
proof -
  have "tput (word_of_nat b) v (idx_tbl a f b) = idx_tbl a f b @ [(word_of_nat b, v)]"
    using assms by (intro tput_last sorted_idx_tbl) (auto simp: idx_tbl_def intro: word_of_nat_less)
  also have "\<dots> = idx_tbl a (f(b := v)) (Suc b)"
    using assms by (simp add: idx_tbl_def)
  finally show ?thesis .
qed

lemma tscan_idx_tbl:
  assumes "a \<le> k" "k \<le> b" "b < 2 ^ 64"
  shows "tscan (word_of_nat k) (idx_tbl a f b) = map f [k..<b]"
proof -
  have "[a..<b] = [a..<k] @ [k..<b]"
    using assms by (metis le_Suc_ex upt_add_eq_append)
  then have "idx_tbl a f b = idx_tbl a f k @ idx_tbl k f b" by (simp add: idx_tbl_def)
  moreover have "dropWhile (\<lambda>e. fst e < word_of_nat k) (idx_tbl a f k @ idx_tbl k f b) =
      dropWhile (\<lambda>e. fst e < word_of_nat k) (idx_tbl k f b)"
    using assms by (intro dropWhile_append2) (auto simp: idx_tbl_def intro!: word_of_nat_less)
  moreover have "dropWhile (\<lambda>e. fst e < word_of_nat k) (idx_tbl k f b) = idx_tbl k f b"
    by (cases "k < b") (simp_all add: idx_tbl_def upt_conv_Cons)
  ultimately show ?thesis by (simp add: tscan_def) (simp add: idx_tbl_def)
qed

lemma last_idx_tbl: "a < b \<Longrightarrow> last (idx_tbl a f b) = (word_of_nat (b - 1), f (b - 1))"
  by (cases b) (auto simp: idx_tbl_def)

lemma idx_tbl_Nil [simp]: "idx_tbl a f b = [] \<longleftrightarrow> b \<le> a"
  by (auto simp: idx_tbl_def)

end
