(* ===== verification/Log_Stores.thy ===== *)
theory Log_Stores
  imports Global_Log Store_Marker Tables
begin

text \<open>
  The global-log part of the proof stores: \<open>internal/proofstore/pebble/store.go\<close>,
  \<open>internal/proofstore/tikv/store.go\<close> and \<open>internal/proofstore/local.go\<close>.

  \<^item> \<open>log_tables\<close> holds one table per key prefix (Pebble, TiKV) or directory (files). The
    keys are fixed-width decimal numbers, so their byte order is the order of the numbers. A stored
    object is its value: the CBOR library's encoding is taken to round-trip.
  \<^item> The storage engine is a parameter through the state: \<open>kv_commits\<close> lists what the next
    commits return (\<open>None\<close> or missing for success, an error for a commit that has no effect) and
    \<open>kv_read_error\<close> makes every read fail. \<open>lf_writes\<close> lists what happens to the next
    file writes; a write whose last directory sync fails has replaced the file all the same.
  \<^item> \<open>time.Now()\<close> is one value \<open>now\<close> per call.
\<close>

section \<open>Tables\<close>

record log_tables =
  lt_leaves :: "(uint64, GlobalLogLeaf) tbl"
  lt_batch :: "string \<Rightarrow> GlobalLogLeaf option"
  lt_nodes :: "uint64 \<times> uint64 \<Rightarrow> GlobalLogNode option"
  lt_state :: "GlobalLogState option"
  lt_sths :: "(uint64, SignedTreeHead) tbl"
  lt_tiles :: "uint64 \<times> uint64 \<times> uint64 \<Rightarrow> GlobalLogTile option"

definition empty_tables :: log_tables where
  "empty_tables = \<lparr>lt_leaves = [], lt_batch = Map.empty, lt_nodes = Map.empty, lt_state = None, lt_sths = [],
     lt_tiles = Map.empty\<rparr>"

definition set_leaf :: "GlobalLogLeaf \<Rightarrow> log_tables \<Rightarrow> log_tables" where
  "set_leaf leaf t = t\<lparr>lt_leaves := tput (gleaf_LeafIndex leaf) leaf (lt_leaves t)\<rparr>"

definition set_batch :: "GlobalLogLeaf \<Rightarrow> log_tables \<Rightarrow> log_tables" where
  "set_batch leaf t = t\<lparr>lt_batch := (lt_batch t)(gleaf_BatchID leaf \<mapsto> leaf)\<rparr>"

definition set_node :: "GlobalLogNode \<Rightarrow> log_tables \<Rightarrow> log_tables" where
  "set_node node t = t\<lparr>lt_nodes := (lt_nodes t)((gnode_Level node, gnode_StartIndex node) \<mapsto> node)\<rparr>"

definition set_state :: "GlobalLogState \<Rightarrow> log_tables \<Rightarrow> log_tables" where
  "set_state state t = t\<lparr>lt_state := Some state\<rparr>"

definition set_sth :: "SignedTreeHead \<Rightarrow> log_tables \<Rightarrow> log_tables" where
  "set_sth sth t = t\<lparr>lt_sths := tput (sth_TreeSize sth) sth (lt_sths t)\<rparr>"

definition set_tile :: "GlobalLogTile \<Rightarrow> log_tables \<Rightarrow> log_tables" where
  "set_tile tile t = t\<lparr>lt_tiles := (lt_tiles t)((gtile_Level tile, gtile_StartIndex tile, gtile_Width tile) \<mapsto> tile)\<rparr>"

section \<open>Defaults of a write\<close>

definition leaf_defaults :: "int64 \<Rightarrow> GlobalLogLeaf \<Rightarrow> GlobalLogLeaf" where
  "leaf_defaults now leaf =
     leaf\<lparr>gleaf_SchemaVersion := (if gleaf_SchemaVersion leaf = '''' then SchemaGlobalLogLeaf else gleaf_SchemaVersion leaf),
          gleaf_AppendedAtUnixN := (if gleaf_AppendedAtUnixN leaf = 0 then now else gleaf_AppendedAtUnixN leaf)\<rparr>"

definition node_defaults :: "int64 \<Rightarrow> GlobalLogNode \<Rightarrow> GlobalLogNode" where
  "node_defaults now node =
     node\<lparr>gnode_SchemaVersion := (if gnode_SchemaVersion node = '''' then SchemaGlobalLogNode else gnode_SchemaVersion node),
          gnode_CreatedAtUnixN := (if gnode_CreatedAtUnixN node = 0 then now else gnode_CreatedAtUnixN node)\<rparr>"

definition state_defaults :: "int64 \<Rightarrow> GlobalLogState \<Rightarrow> GlobalLogState" where
  "state_defaults now state =
     state\<lparr>gstate_SchemaVersion := (if gstate_SchemaVersion state = '''' then SchemaGlobalLogState else gstate_SchemaVersion state),
           gstate_UpdatedAtUnixN := (if gstate_UpdatedAtUnixN state = 0 then now else gstate_UpdatedAtUnixN state)\<rparr>"

definition sth_defaults :: "int64 \<Rightarrow> SignedTreeHead \<Rightarrow> SignedTreeHead" where
  "sth_defaults now sth =
     sth\<lparr>sth_SchemaVersion := (if sth_SchemaVersion sth = '''' then SchemaSignedTreeHead else sth_SchemaVersion sth),
         sth_TimestampUnixN := (if sth_TimestampUnixN sth = 0 then now else sth_TimestampUnixN sth)\<rparr>"

definition tile_defaults :: "int64 \<Rightarrow> GlobalLogTile \<Rightarrow> GlobalLogTile" where
  "tile_defaults now tile =
     tile\<lparr>gtile_SchemaVersion := (if gtile_SchemaVersion tile = '''' then SchemaGlobalLogTile else gtile_SchemaVersion tile),
          gtile_CreatedAtUnixN := (if gtile_CreatedAtUnixN tile = 0 then now else gtile_CreatedAtUnixN tile)\<rparr>"

definition append_defaults :: "int64 \<Rightarrow> GlobalLogAppend \<Rightarrow> GlobalLogAppend" where
  "append_defaults now entry =
     \<lparr>gapp_Leaf = leaf_defaults now (gapp_Leaf entry), gapp_Nodes = map (node_defaults now) (gapp_Nodes entry),
      gapp_State = state_defaults now (gapp_State entry), gapp_STH = sth_defaults now (gapp_STH entry)\<rparr>"

text \<open>The staged writes of one append, without the state.\<close>

definition stage_append :: "GlobalLogAppend \<Rightarrow> log_tables \<Rightarrow> log_tables" where
  "stage_append entry t =
     set_sth (gapp_STH entry) (fold set_node (gapp_Nodes entry) (set_batch (gapp_Leaf entry) (set_leaf (gapp_Leaf entry) t)))"

definition append_error :: "GlobalLogAppend \<Rightarrow> go_error option" where
  "append_error entry = first_err
     ([err_if (gleaf_BatchID (gapp_Leaf entry) = '''') (New CodeInvalidArgument ''global log append leaf batch_id is required''),
       err_if (sth_TreeSize (gapp_STH entry) = 0) (New CodeInvalidArgument ''global log append STH tree_size is required''),
       err_if (gleaf_LeafIndex (gapp_Leaf entry) \<noteq> sth_TreeSize (gapp_STH entry) - 1)
         (New CodeInvalidArgument ''global log append STH tree_size must match leaf index''),
       err_if (gstate_TreeSize (gapp_State entry) \<noteq> sth_TreeSize (gapp_STH entry))
         (New CodeInvalidArgument ''global log append state and STH tree_size must match'')] @
      map (\<lambda>node. err_if (gnode_Width node = 0) (New CodeInvalidArgument ''global log append node width is required''))
        (gapp_Nodes entry))"

definition canceled :: "go_context \<Rightarrow> string \<Rightarrow> go_error option" where
  "canceled ctx m = map_option (\<lambda>e. Wrap CodeDeadlineExceeded m (Some e)) ctx"

definition seq_err ::
  "('s \<Rightarrow> 's \<times> go_error option) \<Rightarrow> ('s \<Rightarrow> 's \<times> go_error option) \<Rightarrow> 's \<Rightarrow> 's \<times> go_error option" where
  "seq_err f g s = (case f s of (s', Some e) \<Rightarrow> (s', Some e) | (s', None) \<Rightarrow> g s')"

definition write_checked :: "go_error option \<Rightarrow> ('s \<Rightarrow> 's \<times> go_error option) \<Rightarrow> 's \<Rightarrow> 's \<times> go_error option" where
  "write_checked c f s = (case c of Some e \<Rightarrow> (s, Some e) | None \<Rightarrow> f s)"

definition wrap_write :: "(go_error \<Rightarrow> go_error) \<Rightarrow> 's \<times> go_error option \<Rightarrow> 's \<times> go_error option" where
  "wrap_write w r = (fst r, map_option w (snd r))"

section \<open>The key-value backends\<close>

record kv_store =
  kv_binding :: Marker
  kv_tables :: log_tables
  kv_commits :: "go_error option list"
  kv_read_error :: "go_error option"

definition kv_commit :: "(log_tables \<Rightarrow> log_tables) \<Rightarrow> kv_store \<Rightarrow> kv_store \<times> go_error option" where
  "kv_commit f s =
     (case kv_commits s of
        Some e # rest \<Rightarrow> (s\<lparr>kv_commits := rest\<rparr>, Some e)
      | _ \<Rightarrow> (s\<lparr>kv_tables := f (kv_tables s), kv_commits := tl (kv_commits s)\<rparr>, None))"

definition kv_get :: "go_context \<Rightarrow> string \<Rightarrow> string \<Rightarrow> kv_store \<Rightarrow> 'v \<Rightarrow> 'v res" where
  "kv_get ctx cancelMsg readMsg s v =
     checked (canceled ctx cancelMsg)
       (case kv_read_error s of Some e \<Rightarrow> Inl (Wrap CodeDataLoss readMsg (Some e)) | None \<Rightarrow> Inr v)"

definition pb_PutGlobalLeaf :: "go_context \<Rightarrow> int64 \<Rightarrow> kv_store \<Rightarrow> GlobalLogLeaf \<Rightarrow> kv_store \<times> go_error option" where
  "pb_PutGlobalLeaf ctx now s leaf =
     write_checked (first_err
       [canceled ctx ''proofstore put global leaf canceled'',
        requireSuite (kv_binding s) (SB_GlobalLogLeaf leaf),
        err_if (gleaf_BatchID leaf = '''') (New CodeInvalidArgument ''global log leaf batch_id is required'')])
     (\<lambda>s. let leaf = leaf_defaults now leaf in
        wrap_write (\<lambda>e. Wrap CodeDataLoss ''commit global leaf'' (Some e))
          (kv_commit (\<lambda>t. set_batch leaf (set_leaf leaf t)) s)) s"

definition pb_GetGlobalLeaf :: "go_context \<Rightarrow> kv_store \<Rightarrow> uint64 \<Rightarrow> GlobalLogLeaf option res" where
  "pb_GetGlobalLeaf ctx s index =
     kv_get ctx ''proofstore get global leaf canceled'' ''read global leaf'' s (tget (lt_leaves (kv_tables s)) index)"

definition pb_GetGlobalLeafByBatchID :: "go_context \<Rightarrow> kv_store \<Rightarrow> string \<Rightarrow> GlobalLogLeaf option res" where
  "pb_GetGlobalLeafByBatchID ctx s batchID =
     checked (first_err
       [canceled ctx ''proofstore get global leaf by batch canceled'',
        err_if (batchID = '''') (New CodeInvalidArgument ''batch_id is required'')])
     (kv_get ctx ''proofstore get global leaf by batch canceled'' ''read global leaf batch index'' s
       (lt_batch (kv_tables s) batchID))"

definition pb_PutGlobalLogNode :: "go_context \<Rightarrow> int64 \<Rightarrow> kv_store \<Rightarrow> GlobalLogNode \<Rightarrow> kv_store \<times> go_error option" where
  "pb_PutGlobalLogNode ctx now s node =
     write_checked (first_err
       [canceled ctx ''proofstore put global node canceled'',
        requireSuite (kv_binding s) (SB_GlobalLogNode node),
        err_if (gnode_Width node = 0) (New CodeInvalidArgument ''global log node width is required'')])
     (\<lambda>s. wrap_write (\<lambda>e. Wrap CodeDataLoss ''write global node'' (Some e))
        (kv_commit (set_node (node_defaults now node)) s)) s"

definition pb_GetGlobalLogNode :: "go_context \<Rightarrow> kv_store \<Rightarrow> uint64 \<Rightarrow> uint64 \<Rightarrow> GlobalLogNode option res" where
  "pb_GetGlobalLogNode ctx s level startIndex =
     kv_get ctx ''proofstore get global node canceled'' ''read global node'' s
       (lt_nodes (kv_tables s) (level, startIndex))"

definition pb_PutGlobalLogState :: "go_context \<Rightarrow> int64 \<Rightarrow> kv_store \<Rightarrow> GlobalLogState \<Rightarrow> kv_store \<times> go_error option" where
  "pb_PutGlobalLogState ctx now s state =
     write_checked (first_err
       [canceled ctx ''proofstore put global state canceled'',
        requireSuite (kv_binding s) (SB_GlobalLogState state)])
     (\<lambda>s. wrap_write (\<lambda>e. Wrap CodeDataLoss ''write global state'' (Some e))
        (kv_commit (set_state (state_defaults now state)) s)) s"

definition pb_GetGlobalLogState :: "go_context \<Rightarrow> kv_store \<Rightarrow> GlobalLogState option res" where
  "pb_GetGlobalLogState ctx s =
     kv_get ctx ''proofstore get global state canceled'' ''read global state'' s (lt_state (kv_tables s))"

definition pb_ListGlobalLeavesRange :: "go_context \<Rightarrow> kv_store \<Rightarrow> uint64 \<Rightarrow> int \<Rightarrow> GlobalLogLeaf list res" where
  "pb_ListGlobalLeavesRange ctx s startIndex limit =
     kv_get ctx ''proofstore list global leaves range canceled'' ''open global leaf iterator'' s
       (take (nat (if limit \<le> 0 then 100 else limit)) (tscan startIndex (lt_leaves (kv_tables s))))"

definition pb_PutSignedTreeHead :: "go_context \<Rightarrow> int64 \<Rightarrow> kv_store \<Rightarrow> SignedTreeHead \<Rightarrow> kv_store \<times> go_error option" where
  "pb_PutSignedTreeHead ctx now s sth =
     write_checked (first_err
       [canceled ctx ''proofstore put sth canceled'',
        requireSuite (kv_binding s) (SB_SignedTreeHead sth),
        err_if (sth_TreeSize sth = 0) (New CodeInvalidArgument ''sth tree_size is required'')])
     (\<lambda>s. wrap_write (\<lambda>e. Wrap CodeDataLoss ''write signed tree head'' (Some e))
        (kv_commit (set_sth (sth_defaults now sth)) s)) s"

definition pb_GetSignedTreeHead :: "go_context \<Rightarrow> kv_store \<Rightarrow> uint64 \<Rightarrow> SignedTreeHead option res" where
  "pb_GetSignedTreeHead ctx s treeSize =
     checked (first_err
       [canceled ctx ''proofstore get sth canceled'',
        err_if (treeSize = 0) (New CodeInvalidArgument ''sth tree_size is required'')])
     (kv_get ctx ''proofstore get sth canceled'' ''read signed tree head'' s (tget (lt_sths (kv_tables s)) treeSize))"

definition pb_LatestSignedTreeHead :: "go_context \<Rightarrow> kv_store \<Rightarrow> SignedTreeHead option res" where
  "pb_LatestSignedTreeHead ctx s =
     kv_get ctx ''proofstore latest sth canceled'' ''open sth iterator'' s
       (case lt_sths (kv_tables s) of [] \<Rightarrow> None | e # es \<Rightarrow> Some (snd (last (e # es))))"

definition pb_PutGlobalLogTile :: "go_context \<Rightarrow> int64 \<Rightarrow> kv_store \<Rightarrow> GlobalLogTile \<Rightarrow> kv_store \<times> go_error option" where
  "pb_PutGlobalLogTile ctx now s tile =
     write_checked (first_err
       [canceled ctx ''proofstore put global tile canceled'',
        requireSuite (kv_binding s) (SB_GlobalLogTile tile),
        err_if (gtile_Width tile = 0) (New CodeInvalidArgument ''global log tile width is required'')])
     (kv_commit (set_tile (tile_defaults now tile))) s"

definition pb_CommitGlobalLogAppend :: "go_context \<Rightarrow> int64 \<Rightarrow> kv_store \<Rightarrow> GlobalLogAppend \<Rightarrow> kv_store \<times> go_error option" where
  "pb_CommitGlobalLogAppend ctx now s entry =
     write_checked (first_err
       [canceled ctx ''proofstore commit global log append canceled'',
        requireSuite (kv_binding s) (SB_GlobalLogAppend entry),
        append_error entry])
     (\<lambda>s. let entry = append_defaults now entry in
        wrap_write (\<lambda>e. Wrap CodeDataLoss ''commit global log append'' (Some e))
          (kv_commit (\<lambda>t. set_state (gapp_State entry) (stage_append entry t)) s)) s"

definition appends_error :: "GlobalLogAppend \<Rightarrow> go_error option" where
  "appends_error entry = first_err
     (err_if (gleaf_BatchID (gapp_Leaf entry) = '''' \<or> sth_TreeSize (gapp_STH entry) = 0 \<or>
              gleaf_LeafIndex (gapp_Leaf entry) \<noteq> sth_TreeSize (gapp_STH entry) - 1 \<or>
              gstate_TreeSize (gapp_State entry) \<noteq> sth_TreeSize (gapp_STH entry))
        (New CodeInvalidArgument ''invalid global log append'') #
      map (\<lambda>node. err_if (gnode_Width node = 0) (New CodeInvalidArgument ''global log append node width is required''))
        (gapp_Nodes entry))"

definition stage_appends :: "GlobalLogAppend list \<Rightarrow> log_tables \<Rightarrow> log_tables" where
  "stage_appends entries t = set_state (gapp_State (last entries)) (fold stage_append entries t)"

definition pb_CommitGlobalLogAppends ::
  "go_context \<Rightarrow> int64 \<Rightarrow> kv_store \<Rightarrow> GlobalLogAppend list \<Rightarrow> kv_store \<times> go_error option" where
  "pb_CommitGlobalLogAppends ctx now s entries =
     write_checked (first_err
       ([canceled ctx ''proofstore commit global log appends canceled''] @
        map (\<lambda>entry. map_option (\<lambda>e. Wrap CodeInvalidArgument ''global log append %d'' (Some e))
          (requireSuite (kv_binding s) (SB_GlobalLogAppend entry))) entries @
        [err_if (entries = []) (New CodeInvalidArgument ''global log appends require at least one entry'')] @
        map appends_error entries))
     (\<lambda>s. wrap_write (\<lambda>e. Wrap CodeDataLoss ''commit global log appends'' (Some e))
        (kv_commit (stage_appends (map (append_defaults now) entries)) s)) s"

text \<open>The method table the service gets; the anchor readers belong to the anchor part of the store.\<close>

definition pebble_log_store :: "go_context \<Rightarrow> int64 \<Rightarrow> kv_store log_store" where
  "pebble_log_store ctx now =
     \<lparr>ls_GetGlobalLeaf = pb_GetGlobalLeaf ctx, ls_GetGlobalLeafByBatchID = pb_GetGlobalLeafByBatchID ctx,
      ls_ListGlobalLeavesRange = pb_ListGlobalLeavesRange ctx, ls_PutGlobalLogNode = pb_PutGlobalLogNode ctx now,
      ls_GetGlobalLogNode = pb_GetGlobalLogNode ctx, ls_PutGlobalLogState = pb_PutGlobalLogState ctx now,
      ls_GetGlobalLogState = pb_GetGlobalLogState ctx, ls_GetSignedTreeHead = pb_GetSignedTreeHead ctx,
      ls_LatestSignedTreeHead = (\<lambda>s. (s, pb_LatestSignedTreeHead ctx s)),
      ls_PutGlobalLogTile = pb_PutGlobalLogTile ctx now, ls_CommitGlobalLogAppend = pb_CommitGlobalLogAppend ctx now,
      ls_CommitGlobalLogAppends = Some (pb_CommitGlobalLogAppends ctx now),
      ls_LatestSTHAnchorResult = None, ls_LatestSTHAnchorResultForKey = None\<rparr>"

section \<open>TiKV\<close>

text \<open>
  TiKV reads and single writes are those above. An append commits in a transaction that first reads
  the persisted state: \<open>conflict\<close> tells the client library's write-conflict errors.
\<close>

definition globalLogCommitError :: "(go_error \<Rightarrow> bool) \<Rightarrow> go_error \<Rightarrow> go_error" where
  "globalLogCommitError conflict err =
     (if conflict err then Wrap CodeFailedPrecondition ''global log append lost concurrent write'' (Some err) else err)"

definition commitWithGlobalLogFence ::
  "(go_error \<Rightarrow> bool) \<Rightarrow> go_context \<Rightarrow> (log_tables \<Rightarrow> log_tables) \<Rightarrow> uint64 \<Rightarrow> kv_store \<Rightarrow> kv_store \<times> go_error option" where
  "commitWithGlobalLogFence conflict ctx f expectedTreeSize s =
     (case kv_read_error s of
        Some e \<Rightarrow> (s, Some (case ctx of
            Some c \<Rightarrow> Wrap CodeDeadlineExceeded ''read global log state fence canceled'' (Some c)
          | None \<Rightarrow> Wrap CodeDataLoss ''read global log state fence'' (Some e)))
      | None \<Rightarrow>
          let persisted = (case lt_state (kv_tables s) of None \<Rightarrow> 0 | Some state \<Rightarrow> gstate_TreeSize state) in
          if persisted \<noteq> expectedTreeSize
          then (s, Some (New CodeFailedPrecondition ''global log append is based on stale tree state''))
          else wrap_write (globalLogCommitError conflict) (kv_commit f s))"

definition tikv_commit_error :: "string \<Rightarrow> go_error \<Rightarrow> go_error" where
  "tikv_commit_error m e = (if CodeOf (Some e) = CodeFailedPrecondition then e else Wrap CodeDataLoss m (Some e))"

definition tikv_CommitGlobalLogAppend ::
  "(go_error \<Rightarrow> bool) \<Rightarrow> go_context \<Rightarrow> int64 \<Rightarrow> kv_store \<Rightarrow> GlobalLogAppend \<Rightarrow> kv_store \<times> go_error option" where
  "tikv_CommitGlobalLogAppend conflict ctx now s entry =
     write_checked (first_err
       [canceled ctx ''proofstore commit global log append canceled'',
        requireSuite (kv_binding s) (SB_GlobalLogAppend entry),
        append_error entry])
     (\<lambda>s. let entry = append_defaults now entry in
        wrap_write (tikv_commit_error ''commit global log append'')
          (commitWithGlobalLogFence conflict ctx (\<lambda>t. set_state (gapp_State entry) (stage_append entry t))
            (gleaf_LeafIndex (gapp_Leaf entry)) s)) s"

definition contiguous_error :: "GlobalLogAppend list \<Rightarrow> nat \<Rightarrow> go_error option" where
  "contiguous_error entries i =
     err_if (gleaf_LeafIndex (gapp_Leaf (entries ! i)) \<noteq> gleaf_LeafIndex (gapp_Leaf (entries ! 0)) + word_of_nat i)
       (New CodeInvalidArgument ''global log appends must be contiguous'')"

definition tikv_CommitGlobalLogAppends ::
  "(go_error \<Rightarrow> bool) \<Rightarrow> go_context \<Rightarrow> int64 \<Rightarrow> kv_store \<Rightarrow> GlobalLogAppend list \<Rightarrow> kv_store \<times> go_error option" where
  "tikv_CommitGlobalLogAppends conflict ctx now s entries =
     write_checked (first_err
       ([canceled ctx ''proofstore commit global log appends canceled''] @
        map (\<lambda>entry. map_option (\<lambda>e. Wrap CodeInvalidArgument ''global log append %d'' (Some e))
          (requireSuite (kv_binding s) (SB_GlobalLogAppend entry))) entries @
        [err_if (entries = []) (New CodeInvalidArgument ''global log appends require at least one entry'')] @
        map (\<lambda>i. first_err
          (let entry = entries ! i in
           [err_if (gleaf_BatchID (gapp_Leaf entry) = '''' \<or> sth_TreeSize (gapp_STH entry) = 0 \<or>
              gleaf_LeafIndex (gapp_Leaf entry) \<noteq> sth_TreeSize (gapp_STH entry) - 1 \<or>
              gstate_TreeSize (gapp_State entry) \<noteq> sth_TreeSize (gapp_STH entry))
              (New CodeInvalidArgument ''invalid global log append''),
            contiguous_error entries i] @
           map (\<lambda>node. err_if (gnode_Width node = 0) (New CodeInvalidArgument ''global log append node width is required''))
             (gapp_Nodes entry))) [0..<length entries]))
     (\<lambda>s. wrap_write (tikv_commit_error ''commit global log appends'')
        (commitWithGlobalLogFence conflict ctx (stage_appends (map (append_defaults now) entries))
          (gleaf_LeafIndex (gapp_Leaf (entries ! 0))) s)) s"

definition tikv_log_store :: "(go_error \<Rightarrow> bool) \<Rightarrow> go_context \<Rightarrow> int64 \<Rightarrow> kv_store log_store" where
  "tikv_log_store conflict ctx now =
     (pebble_log_store ctx now)
       \<lparr>ls_CommitGlobalLogAppend := tikv_CommitGlobalLogAppend conflict ctx now,
        ls_CommitGlobalLogAppends := Some (tikv_CommitGlobalLogAppends conflict ctx now)\<rparr>"

section \<open>The file store\<close>

datatype write_outcome = write_ok | write_failed go_error | write_unsynced go_error

record local_store =
  lf_binding :: Marker
  lf_open :: bool
  lf_tables :: log_tables
  lf_latest :: "uint64 option"
  lf_writes :: "write_outcome list"

definition beginOperation :: "local_store \<Rightarrow> go_error option" where
  "beginOperation s = err_if (\<not> lf_open s) (New CodeFailedPrecondition ''file proofstore is closing or closed'')"

text \<open>\<open>writeCBORAtomic\<close>: \<open>f\<close> is the replacement of the file.\<close>

definition writeCBORAtomic :: "(local_store \<Rightarrow> local_store) \<Rightarrow> local_store \<Rightarrow> local_store \<times> go_error option" where
  "writeCBORAtomic f s =
     (let s' = s\<lparr>lf_writes := tl (lf_writes s)\<rparr> in
      case lf_writes s of
        write_failed e # _ \<Rightarrow> (s', Some e)
      | write_unsynced e # _ \<Rightarrow> (f s', Some e)
      | _ \<Rightarrow> (f s', None))"

definition lf_update :: "(log_tables \<Rightarrow> log_tables) \<Rightarrow> local_store \<Rightarrow> local_store" where
  "lf_update f s = s\<lparr>lf_tables := f (lf_tables s)\<rparr>"

definition putGlobalLeaf :: "go_context \<Rightarrow> int64 \<Rightarrow> GlobalLogLeaf \<Rightarrow> local_store \<Rightarrow> local_store \<times> go_error option" where
  "putGlobalLeaf ctx now leaf s =
     write_checked (first_err
       [canceled ctx ''proofstore put global leaf canceled'',
        requireSuite (lf_binding s) (SB_GlobalLogLeaf leaf),
        err_if (gleaf_BatchID leaf = '''') (New CodeInvalidArgument ''global log leaf batch_id is required'')])
     (let leaf = leaf_defaults now leaf in
      seq_err
        (\<lambda>s. wrap_write (\<lambda>e. Wrap CodeDataLoss ''write global log leaf'' (Some e))
           (writeCBORAtomic (lf_update (set_leaf leaf)) s))
        (\<lambda>s. wrap_write (\<lambda>e. Wrap CodeDataLoss ''write global log batch index'' (Some e))
           (writeCBORAtomic (lf_update (set_batch leaf)) s))) s"

definition putGlobalLogNode :: "go_context \<Rightarrow> int64 \<Rightarrow> GlobalLogNode \<Rightarrow> local_store \<Rightarrow> local_store \<times> go_error option" where
  "putGlobalLogNode ctx now node s =
     write_checked (first_err
       [canceled ctx ''proofstore put global node canceled'',
        requireSuite (lf_binding s) (SB_GlobalLogNode node),
        err_if (gnode_Width node = 0) (New CodeInvalidArgument ''global log node width is required'')])
     (\<lambda>s. wrap_write (\<lambda>e. Wrap CodeDataLoss ''write global log node'' (Some e))
        (writeCBORAtomic (lf_update (set_node (node_defaults now node))) s)) s"

definition putGlobalLogState :: "go_context \<Rightarrow> int64 \<Rightarrow> GlobalLogState \<Rightarrow> local_store \<Rightarrow> local_store \<times> go_error option" where
  "putGlobalLogState ctx now state s =
     write_checked (first_err
       [canceled ctx ''proofstore put global state canceled'',
        requireSuite (lf_binding s) (SB_GlobalLogState state)])
     (\<lambda>s. wrap_write (\<lambda>e. Wrap CodeDataLoss ''write global log state'' (Some e))
        (writeCBORAtomic (lf_update (set_state (state_defaults now state))) s)) s"

definition getGlobalLeaf :: "go_context \<Rightarrow> local_store \<Rightarrow> uint64 \<Rightarrow> GlobalLogLeaf option res" where
  "getGlobalLeaf ctx s index =
     checked (canceled ctx ''proofstore get global leaf canceled'') (Inr (tget (lt_leaves (lf_tables s)) index))"

definition getGlobalLogState :: "go_context \<Rightarrow> local_store \<Rightarrow> GlobalLogState option res" where
  "getGlobalLogState ctx s =
     checked (canceled ctx ''proofstore get global state canceled'') (Inr (lt_state (lf_tables s)))"

definition getSignedTreeHead :: "go_context \<Rightarrow> local_store \<Rightarrow> uint64 \<Rightarrow> SignedTreeHead option res" where
  "getSignedTreeHead ctx s treeSize =
     checked (first_err
       [canceled ctx ''proofstore get sth canceled'',
        err_if (treeSize = 0) (New CodeInvalidArgument ''sth tree_size is required'')])
     (Inr (tget (lt_sths (lf_tables s)) treeSize))"

definition readLatestSignedTreeHeadReference :: "local_store \<Rightarrow> uint64 option res" where
  "readLatestSignedTreeHeadReference s =
     (case lf_latest s of
        None \<Rightarrow> Inr None
      | Some treeSize \<Rightarrow>
          if treeSize = 0 then Inl (New CodeDataLoss ''latest signed tree head reference is zero'')
          else Inr (Some treeSize))"

text \<open>The directory listing is sorted by file name, so the last entry has the greatest tree size.\<close>

definition latestSignedTreeHeadFromHistory :: "go_context \<Rightarrow> local_store \<Rightarrow> (uint64 \<times> SignedTreeHead) option res" where
  "latestSignedTreeHeadFromHistory ctx s =
     checked (canceled ctx ''proofstore scan latest sth canceled'')
     (case lt_sths (lf_tables s) of
        [] \<Rightarrow> Inr None
      | e # es \<Rightarrow>
          let (treeSize, sth) = last (e # es) in
          if treeSize = 0 then Inl (New CodeDataLoss ''invalid signed tree head filename'')
          else if sth_TreeSize sth \<noteq> treeSize then Inl (New CodeDataLoss ''signed tree head path does not match item'')
          else Inr (Some (treeSize, sth)))"

definition write_latest :: "string \<Rightarrow> uint64 \<Rightarrow> local_store \<Rightarrow> local_store \<times> go_error option" where
  "write_latest m treeSize s =
     wrap_write (\<lambda>e. Wrap CodeDataLoss m (Some e)) (writeCBORAtomic (\<lambda>s. s\<lparr>lf_latest := Some treeSize\<rparr>) s)"

definition promoteLatestSignedTreeHeadReferenceLocked ::
  "go_context \<Rightarrow> uint64 \<Rightarrow> local_store \<Rightarrow> local_store \<times> go_error option" where
  "promoteLatestSignedTreeHeadReferenceLocked ctx treeSize s =
     write_checked (canceled ctx ''proofstore update latest sth reference canceled'')
     (\<lambda>s. case readLatestSignedTreeHeadReference s of
        Inr (Some current) \<Rightarrow>
          if current \<ge> treeSize then (s, None)
          else write_latest ''write latest signed tree head reference'' treeSize s
      | _ \<Rightarrow>
          (case latestSignedTreeHeadFromHistory ctx s of
             Inl e \<Rightarrow> (s, Some e)
           | Inr found \<Rightarrow>
               write_latest ''write latest signed tree head reference''
                 (case found of None \<Rightarrow> treeSize | Some (_, latest) \<Rightarrow> sth_TreeSize latest) s)) s"

definition putSignedTreeHead :: "go_context \<Rightarrow> int64 \<Rightarrow> SignedTreeHead \<Rightarrow> local_store \<Rightarrow> local_store \<times> go_error option" where
  "putSignedTreeHead ctx now sth s =
     write_checked (first_err
       [canceled ctx ''proofstore put sth canceled'',
        requireSuite (lf_binding s) (SB_SignedTreeHead sth),
        err_if (sth_TreeSize sth = 0) (New CodeInvalidArgument ''sth tree_size is required'')])
     (seq_err
        (\<lambda>s. wrap_write (\<lambda>e. Wrap CodeDataLoss ''write signed tree head'' (Some e))
           (writeCBORAtomic (lf_update (set_sth (sth_defaults now sth))) s))
        (promoteLatestSignedTreeHeadReferenceLocked ctx (sth_TreeSize sth))) s"

fun putGlobalLogNodes :: "go_context \<Rightarrow> int64 \<Rightarrow> GlobalLogNode list \<Rightarrow> local_store \<Rightarrow> local_store \<times> go_error option" where
  "putGlobalLogNodes ctx now [] s = (s, None)"
| "putGlobalLogNodes ctx now (node # nodes) s =
     seq_err (putGlobalLogNode ctx now node) (putGlobalLogNodes ctx now nodes) s"

definition lf_CommitGlobalLogAppend :: "go_context \<Rightarrow> int64 \<Rightarrow> local_store \<Rightarrow> GlobalLogAppend \<Rightarrow> local_store \<times> go_error option" where
  "lf_CommitGlobalLogAppend ctx now s entry =
     write_checked (first_err
       [beginOperation s,
        canceled ctx ''proofstore commit global log append canceled'',
        requireSuite (lf_binding s) (SB_GlobalLogAppend entry),
        append_error entry])
     (seq_err (putGlobalLeaf ctx now (gapp_Leaf entry))
     (seq_err (putGlobalLogNodes ctx now (gapp_Nodes entry))
     (seq_err (putGlobalLogState ctx now (gapp_State entry))
       (putSignedTreeHead ctx now (gapp_STH entry))))) s"

definition lf_GetGlobalLeafByBatchID :: "go_context \<Rightarrow> local_store \<Rightarrow> string \<Rightarrow> GlobalLogLeaf option res" where
  "lf_GetGlobalLeafByBatchID ctx s batchID =
     checked (first_err
       [beginOperation s, canceled ctx ''proofstore get global leaf by batch canceled'',
        err_if (batchID = '''') (New CodeInvalidArgument ''batch_id is required'')])
     (Inr (lt_batch (lf_tables s) batchID))"

definition lf_GetGlobalLogNode :: "go_context \<Rightarrow> local_store \<Rightarrow> uint64 \<Rightarrow> uint64 \<Rightarrow> GlobalLogNode option res" where
  "lf_GetGlobalLogNode ctx s level startIndex =
     checked (first_err [beginOperation s, canceled ctx ''proofstore get global node canceled''])
     (Inr (lt_nodes (lf_tables s) (level, startIndex)))"

text \<open>
  The loop of \<open>ListGlobalLeavesRange\<close> reads consecutive files until one is missing; \<open>room\<close> is how
  many leaves the limit still allows.
\<close>

fun leaf_run :: "(uint64 \<Rightarrow> GlobalLogLeaf option) \<Rightarrow> uint64 \<Rightarrow> nat \<Rightarrow> GlobalLogLeaf list" where
  "leaf_run leaf_at i 0 = []"
| "leaf_run leaf_at i (Suc room) =
     (case leaf_at i of None \<Rightarrow> [] | Some leaf \<Rightarrow> leaf # leaf_run leaf_at (i + 1) room)"

definition lf_ListGlobalLeavesRange :: "go_context \<Rightarrow> local_store \<Rightarrow> uint64 \<Rightarrow> int \<Rightarrow> GlobalLogLeaf list res" where
  "lf_ListGlobalLeavesRange ctx s startIndex limit =
     checked (first_err [beginOperation s, canceled ctx ''proofstore list global leaves range canceled''])
     (Inr (leaf_run (tget (lt_leaves (lf_tables s))) startIndex (nat (if limit \<le> 0 then 100 else limit))))"

definition rebuildLatestSignedTreeHeadReference :: "go_context \<Rightarrow> local_store \<Rightarrow> local_store \<times> SignedTreeHead option res" where
  "rebuildLatestSignedTreeHeadReference ctx s =
     (let rebuild_history =
        (case latestSignedTreeHeadFromHistory ctx s of
           Inl e \<Rightarrow> (s, Inl e)
         | Inr None \<Rightarrow> (s, Inr None)
         | Inr (Some (treeSize, sth)) \<Rightarrow>
             (case write_latest ''rebuild latest signed tree head reference'' treeSize s of
                (s', Some e) \<Rightarrow> (s', Inl e)
              | (s', None) \<Rightarrow> (s', Inr (Some sth))))
      in case readLatestSignedTreeHeadReference s of
        Inr (Some treeSize) \<Rightarrow>
          (case getSignedTreeHead ctx s treeSize of
             Inl e \<Rightarrow> (s, Inl e)
           | Inr (Some sth) \<Rightarrow>
               if sth_TreeSize sth \<noteq> treeSize
               then (s, Inl (New CodeDataLoss ''latest signed tree head reference does not match item''))
               else (s, Inr (Some sth))
           | Inr None \<Rightarrow> rebuild_history)
      | _ \<Rightarrow> rebuild_history)"

definition lf_LatestSignedTreeHead :: "go_context \<Rightarrow> local_store \<Rightarrow> local_store \<times> SignedTreeHead option res" where
  "lf_LatestSignedTreeHead ctx s =
     (case first_err [beginOperation s, canceled ctx ''proofstore latest sth canceled''] of
        Some e \<Rightarrow> (s, Inl e)
      | None \<Rightarrow>
      (case readLatestSignedTreeHeadReference s of
         Inr (Some treeSize) \<Rightarrow>
           (case getSignedTreeHead ctx s treeSize of
              Inl e \<Rightarrow> (s, Inl e)
            | Inr (Some sth) \<Rightarrow>
                if sth_TreeSize sth \<noteq> treeSize
                then (s, Inl (New CodeDataLoss ''latest signed tree head reference does not match item''))
                else (case getGlobalLogState ctx s of
                   Inl e \<Rightarrow> (s, Inl e)
                 | Inr None \<Rightarrow> (s, Inr (Some sth))
                 | Inr (Some state) \<Rightarrow>
                     if gstate_TreeSize state \<le> treeSize then (s, Inr (Some sth))
                     else (case getSignedTreeHead ctx s (gstate_TreeSize state) of
                        Inl e \<Rightarrow> (s, Inl e)
                      | Inr None \<Rightarrow> (s, Inr (Some sth))
                      | Inr (Some newer) \<Rightarrow>
                          if sth_TreeSize newer \<noteq> gstate_TreeSize state
                          then (s, Inl (New CodeDataLoss ''global state tree size does not match signed tree head''))
                          else (case promoteLatestSignedTreeHeadReferenceLocked ctx (sth_TreeSize newer) s of
                             (s', Some e) \<Rightarrow> (s', Inl e)
                           | (s', None) \<Rightarrow> (s', Inr (Some newer)))))
            | Inr None \<Rightarrow> rebuildLatestSignedTreeHeadReference ctx s)
       | _ \<Rightarrow> rebuildLatestSignedTreeHeadReference ctx s))"

definition lf_PutGlobalLogTile :: "go_context \<Rightarrow> int64 \<Rightarrow> local_store \<Rightarrow> GlobalLogTile \<Rightarrow> local_store \<times> go_error option" where
  "lf_PutGlobalLogTile ctx now s tile =
     write_checked (first_err
       [beginOperation s, canceled ctx ''proofstore put global tile canceled'',
        requireSuite (lf_binding s) (SB_GlobalLogTile tile),
        err_if (gtile_Width tile = 0) (New CodeInvalidArgument ''global log tile width is required'')])
     (\<lambda>s. wrap_write (\<lambda>e. Wrap CodeDataLoss ''write global log tile'' (Some e))
        (writeCBORAtomic (lf_update (set_tile (tile_defaults now tile))) s)) s"

definition local_log_store :: "go_context \<Rightarrow> int64 \<Rightarrow> local_store log_store" where
  "local_log_store ctx now =
     \<lparr>ls_GetGlobalLeaf = (\<lambda>s i. checked (beginOperation s) (getGlobalLeaf ctx s i)),
      ls_GetGlobalLeafByBatchID = lf_GetGlobalLeafByBatchID ctx,
      ls_ListGlobalLeavesRange = lf_ListGlobalLeavesRange ctx,
      ls_PutGlobalLogNode = (\<lambda>s node. write_checked (beginOperation s) (putGlobalLogNode ctx now node) s),
      ls_GetGlobalLogNode = lf_GetGlobalLogNode ctx,
      ls_PutGlobalLogState = (\<lambda>s state. write_checked (beginOperation s) (putGlobalLogState ctx now state) s),
      ls_GetGlobalLogState = (\<lambda>s. checked (beginOperation s) (getGlobalLogState ctx s)),
      ls_GetSignedTreeHead = (\<lambda>s n. checked (beginOperation s) (getSignedTreeHead ctx s n)),
      ls_LatestSignedTreeHead = lf_LatestSignedTreeHead ctx,
      ls_PutGlobalLogTile = lf_PutGlobalLogTile ctx now, ls_CommitGlobalLogAppend = lf_CommitGlobalLogAppend ctx now,
      ls_CommitGlobalLogAppends = None, ls_LatestSTHAnchorResult = None, ls_LatestSTHAnchorResultForKey = None\<rparr>"

end
