(* ===== verification/Log_Correct.thy ===== *)
theory Log_Correct
  imports Log_Frontier Log_Stores
begin

text \<open>
  Correctness of the global log. The abstract log is the list \<open>ls\<close> of its leaves; \<open>log_inv\<close>
  says that the tables of a store hold exactly that list: leaves by index and by batch, tree heads for
  every prefix with its root, right subtree nodes and the frontier of the whole list.
\<close>

section \<open>Signed tree heads\<close>

interpretation tree_heads: signed_object prims "cbor_SignedTreeHead encs" SignaturePurposeSignedTreeHead
  "\<lambda>sth. sth\<lparr>sth_Signature := zero_Signature\<rparr>" sth_Signature
  "\<lambda>s sth. (\<exists>suite. Lookup s = Some suite \<and> sth_TreeAlg sth = merkle_Algorithm (suite_Merkle suite)) \<and> sth_CryptoSuite sth = s"
  "\<lambda>ctx provider sth signer. case provider of
     None \<Rightarrow> Inl (New CodeInvalidArgument ''global log crypto provider is required'')
   | Some p \<Rightarrow> sign_tree_head prims encs ctx (svc\<lparr>svc_provider := p, svc_signer := signer\<rparr>) sth"
  "VerifySTHWithProvider prims encs" for prims encs svc
proof
  fix ctx provider x signer y
  assume "(case provider of None \<Rightarrow> Inl (New CodeInvalidArgument ''global log crypto provider is required'')
    | Some p \<Rightarrow> sign_tree_head prims encs ctx (svc\<lparr>svc_provider := p, svc_signer := signer\<rparr>) x) = Inr y"
  then show "\<exists>p b input. provider = Some p \<and> cbor_SignedTreeHead encs (y\<lparr>sth_Signature := zero_Signature\<rparr>) = Inr b \<and>
      SignatureInputForSuite (provider_Suite p) SignaturePurposeSignedTreeHead b = Inr input \<and>
      Sign prims ctx (provider_Suite p) signer input = Inr (sth_Signature y)"
    by (auto simp: sign_tree_head_def Let_def check_simps split: option.splits)
next
  fix ctx y pk provider
  show "VerifySTHWithProvider prims encs ctx y pk provider = None \<longleftrightarrow>
      (\<exists>p b input. provider = Some p \<and>
        ((\<exists>suite. Lookup (provider_Suite p) = Some suite \<and> sth_TreeAlg y = merkle_Algorithm (suite_Merkle suite)) \<and>
         sth_CryptoSuite y = provider_Suite p) \<and> pkd_Suite pk = provider_Suite p \<and>
        cbor_SignedTreeHead encs (y\<lparr>sth_Signature := zero_Signature\<rparr>) = Inr b \<and>
        SignatureInputForSuite (provider_Suite p) SignaturePurposeSignedTreeHead b = Inr input \<and>
        Verify_sig prims ctx provider pk input (sth_Signature y) = None)"
    by (auto simp: VerifySTHWithProvider_def Let_def check_simps RequireAvailable_Inr Lookup_Some_iff)
qed

section \<open>The abstract log\<close>

definition leaf_ok :: "crypto_prims \<Rightarrow> encoders \<Rightarrow> log_service \<Rightarrow> nat \<Rightarrow> GlobalLogLeaf \<Rightarrow> bool" where
  "leaf_ok prims encs svc i leaf \<longleftrightarrow>
     gleaf_SchemaVersion leaf = SchemaGlobalLogLeaf \<and> gleaf_LeafIndex leaf = word_of_nat i \<and>
     gleaf_CryptoSuite leaf = provider_Suite (svc_provider svc) \<and>
     gleaf_NodeID leaf = svc_nodeID svc \<and> gleaf_LogID leaf = svc_logID svc \<and> gleaf_BatchID leaf \<noteq> '''' \<and>
     length (gleaf_LeafHash leaf) = 32 \<and>
     HashLeafWithProvider prims encs (Some (svc_provider svc)) leaf = Inr (gleaf_LeafHash leaf)"

definition sth_ok :: "crypto_prims \<Rightarrow> encoders \<Rightarrow> log_service \<Rightarrow> bytes list \<Rightarrow> nat \<Rightarrow> SignedTreeHead \<Rightarrow> bool" where
  "sth_ok prims encs svc hs n sth \<longleftrightarrow>
     0 < n \<and> n \<le> length hs \<and> sth_TreeSize sth = word_of_nat n \<and>
     sth_RootHash sth = mth (nodeh prims svc) (take n hs) \<and>
     sth_SchemaVersion sth = SchemaSignedTreeHead \<and> sth_CryptoSuite sth = provider_Suite (svc_provider svc) \<and>
     sth_TreeAlg sth = prof_algorithm (svc_profile svc) \<and> sth_NodeID sth = svc_nodeID svc \<and> sth_LogID sth = svc_logID svc \<and>
     (\<exists>ctx. sign_tree_head prims encs ctx svc (sth\<lparr>sth_Signature := zero_Signature\<rparr>) = Inr sth)"

abbreviation hashes :: "GlobalLogLeaf list \<Rightarrow> bytes list" where
  "hashes \<equiv> map gleaf_LeafHash"

definition tables_ok :: "crypto_prims \<Rightarrow> encoders \<Rightarrow> log_service \<Rightarrow> log_tables \<Rightarrow> GlobalLogLeaf list \<Rightarrow> bool" where
  "tables_ok prims encs svc t ls \<longleftrightarrow>
     length ls < 2 ^ 64 \<and> (\<forall>i < length ls. leaf_ok prims encs svc i (ls ! i)) \<and> distinct (map gleaf_BatchID ls) \<and>
     lt_leaves t = idx_tbl 0 ((!) ls) (length ls) \<and>
     lt_batch t = map_of (map (\<lambda>l. (gleaf_BatchID l, l)) ls) \<and>
     (\<forall>k nd. lt_nodes t k = Some nd \<longrightarrow> k = (gnode_Level nd, gnode_StartIndex nd) \<and> node_ok (nodeh prims svc) (hashes ls) nd) \<and>
     (\<exists>f. lt_sths t = idx_tbl 1 f (Suc (length ls)) \<and>
          (\<forall>n. 0 < n \<and> n \<le> length ls \<longrightarrow> sth_ok prims encs svc (hashes ls) n (f n)))"

definition log_inv :: "crypto_prims \<Rightarrow> encoders \<Rightarrow> log_service \<Rightarrow> log_tables \<Rightarrow> GlobalLogLeaf list \<Rightarrow> bool" where
  "log_inv prims encs svc t ls \<longleftrightarrow>
     tables_ok prims encs svc t ls \<and>
     (case lt_state t of None \<Rightarrow> ls = [] | Some state \<Rightarrow> state_ok prims svc (hashes ls) state)"

lemma log_inv_empty: "log_inv prims encs svc empty_tables []"
  by (simp add: log_inv_def tables_ok_def empty_tables_def idx_tbl_def)

lemma digests_hashes:
  assumes "\<forall>i < length ls. leaf_ok prims encs svc i (ls ! i)"
  shows "digests (hashes ls)"
  using assms by (auto simp: list_all_length leaf_ok_def)

lemma sth_ok_append: "sth_ok prims encs svc hs n sth \<Longrightarrow> sth_ok prims encs svc (hs @ ys) n sth"
  by (auto simp: sth_ok_def)

lemma sth_ok_verifies:
  assumes "sth_ok prims encs svc hs n sth" "svc_ok svc" "svc_signer svc = Some sg"
    "signer_correct prims (svc_provider svc) sg pk" "pkd_Suite pk = provider_Suite (svc_provider svc)"
  shows "VerifySTHWithProvider prims encs None sth pk (Some (svc_provider svc)) = None"
proof -
  obtain ctx where s: "sign_tree_head prims encs ctx svc (sth\<lparr>sth_Signature := zero_Signature\<rparr>) = Inr sth"
    using assms(1) by (auto simp: sth_ok_def)
  have eq: "svc\<lparr>svc_provider := svc_provider svc, svc_signer := Some sg\<rparr> = svc"
    using assms(3) by simp
  show ?thesis
  proof (rule tree_heads.sign_then_verify [where svc = svc and ctx = ctx])
    show "(case Some (svc_provider svc) of
        None \<Rightarrow> Inl (New CodeInvalidArgument ''global log crypto provider is required'')
      | Some p \<Rightarrow> sign_tree_head prims encs ctx (svc\<lparr>svc_provider := p, svc_signer := Some sg\<rparr>)
          (sth\<lparr>sth_Signature := zero_Signature\<rparr>)) = Inr sth"
      unfolding option.case eq by (rule s)
    show "(\<exists>suite. Lookup (provider_Suite (svc_provider svc)) = Some suite \<and>
        sth_TreeAlg sth = merkle_Algorithm (suite_Merkle suite)) \<and> sth_CryptoSuite sth = provider_Suite (svc_provider svc)"
      using assms(1,2) by (auto simp: sth_ok_def svc_ok_def ProfileForSuite_Inr defaultProfile_def smProfile_def)
  qed (use assms in auto)
qed

section \<open>Reading a store\<close>

lemma digests_slice: "digests xs \<Longrightarrow> digests (leaf_slice xs r)"
  by (auto simp: leaf_slice_def list_all_iff dest!: in_set_takeD in_set_dropD)


lemma word_of_nat_inj64: "i < 64 \<Longrightarrow> j < 64 \<Longrightarrow> (word_of_nat i :: uint64) = word_of_nat j \<longleftrightarrow> i = j"
  by (auto simp: word_unat_eq_iff unat_of_nat)


lemma node_lookup:
  assumes "tables_ok prims encs svc t ls" "lt_nodes t (word_of_nat l, start) = Some nd" "l < 64"
  shows "gnode_Hash nd = mth (nodeh prims svc) (leaf_slice (hashes ls) (unat start, 2 ^ l))"
proof -
  have "(word_of_nat l, start) = (gnode_Level nd, gnode_StartIndex nd)" "node_ok (nodeh prims svc) (hashes ls) nd"
    using assms(1,2) by (auto simp: tables_ok_def)
  then obtain l' i where "l' < 64" "(word_of_nat l :: uint64) = word_of_nat l'" "start = word_of_nat i" "i < 2 ^ 64"
    "gnode_Hash nd = mth (nodeh prims svc) (leaf_slice (hashes ls) (i, 2 ^ l'))"
    by (auto simp: node_ok_def)
  then show ?thesis using assms(3) by (simp add: word_of_nat_inj64 unat_of_nat)
qed

lemma lookup_batch:
  assumes "tables_ok prims encs svc t ls" "i < length ls"
  shows "lt_batch t (gleaf_BatchID (ls ! i)) = Some (ls ! i)"
  using assms by (auto simp: tables_ok_def map_of_eq_Some_iff o_def intro!: image_eqI [of _ _ "ls ! i"])

lemma lookup_batch_Some:
  assumes "tables_ok prims encs svc t ls" "lt_batch t b = Some leaf"
  obtains i where "i < length ls" "ls ! i = leaf" "gleaf_BatchID leaf = b"
  using assms by (auto simp: tables_ok_def dest!: map_of_SomeD simp: in_set_conv_nth)

lemma lookup_batch_None:
  assumes "tables_ok prims encs svc t ls"
  shows "lt_batch t b = None \<longleftrightarrow> b \<notin> gleaf_BatchID ` set ls"
  using assms by (auto simp: tables_ok_def map_of_eq_None_iff image_image)

text \<open>The inclusion proof of leaf \<open>i\<close> in the tree of the first \<open>n\<close> leaves.\<close>

definition proof_for :: "crypto_prims \<Rightarrow> encoders \<Rightarrow> log_service \<Rightarrow> GlobalLogLeaf list \<Rightarrow> nat \<Rightarrow> nat \<Rightarrow> GlobalLogProof \<Rightarrow> bool" where
  "proof_for prims encs svc ls i n pf \<longleftrightarrow>
     gproof_SchemaVersion pf = SchemaGlobalLogProof \<and> gproof_CryptoSuite pf = provider_Suite (svc_provider svc) \<and>
     gproof_NodeID pf = gleaf_NodeID (ls ! i) \<and> gproof_LogID pf = gleaf_LogID (ls ! i) \<and>
     gproof_BatchID pf = gleaf_BatchID (ls ! i) \<and> gproof_LeafIndex pf = word_of_nat i \<and>
     gproof_LeafHash pf = gleaf_LeafHash (ls ! i) \<and> gproof_TreeSize pf = word_of_nat n \<and>
     gproof_InclusionPath pf = audit_path (nodeh prims svc) (take n (hashes ls)) i \<and>
     sth_ok prims encs svc (hashes ls) n (gproof_STH pf)"

lemma proof_for_verifies:
  assumes svc: "svc_ok svc" and pf: "proof_for prims encs svc ls i n pf"
    and ls: "\<forall>i < length ls. leaf_ok prims encs svc i (ls ! i)" "i < n" "n \<le> length ls" "n \<le> 2 ^ 62"
  shows "VerifyInclusionForSuite prims (provider_Suite (svc_provider svc)) pf = Some (Inr True)"
proof -
  note p = svc_ok_profile [OF svc]
  have un: "unat (word_of_nat n :: uint64) = n" "unat (word_of_nat i :: uint64) = i"
    using ls by (simp_all add: unat_word_of_nat_id)
  have d: "digests (take n (hashes ls))"
    using digests_slice [OF digests_hashes [OF ls(1)], of "(0, n)"] by (simp add: leaf_slice_def)
  have i: "i < length (take n (hashes ls))" "take n (hashes ls) ! i = gleaf_LeafHash (ls ! i)"
    using ls by simp_all
  have r: "length (mth (nodeh prims svc) (take n (hashes ls))) = 32"
    by (rule mth_digest [OF d]) (use i in auto)
  have "verifyWithProfile prims (svc_profile svc) (gleaf_LeafHash (ls ! i)) (word_of_nat i) (word_of_nat n)
      (audit_path (nodeh prims svc) (take n (hashes ls)) i) (mth (nodeh prims svc) (take n (hashes ls))) = Some True"
    using replay_audit_path [OF i(1), of "nodeh prims svc" "[]"] i ls un d r
    by (subst verifyWithProfile_small [OF p(3)])
      (auto simp: leaf_ok_def word_less_nat_alt audit_path_sizes)
  moreover have "\<not> (word_of_nat n :: uint64) \<le> word_of_nat i" "(word_of_nat n :: uint64) \<noteq> 0"
    using un ls by (auto simp: word_le_nat_alt word_unat_eq_iff)
  moreover have "RequireSame (provider_Suite (svc_provider svc)) [provider_Suite (svc_provider svc), provider_Suite (svc_provider svc)] = None"
    by (simp add: RequireSame_provider)
  ultimately show ?thesis
    using pf p by (simp add: proof_for_def VerifyInclusionForSuite_def sth_ok_def VerifyForSuite_def)
qed

text \<open>
  What the service relies on when it reads: in a store that is \<open>ok\<close>, the methods return the
  entries of its tables \<open>tab\<close>, and finding the latest tree head does not change them.
\<close>

locale log_reads =
  fixes st :: "'s log_store" and tab :: "'s \<Rightarrow> log_tables" and ok :: "'s \<Rightarrow> bool"
  assumes get_leaf: "ok s \<Longrightarrow> ls_GetGlobalLeaf st s i = Inr (tget (lt_leaves (tab s)) i)"
    and get_batch: "ok s \<Longrightarrow> b \<noteq> '''' \<Longrightarrow> ls_GetGlobalLeafByBatchID st s b = Inr (lt_batch (tab s) b)"
    and get_no_batch: "ls_GetGlobalLeafByBatchID st s '''' \<noteq> Inr x"
    and get_node: "ok s \<Longrightarrow> ls_GetGlobalLogNode st s l i = Inr (lt_nodes (tab s) (l, i))"
    and get_state: "ok s \<Longrightarrow> ls_GetGlobalLogState st s = Inr (lt_state (tab s))"
    and get_sth: "ok s \<Longrightarrow> w \<noteq> 0 \<Longrightarrow> ls_GetSignedTreeHead st s w = Inr (tget (lt_sths (tab s)) w)"
    and latest: "ok s \<Longrightarrow> lt_sths (tab s) = idx_tbl 1 f (Suc n) \<Longrightarrow> n < 2 ^ 64 \<Longrightarrow>
      \<forall>m. 0 < m \<and> m \<le> n \<longrightarrow> sth_TreeSize (f m) = word_of_nat m \<Longrightarrow>
      \<exists>s'. ls_LatestSignedTreeHead st s = (s', Inr (if n = 0 then None else Some (f n))) \<and> tab s' = tab s \<and> ok s'"
    and leaf_range: "ok s \<Longrightarrow> lt_leaves (tab s) = idx_tbl 0 g n \<Longrightarrow> n < 2 ^ 64 \<Longrightarrow> k \<le> n \<Longrightarrow> 0 < limit \<Longrightarrow>
      ls_ListGlobalLeavesRange st s (word_of_nat k) limit = Inr (take (nat limit) (map g [k..<n]))"
begin

lemma subtreeRoot_ok:
  assumes "svc_ok svc" "tables_ok prims encs svc (tab s) ls" "ok s"
  shows "0 < unat width \<Longrightarrow> unat start + unat width \<le> length ls \<Longrightarrow>
    subtreeRoot prims svc st s start width = Inr (mth (nodeh prims svc) (leaf_slice (hashes ls) (unat start, unat width)))"
  using assms
proof (induction "unat width" arbitrary: start width rule: less_induct)
  case less
  note svc = less.prems(3) and t = less.prems(4) and okst = less.prems(5)
  have size: "length ls < 2 ^ 64" and d: "digests (hashes ls)"
    using t by (auto simp: tables_ok_def intro: digests_hashes)
  show ?case
  proof (cases "width = 1")
    case True
    then have "tget (lt_leaves (tab s)) start = Some (ls ! unat start)"
      using t size less.prems(2) by (simp add: tables_ok_def tget_idx_tbl)
    moreover have "leaf_slice (hashes ls) (unat start, 1) = [gleaf_LeafHash (ls ! unat start)]"
      using True less.prems(2) by (simp add: leaf_slice_def take_Suc hd_drop_conv_nth)
    ultimately show ?thesis
      using True get_leaf [OF okst] by (subst subtreeRoot.simps) simp
  next
    case False
    then have w2: "\<not> width < 2" using less.prems(1) by (intro word_ge_2) auto
    then have n2: "2 \<le> unat width" by (simp add: word_less_nat_alt)
    define k where "k = subtree_split width"
    have k: "unat k = lpt (unat width)" using w2 by (simp add: k_def unat_subtree_split)
    have kb: "0 < unat k" "unat k < unat width" using lpt_bounds [OF n2] k by auto
    have wk: "unat (width - k) = unat width - unat k"
      using kb by (simp add: unat_sub word_le_nat_alt)
    have sk: "unat (start + k) = unat start + unat k"
      using less.prems(2) size kb by (intro unat_add_lem [THEN iffD1]) simp
    have l: "subtreeRoot prims svc st s start k = Inr (mth (nodeh prims svc) (leaf_slice (hashes ls) (unat start, unat k)))"
      using kb less.prems by (intro less.hyps) auto
    have r: "subtreeRoot prims svc st s (start + k) (width - k) =
        Inr (mth (nodeh prims svc) (leaf_slice (hashes ls) (unat start + unat k, unat width - unat k)))"
      using kb wk sk less.prems less.hyps [of "width - k" "start + k"] by simp
    note ds = digests_slice [OF d]
    have "length (mth (nodeh prims svc) (leaf_slice (hashes ls) (unat start, unat k))) = 32"
      "length (mth (nodeh prims svc) (leaf_slice (hashes ls) (unat start + unat k, unat width - unat k))) = 32"
      using kb less.prems(2) by (intro mth_digest ds; simp add: leaf_slice_def)+
    then have split: "HashNodeForSuite prims (prof_suite (svc_profile svc)) (prof_algorithm (svc_profile svc))
        (mth (nodeh prims svc) (leaf_slice (hashes ls) (unat start, unat k)))
        (mth (nodeh prims svc) (leaf_slice (hashes ls) (unat start + unat k, unat width - unat k))) =
      Inr (mth (nodeh prims svc) (leaf_slice (hashes ls) (unat start, unat width)))"
      using mth_leaf_slice [OF n2, of "unat start" "hashes ls" "nodeh prims svc"] less.prems(2) k svc
      by (simp add: HashNodeForSuite_svc)
    have node: "gnode_Hash nd = mth (nodeh prims svc) (leaf_slice (hashes ls) (unat start, unat width))"
      if p: "isPowerOfTwo width" and nd: "lt_nodes (tab s) (word_of_nat (trailing_zeros (unat width)), start) = Some nd" for nd
      using node_lookup [OF t nd] isPowerOfTwo_pow2 [OF p] by simp
    show ?thesis
      using less.prems(1) False node l r split get_node [OF okst]
      by (subst subtreeRoot.simps) (auto simp: k_def [symmetric] Let_def split: option.splits)
  qed
qed

lemma subtreeRoot_split:
  assumes "svc_ok svc" "tables_ok prims encs svc (tab s) ls" "ok s"
    and w: "\<not> width < 2" "unat start + unat width \<le> length ls" "k = gl_largestPowerOfTwoLessThan64 width"
  shows "unat (start + k) = unat start + lpt (unat width)" "unat (width - k) = unat width - lpt (unat width)"
    "subtreeRoot prims svc st s start k = Inr (mth (nodeh prims svc) (leaf_slice (hashes ls) (unat start, lpt (unat width))))"
    "subtreeRoot prims svc st s (start + k) (width - k) =
       Inr (mth (nodeh prims svc) (leaf_slice (hashes ls) (unat start + lpt (unat width), unat width - lpt (unat width))))"
proof -
  have n2: "2 \<le> unat width" using w(1) by (simp add: word_less_nat_alt)
  note b = lpt_bounds [OF n2]
  have k: "unat k = lpt (unat width)" using w(3) by (simp add: unat_gl_largestPowerOfTwoLessThan64)
  have size: "length ls < 2 ^ 64" using assms(2) by (simp add: tables_ok_def)
  show sk: "unat (start + k) = unat start + lpt (unat width)"
    unfolding k [symmetric] using w(2) size b k by (intro unat_add_lem [THEN iffD1]) simp
  show wk: "unat (width - k) = unat width - lpt (unat width)"
    using w(1,3) gl_split_less(2) by simp
  show "subtreeRoot prims svc st s start k = Inr (mth (nodeh prims svc) (leaf_slice (hashes ls) (unat start, lpt (unat width))))"
    using subtreeRoot_ok [OF assms(1-3), of k start] b k w(2) by simp
  show "subtreeRoot prims svc st s (start + k) (width - k) =
       Inr (mth (nodeh prims svc) (leaf_slice (hashes ls) (unat start + lpt (unat width), unat width - lpt (unat width))))"
    using subtreeRoot_ok [OF assms(1-3), of "width - k" "start + k"] b wk sk w(2) by simp
qed

lemma service_auditPath_ok:
  assumes "svc_ok svc" "tables_ok prims encs svc (tab s) ls" "ok s"
  shows "start \<le> leafIndex \<Longrightarrow> unat leafIndex < unat start + unat width \<Longrightarrow> unat start + unat width \<le> length ls \<Longrightarrow>
    Service_auditPath prims svc st s leafIndex start width =
      Inr (audit_path (nodeh prims svc) (leaf_slice (hashes ls) (unat start, unat width)) (unat leafIndex - unat start))"
proof (induction "unat width" arbitrary: start width rule: less_induct)
  case less
  have size: "length ls < 2 ^ 64" using assms(2) by (simp add: tables_ok_def)
  have le: "unat start \<le> unat leafIndex" using less.prems(1) by (simp add: word_le_nat_alt)
  have sw: "unat (start + width) = unat start + unat width"
    using less.prems(3) size by (intro unat_add_lem [THEN iffD1]) simp
  then have guard: "\<not> (width = 0 \<or> leafIndex < start \<or> leafIndex \<ge> start + width)"
    using less.prems(2) le by (auto simp: word_less_nat_alt word_le_nat_alt)
  let ?hs = "leaf_slice (hashes ls) (unat start, unat width)"
  have len: "length ?hs = unat width" using less.prems(3) by (simp add: length_leaf_slice)
  show ?case
  proof (cases "width = 1")
    case True
    with guard len show ?thesis
      by (subst Service_auditPath.simps, subst audit_path.simps) simp
  next
    case False
    define k where "k = gl_largestPowerOfTwoLessThan64 width"
    have w2: "\<not> width < 2" using guard False by (intro word_ge_2) auto
    then have n2: "2 \<le> unat width" by (simp add: word_less_nat_alt)
    note b = lpt_bounds [OF n2]
    have k: "unat k = lpt (unat width)" by (simp add: k_def unat_gl_largestPowerOfTwoLessThan64)
    note sp = subtreeRoot_split [OF assms w2 less.prems(3) k_def]
    have slices: "take (lpt (unat width)) ?hs = leaf_slice (hashes ls) (unat start, lpt (unat width))"
      "drop (lpt (unat width)) ?hs = leaf_slice (hashes ls) (unat start + lpt (unat width), unat width - lpt (unat width))"
      using leaf_slice_split [of "lpt (unat width)" "unat width" "unat start" "hashes ls"] b less.prems(3) by simp_all
    show ?thesis
    proof (cases "leafIndex < start + k")
      case True
      then have i: "unat leafIndex - unat start < lpt (unat width)"
        using sp(1) le by (simp add: word_less_nat_alt)
      have "Service_auditPath prims svc st s leafIndex start k =
          Inr (audit_path (nodeh prims svc) (leaf_slice (hashes ls) (unat start, unat k)) (unat leafIndex - unat start))"
        using b k True sp(1) less.prems by (intro less.hyps) (simp_all add: word_less_nat_alt)
      then show ?thesis
        using guard False True sp slices k i len n2
        by (subst Service_auditPath.simps, subst audit_path.simps) (simp add: k_def [symmetric] Let_def)
    next
      case ge: False
      then have i: "\<not> unat leafIndex - unat start < lpt (unat width)"
        using sp(1) by (simp add: word_less_nat_alt)
      have "Service_auditPath prims svc st s leafIndex (start + k) (width - k) =
          Inr (audit_path (nodeh prims svc) (leaf_slice (hashes ls) (unat (start + k), unat (width - k)))
            (unat leafIndex - unat (start + k)))"
        using b k ge sp less.prems by (intro less.hyps) (simp_all add: not_less)
      then show ?thesis
        using guard False ge sp slices k i len n2 le
        by (subst Service_auditPath.simps, subst audit_path.simps) (simp add: k_def [symmetric] Let_def)
    qed
  qed
qed

lemma consistencyProofRange_ok:
  assumes "svc_ok svc" "tables_ok prims encs svc (tab s) ls" "ok s"
  shows "0 < unat from_size \<Longrightarrow> unat from_size \<le> unat width \<Longrightarrow> unat start + unat width \<le> length ls \<Longrightarrow>
    consistencyProofRange prims svc st s start width from_size complete =
      Inr (sub_proof (nodeh prims svc) (leaf_slice (hashes ls) (unat start, unat width)) (unat from_size) complete)"
proof (induction "unat width" arbitrary: start width from_size complete rule: less_induct)
  case less
  have guard: "\<not> (from_size = 0 \<or> from_size > width)"
    using less.prems(1,2) by (auto simp: word_less_nat_alt)
  let ?hs = "leaf_slice (hashes ls) (unat start, unat width)"
  have len: "length ?hs = unat width" using less.prems(3) by (simp add: length_leaf_slice)
  show ?case
  proof (cases "from_size = width")
    case True
    then have "subtreeRoot prims svc st s start width = Inr (mth (nodeh prims svc) ?hs)"
      using less.prems by (intro subtreeRoot_ok [OF assms]) auto
    with True guard len show ?thesis
      by (subst consistencyProofRange.simps, subst sub_proof.simps) simp
  next
    case False
    define k where "k = gl_largestPowerOfTwoLessThan64 width"
    have w2: "\<not> width < 2" using guard False by (intro range_ge_2) auto
    then have n2: "2 \<le> unat width" by (simp add: word_less_nat_alt)
    note b = lpt_bounds [OF n2]
    have k: "unat k = lpt (unat width)" by (simp add: k_def unat_gl_largestPowerOfTwoLessThan64)
    note sp = subtreeRoot_split [OF assms w2 less.prems(3) k_def]
    have slices: "take (lpt (unat width)) ?hs = leaf_slice (hashes ls) (unat start, lpt (unat width))"
      "drop (lpt (unat width)) ?hs = leaf_slice (hashes ls) (unat start + lpt (unat width), unat width - lpt (unat width))"
      using leaf_slice_split [of "lpt (unat width)" "unat width" "unat start" "hashes ls"] b less.prems(3) by simp_all
    have fn: "unat from_size \<noteq> unat width" using False by (simp add: word_unat_eq_iff)
    show ?thesis
    proof (cases "from_size \<le> k")
      case True
      then have i: "unat from_size \<le> lpt (unat width)" using k by (simp add: word_le_nat_alt)
      have "consistencyProofRange prims svc st s start k from_size complete =
          Inr (sub_proof (nodeh prims svc) (leaf_slice (hashes ls) (unat start, unat k)) (unat from_size) complete)"
        using b k i less.prems by (intro less.hyps) simp_all
      then show ?thesis
        using guard False True sp slices k i len n2 fn
        by (subst consistencyProofRange.simps, subst sub_proof.simps) (simp add: k_def [symmetric] Let_def)
    next
      case ge: False
      then have i: "\<not> unat from_size \<le> lpt (unat width)" using k by (simp add: word_le_nat_alt)
      have f: "unat (from_size - k) = unat from_size - lpt (unat width)"
        using i k by (simp add: unat_sub word_le_nat_alt)
      have "consistencyProofRange prims svc st s (start + k) (width - k) (from_size - k) False =
          Inr (sub_proof (nodeh prims svc) (leaf_slice (hashes ls) (unat (start + k), unat (width - k)))
            (unat (from_size - k)) False)"
        using b k i f sp less.prems by (intro less.hyps) simp_all
      then show ?thesis
        using guard False ge sp slices k i len n2 fn f
        by (subst consistencyProofRange.simps, subst sub_proof.simps) (simp add: k_def [symmetric] Let_def)
    qed
  qed
qed

lemma inclusion_ok:
  assumes svc: "svc_ok svc" and t: "tables_ok prims encs svc (tab s) ls" and okst: "ok s"
    and i: "i < length ls" "i < n" "n \<le> length ls"
    and ts: "treeSize = word_of_nat n \<or> treeSize = 0 \<and> n = length ls"
  shows "\<exists>s' pf. InclusionProof prims svc st s (gleaf_BatchID (ls ! i)) treeSize = (s', Inr pf) \<and> tab s' = tab s \<and> ok s' \<and>
    proof_for prims encs svc ls i n pf"
proof -
  let ?leaf = "ls ! i"
  have size: "length ls < 2 ^ 64" and leaf: "leaf_ok prims encs svc i ?leaf" and d: "distinct (map gleaf_BatchID ls)"
    using t i by (auto simp: tables_ok_def)
  then have b: "gleaf_BatchID ?leaf \<noteq> ''''" "gleaf_LeafIndex ?leaf = word_of_nat i" by (auto simp: leaf_ok_def)
  have gb: "ls_GetGlobalLeafByBatchID st s (gleaf_BatchID ?leaf) = Inr (Some ?leaf)"
    using get_batch [OF okst b(1)] lookup_batch [OF t i(1)] by simp
  obtain f where f: "lt_sths (tab s) = idx_tbl 1 f (Suc (length ls))"
      "\<forall>n. 0 < n \<and> n \<le> length ls \<longrightarrow> sth_ok prims encs svc (hashes ls) n (f n)"
    using t by (auto simp: tables_ok_def)
  have un: "unat (word_of_nat n :: uint64) = n" "unat (word_of_nat i :: uint64) = i" "(word_of_nat n :: uint64) \<noteq> 0"
    using i size by (auto simp: unat_word_of_nat_id word_unat_eq_iff)
  obtain s' where s': "tab s' = tab s" "ok s'"
    and size_eq: "(if treeSize = 0
        then (case ls_LatestSignedTreeHead st s of
                (s', Inl e) \<Rightarrow> (s', Inl e)
              | (s', Inr None) \<Rightarrow> (s', Inl (New CodeNotFound ''signed tree head not found''))
              | (s', Inr (Some latest)) \<Rightarrow> (s', Inr (sth_TreeSize latest)))
        else (s, Inr treeSize)) = (s', Inr (word_of_nat n))"
  proof (cases "treeSize = 0")
    case True
    then have n: "n = length ls" "ls \<noteq> []" using ts un i by auto
    obtain s' where "ls_LatestSignedTreeHead st s = (s', Inr (Some (f n)))" "tab s' = tab s" "ok s'"
      using latest [OF okst f(1) size] f(2) i n by (auto simp: sth_ok_def)
    moreover have "sth_TreeSize (f n) = word_of_nat n" using f(2) i by (simp add: sth_ok_def)
    ultimately show ?thesis using True that by simp
  next
    case False
    with ts okst that show ?thesis by auto
  qed
  have sth: "ls_GetSignedTreeHead st s' (word_of_nat n) = Inr (Some (f n))"
    using get_sth [OF s'(2) un(3)] s'(1) f(1) i size un by (simp add: tget_idx_tbl)
  have ap: "Service_auditPath prims svc st s' (word_of_nat i) 0 (word_of_nat n) =
      Inr (audit_path (nodeh prims svc) (take n (hashes ls)) i)"
    using service_auditPath_ok [OF svc _ s'(2), of prims encs ls 0 "word_of_nat i" "word_of_nat n"] t s'(1) un i
    by (simp add: leaf_slice_def)
  have lt: "\<not> (word_of_nat n :: uint64) \<le> word_of_nat i" using un i by (simp add: word_le_nat_alt)
  have "proof_for prims encs svc ls i n
      \<lparr>gproof_SchemaVersion = SchemaGlobalLogProof, gproof_CryptoSuite = provider_Suite (svc_provider svc),
       gproof_NodeID = gleaf_NodeID ?leaf, gproof_LogID = gleaf_LogID ?leaf, gproof_BatchID = gleaf_BatchID ?leaf,
       gproof_LeafIndex = word_of_nat i, gproof_LeafHash = gleaf_LeafHash ?leaf,
       gproof_TreeSize = word_of_nat n, gproof_InclusionPath = audit_path (nodeh prims svc) (take n (hashes ls)) i,
       gproof_STH = f n, gproof_Consistency = zero_GlobalConsistencyProof\<rparr>"
    using f(2) i by (simp add: proof_for_def)
  then show ?thesis
    using s' gb size_eq sth ap lt b(2) by (simp add: InclusionProof_def)
qed

end

section \<open>Extending the log\<close>

definition dated :: "GlobalLogAppend \<Rightarrow> bool" where
  "dated e \<longleftrightarrow>
     gleaf_SchemaVersion (gapp_Leaf e) \<noteq> '''' \<and> gleaf_AppendedAtUnixN (gapp_Leaf e) \<noteq> 0 \<and>
     gstate_SchemaVersion (gapp_State e) \<noteq> '''' \<and> gstate_UpdatedAtUnixN (gapp_State e) \<noteq> 0 \<and>
     sth_SchemaVersion (gapp_STH e) \<noteq> '''' \<and> sth_TimestampUnixN (gapp_STH e) \<noteq> 0 \<and>
     list_all (\<lambda>nd. gnode_SchemaVersion nd \<noteq> '''' \<and> gnode_CreatedAtUnixN nd \<noteq> 0) (gapp_Nodes e)"

lemma append_defaults_dated: "dated e \<Longrightarrow> append_defaults now e = e"
proof -
  assume d: "dated e"
  then have "map (node_defaults now) (gapp_Nodes e) = gapp_Nodes e"
    by (intro map_idI) (simp add: dated_def list_all_iff node_defaults_def)
  with d show ?thesis
    by (simp add: dated_def append_defaults_def leaf_defaults_def state_defaults_def sth_defaults_def)
qed

text \<open>An append that extends the log \<open>ls\<close> by one leaf.\<close>

definition entry_ok :: "crypto_prims \<Rightarrow> encoders \<Rightarrow> log_service \<Rightarrow> GlobalLogLeaf list \<Rightarrow> GlobalLogAppend \<Rightarrow> bool" where
  "entry_ok prims encs svc ls e \<longleftrightarrow>
     Suc (length ls) < 2 ^ 64 \<and> leaf_ok prims encs svc (length ls) (gapp_Leaf e) \<and>
     gleaf_BatchID (gapp_Leaf e) \<notin> gleaf_BatchID ` set ls \<and>
     state_ok prims svc (hashes (ls @ [gapp_Leaf e])) (gapp_State e) \<and>
     sth_ok prims encs svc (hashes (ls @ [gapp_Leaf e])) (Suc (length ls)) (gapp_STH e) \<and>
     list_all (\<lambda>nd. node_ok (nodeh prims svc) (hashes (ls @ [gapp_Leaf e])) nd \<and>
       gnode_CryptoSuite nd = provider_Suite (svc_provider svc)) (gapp_Nodes e) \<and> dated e"

fun ext_ok :: "crypto_prims \<Rightarrow> encoders \<Rightarrow> log_service \<Rightarrow> GlobalLogLeaf list \<Rightarrow> GlobalLogAppend list \<Rightarrow> bool" where
  "ext_ok prims encs svc ls [] \<longleftrightarrow> True"
| "ext_ok prims encs svc ls (e # es) \<longleftrightarrow> entry_ok prims encs svc ls e \<and> ext_ok prims encs svc (ls @ [gapp_Leaf e]) es"

lemma ext_ok_snoc:
  "ext_ok prims encs svc ls (es @ [e]) \<longleftrightarrow> ext_ok prims encs svc ls es \<and> entry_ok prims encs svc (ls @ map gapp_Leaf es) e"
  by (induction es arbitrary: ls) auto

lemma ext_ok_last:
  "ext_ok prims encs svc ls es \<Longrightarrow> es \<noteq> [] \<Longrightarrow> state_ok prims svc (hashes (ls @ map gapp_Leaf es)) (gapp_State (last es))"
  by (induction es rule: rev_induct) (auto simp: ext_ok_snoc entry_ok_def)

lemma fold_set_node [simp]:
  "lt_leaves (fold set_node nds t) = lt_leaves t" "lt_batch (fold set_node nds t) = lt_batch t"
  "lt_state (fold set_node nds t) = lt_state t" "lt_sths (fold set_node nds t) = lt_sths t"
  by (induction nds arbitrary: t) (simp_all add: set_node_def)

lemma fold_set_node_nodes:
  "lt_nodes (fold set_node nds t) k = Some nd \<Longrightarrow>
   lt_nodes t k = Some nd \<or> nd \<in> set nds \<and> k = (gnode_Level nd, gnode_StartIndex nd)"
proof (induction nds arbitrary: t)
  case (Cons n nds)
  from Cons.IH [of "set_node n t"] Cons.prems show ?case
    by (auto simp: set_node_def split: if_splits)
qed simp

lemma idx_tbl_cong: "(\<And>i. a \<le> i \<Longrightarrow> i < b \<Longrightarrow> f i = g i) \<Longrightarrow> idx_tbl a f b = idx_tbl a g b"
  by (simp add: idx_tbl_def)

lemma stage_append_ok:
  assumes t: "tables_ok prims encs svc t ls" and e: "entry_ok prims encs svc ls e"
  shows "tables_ok prims encs svc (stage_append e t) (ls @ [gapp_Leaf e])"
proof -
  let ?leaf = "gapp_Leaf e" and ?n = "length ls"
  have size: "Suc ?n < 2 ^ 64" and leaf: "leaf_ok prims encs svc ?n ?leaf" and fresh: "gleaf_BatchID ?leaf \<notin> gleaf_BatchID ` set ls"
    and sth: "sth_ok prims encs svc (hashes (ls @ [?leaf])) (Suc ?n) (gapp_STH e)"
    using e by (auto simp: entry_ok_def)
  have "lt_leaves (stage_append e t) = tput (word_of_nat ?n) ?leaf (idx_tbl 0 ((!) ls) ?n)"
    using t leaf by (simp add: stage_append_def set_sth_def set_batch_def set_leaf_def tables_ok_def leaf_ok_def)
  also have "\<dots> = idx_tbl 0 ((!) (ls @ [?leaf])) (Suc ?n)"
    using size by (subst tput_idx_tbl) (auto simp: nth_append intro!: idx_tbl_cong)
  finally have leaves: "lt_leaves (stage_append e t) = idx_tbl 0 ((!) (ls @ [?leaf])) (length (ls @ [?leaf]))" by simp
  have batch: "lt_batch (stage_append e t) = map_of (map (\<lambda>l. (gleaf_BatchID l, l)) (ls @ [?leaf]))"
  proof
    fix b
    have "map_of (map (\<lambda>l. (gleaf_BatchID l, l)) ls) (gleaf_BatchID ?leaf) = None"
      using fresh by (simp add: map_of_eq_None_iff image_image)
    then show "lt_batch (stage_append e t) b = map_of (map (\<lambda>l. (gleaf_BatchID l, l)) (ls @ [?leaf])) b"
      using t by (auto simp: stage_append_def set_sth_def set_batch_def set_leaf_def tables_ok_def map_add_def
          split: option.splits)
  qed
  have nodes: "k = (gnode_Level nd, gnode_StartIndex nd) \<and> node_ok (nodeh prims svc) (hashes (ls @ [?leaf])) nd"
    if "lt_nodes (stage_append e t) k = Some nd" for k nd
  proof -
    have "lt_nodes t k = Some nd \<or> nd \<in> set (gapp_Nodes e) \<and> k = (gnode_Level nd, gnode_StartIndex nd)"
      using that fold_set_node_nodes [of "gapp_Nodes e" "set_batch ?leaf (set_leaf ?leaf t)" k nd]
      by (simp add: stage_append_def set_sth_def set_batch_def set_leaf_def)
    then show ?thesis
      using t e node_ok_append [of "nodeh prims svc" "hashes ls" nd "[gleaf_LeafHash ?leaf]"]
      by (cases k) (auto simp: tables_ok_def entry_ok_def list_all_iff)
  qed
  obtain f where f: "lt_sths t = idx_tbl 1 f (Suc ?n)" "\<forall>n. 0 < n \<and> n \<le> ?n \<longrightarrow> sth_ok prims encs svc (hashes ls) n (f n)"
    using t by (auto simp: tables_ok_def)
  have "lt_sths (stage_append e t) = tput (word_of_nat (Suc ?n)) (gapp_STH e) (idx_tbl 1 f (Suc ?n))"
    using f sth by (simp add: stage_append_def set_sth_def set_batch_def set_leaf_def sth_ok_def)
  also have "\<dots> = idx_tbl 1 (f(Suc ?n := gapp_STH e)) (Suc (Suc ?n))"
    using size by (intro tput_idx_tbl) auto
  finally have sths: "lt_sths (stage_append e t) = idx_tbl 1 (f(Suc ?n := gapp_STH e)) (Suc (length (ls @ [?leaf])))"
    by simp
  have ok: "0 < n \<and> n \<le> length (ls @ [?leaf]) \<longrightarrow>
      sth_ok prims encs svc (hashes (ls @ [?leaf])) n ((f(Suc ?n := gapp_STH e)) n)" for n
    using f(2) sth sth_ok_append [of prims encs svc "hashes ls" n "f n" "[gleaf_LeafHash ?leaf]"]
    by (auto simp: le_Suc_eq)
  have "\<forall>i < length (ls @ [?leaf]). leaf_ok prims encs svc i ((ls @ [?leaf]) ! i)"
    using t leaf by (auto simp: tables_ok_def nth_append less_Suc_eq)
  with t fresh leaves batch nodes sths ok size show ?thesis
    unfolding tables_ok_def by (intro conjI exI [of _ "f(Suc ?n := gapp_STH e)"]) auto
qed

lemma fold_stage_append_ok:
  "tables_ok prims encs svc t ls \<Longrightarrow> ext_ok prims encs svc ls es \<Longrightarrow>
   tables_ok prims encs svc (fold stage_append es t) (ls @ map gapp_Leaf es)"
proof (induction es arbitrary: t ls)
  case (Cons e es)
  then show ?case using Cons.IH [OF stage_append_ok [of prims encs svc t ls e]] by simp
qed simp

lemma tables_ok_set_state [simp]: "tables_ok prims encs svc (set_state x u) ls = tables_ok prims encs svc u ls"
  by (simp add: tables_ok_def set_state_def)

lemma stage_appends_ok:
  assumes "tables_ok prims encs svc t ls" "ext_ok prims encs svc ls es" "es \<noteq> []"
  shows "log_inv prims encs svc (stage_appends es t) (ls @ map gapp_Leaf es)"
  using fold_stage_append_ok [OF assms(1,2)] ext_ok_last [OF assms(2,3)]
  by (simp add: log_inv_def stage_appends_def) (simp add: set_state_def)

section \<open>Planning an append\<close>

lemma HashLeaf_fields [simp]:
  "HashLeafWithProvider prims encs p (leaf\<lparr>gleaf_LeafHash := h\<rparr>) = HashLeafWithProvider prims encs p leaf"
  by (simp add: HashLeafWithProvider_def Let_def)

lemma appendState_size:
  "appendState prims svc now state leaf = Inr (state', nodes) \<Longrightarrow> gstate_TreeSize state' = gstate_TreeSize state + 1"
  by (auto simp: appendState_def check_simps Let_def)

lemma signSTHFromState_Inr:
  assumes "signSTHFromState prims encs ctx svc now state = Inr sth"
  shows "gstate_TreeSize state \<noteq> 0" "sth_TreeSize sth = gstate_TreeSize state" "sth_RootHash sth = gstate_RootHash state"
    "sth_SchemaVersion sth = SchemaSignedTreeHead" "sth_CryptoSuite sth = provider_Suite (svc_provider svc)"
    "sth_TreeAlg sth = prof_algorithm (svc_profile svc)" "sth_NodeID sth = svc_nodeID svc" "sth_LogID sth = svc_logID svc"
    "sth_TimestampUnixN sth = now" "sign_tree_head prims encs ctx svc (sth\<lparr>sth_Signature := zero_Signature\<rparr>) = Inr sth"
  using assms by (auto simp: signSTHFromState_def sign_tree_head_def check_simps Let_def)

lemma plan_entry_ok:
  assumes svc: "svc_ok svc" and ls: "length ls < 2 ^ 64" "\<forall>i < length ls. leaf_ok prims encs svc i (ls ! i)"
    and state: "state_ok prims svc (hashes ls) state"
    and root: "broot_NodeID root = svc_nodeID svc" "broot_LogID root = svc_logID svc" "broot_BatchID root \<noteq> ''''"
      "broot_BatchID root \<notin> gleaf_BatchID ` set ls"
    and h: "HashLeafWithProvider prims encs (Some (svc_provider svc)) (new_leaf svc t0 state root) = Inr h"
    and leaf: "leaf = (new_leaf svc t0 state root)\<lparr>gleaf_LeafHash := h\<rparr>"
    and app: "appendState prims svc t1 state leaf = Inr (next, nodes)"
    and sth: "signSTHFromState prims encs ctx svc t2 next = Inr sth"
    and clock: "t0 \<noteq> 0" "t1 \<noteq> 0" "t2 \<noteq> 0"
  shows "entry_ok prims encs svc ls \<lparr>gapp_Leaf = leaf, gapp_Nodes = nodes, gapp_State = next, gapp_STH = sth\<rparr>"
proof -
  note s = signSTHFromState_Inr [OF sth]
  have ts: "gstate_TreeSize next = word_of_nat (length ls) + 1"
    using appendState_size [OF app] state by (simp add: state_ok_def)
  have size: "Suc (length ls) < 2 ^ 64"
  proof (rule ccontr)
    assume "\<not> ?thesis"
    then have "Suc (length ls) = 2 ^ 64" using ls(1) by simp
    then have "(word_of_nat (Suc (length ls)) :: uint64) = 0" by (simp only:) simp
    with ts s(1) show False by (simp add: add.commute)
  qed
  have lf: "gleaf_CryptoSuite leaf = provider_Suite (svc_provider svc)" "length (gleaf_LeafHash leaf) = 32"
      "gleaf_LeafIndex leaf = word_of_nat (length ls)"
    using appendState_guards [OF app] state svc by (auto simp: state_ok_def svc_ok_profile(2))
  have lok: "leaf_ok prims encs svc (length ls) leaf"
    using lf h root by (simp add: leaf_ok_def leaf) (simp add: new_leaf_def)
  obtain next' nodes' where n: "appendState prims svc t1 state leaf = Inr (next', nodes')"
      "state_ok prims svc (hashes ls @ [gleaf_LeafHash leaf]) next'" "gstate_UpdatedAtUnixN next' = t1"
      "list_all (new_node_ok prims svc t1 (hashes ls @ [gleaf_LeafHash leaf])) nodes'"
    using appendState_ok [OF svc state digests_hashes [OF ls(2)] _ lf(1,2), where now = t1] size lf(3) by auto
  with app have eq: "next' = next" "nodes' = nodes" by auto
  have sok: "sth_ok prims encs svc (hashes (ls @ [leaf])) (Suc (length ls)) sth"
    using s n(2) eq by (auto simp: sth_ok_def state_ok_def)
  have "dated \<lparr>gapp_Leaf = leaf, gapp_Nodes = nodes, gapp_State = next, gapp_STH = sth\<rparr>"
    using n(2-4) eq s(4,9) clock
    by (auto simp: dated_def leaf new_leaf_def state_ok_def new_node_ok_def list_all_iff)
  then show ?thesis
    using size lok root sok n(2,4) eq
    by (auto simp: entry_ok_def leaf new_leaf_def new_node_ok_def list_all_iff)
qed

end
