(* ===== verification/Log_Append.thy ===== *)
theory Log_Append
  imports Log_Correct
begin

text \<open>
  Appending to the global log, as the service does it over any store that keeps the laws of the
  locales: what a plan is, that committing it extends the abstract log by the batches that were not
  in it, and what every error leaves.
\<close>

section \<open>Plans\<close>

text \<open>A root is covered by a tree head: its leaf is in the log and the head is the first to contain it.\<close>

definition covered :: "crypto_prims \<Rightarrow> encoders \<Rightarrow> log_service \<Rightarrow> GlobalLogLeaf list \<Rightarrow> BatchRoot \<Rightarrow> SignedTreeHead \<Rightarrow> bool" where
  "covered prims encs svc ls root sth \<longleftrightarrow>
     (\<exists>i < length ls. validateGlobalLogReplayLeaf (ls ! i) root = None \<and> sth_ok prims encs svc (hashes ls) (Suc i) sth)"

lemma covered_append: "covered prims encs svc ls root sth \<Longrightarrow> covered prims encs svc (ls @ ms) root sth"
  unfolding covered_def using sth_ok_append [of prims encs svc "hashes ls"] by (fastforce simp: nth_append)

lemma covered_batch: "covered prims encs svc ls root sth \<Longrightarrow> broot_BatchID root \<in> gleaf_BatchID ` set ls"
  by (auto simp: covered_def validateGlobalLogReplayLeaf_def check_simps) (metis imageI nth_mem)

lemma covered_replay:
  "validateGlobalLogReplayRoot original root = None \<Longrightarrow> covered prims encs svc ls original sth \<Longrightarrow> covered prims encs svc ls root sth"
  by (auto simp: covered_def validateGlobalLogReplayLeaf_def validateGlobalLogReplayRoot_def check_simps)

lemma covered_entry:
  assumes "entry_ok prims encs svc ls e" "validateGlobalLogReplayLeaf (gapp_Leaf e) root = None"
  shows "covered prims encs svc (ls @ [gapp_Leaf e]) root (gapp_STH e)"
  using assms by (auto simp: covered_def entry_ok_def intro!: exI [of _ "length ls"])

text \<open>What holds while roots are planned on top of the log \<open>ls\<close>, and what a finished plan is.\<close>

definition planning ::
  "crypto_prims \<Rightarrow> encoders \<Rightarrow> log_service \<Rightarrow> GlobalLogLeaf list \<Rightarrow> GlobalLogState \<Rightarrow> GlobalLogAppend list \<Rightarrow>
   (string \<Rightarrow> (SignedTreeHead \<times> BatchRoot) option) \<Rightarrow> bool" where
  "planning prims encs svc ls state appends planned \<longleftrightarrow>
     state_ok prims svc (hashes (ls @ map gapp_Leaf appends)) state \<and> ext_ok prims encs svc ls appends \<and>
     (\<forall>b sth r. planned b = Some (sth, r) \<longrightarrow> broot_BatchID r = b \<and> covered prims encs svc (ls @ map gapp_Leaf appends) r sth) \<and>
     (\<forall>e \<in> set appends. planned (gleaf_BatchID (gapp_Leaf e)) \<noteq> None)"

definition plan_ok ::
  "crypto_prims \<Rightarrow> encoders \<Rightarrow> log_service \<Rightarrow> GlobalLogLeaf list \<Rightarrow> GlobalLogAppend list \<Rightarrow> SignedTreeHead list \<Rightarrow> BatchRoot list \<Rightarrow>
   GlobalLogAppend list \<times> SignedTreeHead list \<Rightarrow> bool" where
  "plan_ok prims encs svc ls appends sths roots r \<longleftrightarrow>
     ext_ok prims encs svc ls (fst r) \<and>
     (\<exists>es. fst r = appends @ es \<and> (\<forall>e \<in> set es. gleaf_BatchID (gapp_Leaf e) \<in> broot_BatchID ` set roots)) \<and>
     (\<exists>new. snd r = sths @ new \<and>
        list_all2 (\<lambda>root sth. covered prims encs svc (ls @ map gapp_Leaf (fst r)) (stream_root svc root) sth) roots new)"

lemma planning_start: "state_ok prims svc (hashes ls) state \<Longrightarrow> planning prims encs svc ls state [] Map.empty"
  by (simp add: planning_def)

lemma planning_known:
  "planning prims encs svc ls state appends planned \<Longrightarrow> covered prims encs svc (ls @ map gapp_Leaf appends) root sth \<Longrightarrow>
   planning prims encs svc ls state appends (planned(broot_BatchID root \<mapsto> (sth, root)))"
  by (auto simp: planning_def)

lemma planning_new:
  assumes "planning prims encs svc ls state appends planned" "entry_ok prims encs svc (ls @ map gapp_Leaf appends) e"
    and "gleaf_BatchID (gapp_Leaf e) = broot_BatchID root"
    and c: "covered prims encs svc (ls @ map gapp_Leaf (appends @ [e])) root sth"
  shows "planning prims encs svc ls (gapp_State e) (appends @ [e]) (planned(broot_BatchID root \<mapsto> (sth, root)))"
  using assms covered_append [of prims encs svc "ls @ map gapp_Leaf appends" _ _ "[gapp_Leaf e]"]
  by (auto simp: planning_def ext_ok_snoc entry_ok_def)

lemma plan_ok_step:
  assumes "plan_ok prims encs svc ls (appends @ es) (sths @ [sth]) roots r"
    and c: "covered prims encs svc (ls @ map gapp_Leaf (appends @ es)) (stream_root svc root) sth"
    and "\<forall>e \<in> set es. gleaf_BatchID (gapp_Leaf e) = broot_BatchID root"
  shows "plan_ok prims encs svc ls appends sths (root # roots) r"
proof -
  obtain es' new where r: "fst r = appends @ es @ es'" "snd r = sths @ sth # new"
    and "\<forall>e \<in> set es'. gleaf_BatchID (gapp_Leaf e) \<in> broot_BatchID ` set roots"
      "list_all2 (\<lambda>root sth. covered prims encs svc (ls @ map gapp_Leaf (fst r)) (stream_root svc root) sth) roots new"
    using assms(1) by (auto simp: plan_ok_def)
  moreover have "covered prims encs svc (ls @ map gapp_Leaf (fst r)) (stream_root svc root) sth"
    using covered_append [OF c, of "map gapp_Leaf es'"] r(1) by simp
  moreover have "ext_ok prims encs svc ls (fst r)" using assms(1) by (simp add: plan_ok_def)
  ultimately show ?thesis
    using assms(3) unfolding plan_ok_def
    by (intro conjI exI [of _ "es @ es'"] exI [of _ "sth # new"]) auto
qed

context log_reads
begin

text \<open>The tree head of a batch that is in the log.\<close>

lemma replayed_head:
  assumes t: "tables_ok prims encs svc (tab s) ls" and okst: "ok s" and e: "lt_batch (tab s) b = Some existing"
  obtains sth where "ls_GetSignedTreeHead st s (gleaf_LeafIndex existing + 1) = Inr (Some sth)"
    "\<And>root. validateGlobalLogReplayLeaf existing root = None \<Longrightarrow> covered prims encs svc ls root sth"
proof -
  obtain j where j: "j < length ls" "ls ! j = existing" using e by (rule lookup_batch_Some [OF t])
  have ix: "gleaf_LeafIndex existing + 1 = word_of_nat (Suc j)" using t j by (auto simp: tables_ok_def leaf_ok_def)
  have sz: "Suc j < 2 ^ 64" using t j(1) by (auto simp: tables_ok_def)
  then have nz: "gleaf_LeafIndex existing + 1 \<noteq> 0" unfolding ix by (simp only: word_unat_eq_iff unat_word_of_nat_id) simp
  obtain sth where "tget (lt_sths (tab s)) (gleaf_LeafIndex existing + 1) = Some sth" "sth_ok prims encs svc (hashes ls) (Suc j) sth"
    using t j(1) sz unfolding ix tables_ok_def by (auto simp: tget_idx_tbl unat_word_of_nat_id simp del: of_nat_Suc)
  with that [of sth] get_sth [OF okst nz] j show ?thesis by (auto simp: covered_def)
qed

lemma plan_roots_ok:
  assumes svc: "svc_ok svc" and t: "tables_ok prims encs svc (tab s) ls" and okst: "ok s" and clock: "\<And>i. clock i \<noteq> 0"
  shows "plan_roots prims encs ctx svc st clock s state appends planned sths i roots = Inr r \<Longrightarrow>
    planning prims encs svc ls state appends planned \<Longrightarrow>
    \<forall>root \<in> set roots. broot_CryptoSuite root = provider_Suite (svc_provider svc) \<Longrightarrow>
    plan_ok prims encs svc ls appends sths roots r"
proof (induction roots arbitrary: state appends planned sths i)
  case Nil
  then show ?case by (cases r) (simp add: planning_def plan_ok_def)
next
  case (Cons root0 roots)
  define root where "root = stream_root svc root0"
  have root: "broot_BatchID root = broot_BatchID root0" "broot_CryptoSuite root = provider_Suite (svc_provider svc)"
    using Cons.prems(3) by (simp_all add: root_def stream_root_def)
  have ident: "broot_NodeID root = svc_nodeID svc" "broot_LogID root = svc_logID svc"
    using Cons.prems(1) by (auto simp: root_def Let_def split: if_splits)
  have suites: "\<forall>root \<in> set roots. broot_CryptoSuite root = provider_Suite (svc_provider svc)" using Cons.prems(3) by simp
  let ?L = "ls @ map gapp_Leaf appends"
  have plan: "ext_ok prims encs svc ls appends" "state_ok prims svc (hashes ?L) state" using Cons.prems(2) by (auto simp: planning_def)
  show ?case
  proof (cases "planned (broot_BatchID root)")
    case (Some sr)
    then obtain sth original where sr: "planned (broot_BatchID root) = Some (sth, original)" by (cases sr) auto
    with Cons.prems(1) ident have v: "validateGlobalLogReplayRoot original root = None"
      and p: "plan_roots prims encs ctx svc st clock s state appends planned (sths @ [sth]) i roots = Inr r"
      by (auto simp: root_def [symmetric] Let_def check_simps)
    have "covered prims encs svc ?L root sth"
      using Cons.prems(2) sr covered_replay [OF v] by (auto simp: planning_def)
    with Cons.IH [OF p Cons.prems(2) suites] show ?thesis
      using plan_ok_step [of prims encs svc ls appends "[]"] by (simp add: root_def)
  next
    case None
    have ne: "broot_BatchID root \<noteq> ''''"
      using Cons.prems(1) None ident get_no_batch [of s] by (auto simp: root_def [symmetric] Let_def check_simps)
    show ?thesis
    proof (cases "lt_batch (tab s) (broot_BatchID root)")
      case (Some existing)
      then obtain sth where sth: "ls_GetSignedTreeHead st s (gleaf_LeafIndex existing + 1) = Inr (Some sth)"
        "validateGlobalLogReplayLeaf existing root = None \<Longrightarrow> covered prims encs svc ls root sth"
        using replayed_head [OF t okst] by metis
      have v: "validateGlobalLogReplayLeaf existing root = None"
        and p: "plan_roots prims encs ctx svc st clock s state appends (planned(broot_BatchID root \<mapsto> (sth, root)))
          (sths @ [sth]) i roots = Inr r"
        using Cons.prems(1) None ident get_batch [OF okst ne] Some sth(1)
        by (auto simp: root_def [symmetric] Let_def check_simps split: if_splits)
      note c = covered_append [OF sth(2) [OF v], of "map gapp_Leaf appends"]
      show ?thesis
        using Cons.IH [OF p planning_known [OF Cons.prems(2) c] suites] c plan_ok_step [of prims encs svc ls appends "[]"]
        by (simp add: root_def)
    next
      case nob: None
      obtain h leaf nxt nodes sth where
        h: "HashLeafWithProvider prims encs (Some (svc_provider svc)) (new_leaf svc (clock i) state root) = Inr h"
        and leaf: "leaf = (new_leaf svc (clock i) state root)\<lparr>gleaf_LeafHash := h\<rparr>"
        and app: "appendState prims svc (clock (i + 1)) state leaf = Inr (nxt, nodes)"
        and sth: "signSTHFromState prims encs ctx svc (clock (i + 2)) nxt = Inr sth"
        and p: "plan_roots prims encs ctx svc st clock s nxt
            (appends @ [\<lparr>gapp_Leaf = leaf, gapp_Nodes = nodes, gapp_State = nxt, gapp_STH = sth\<rparr>])
            (planned(broot_BatchID root \<mapsto> (sth, root))) (sths @ [sth]) (i + 3) roots = Inr r"
        using Cons.prems(1) None ident get_batch [OF okst ne] nob by (auto simp: root_def [symmetric] Let_def check_simps)
      define e where "e = \<lparr>gapp_Leaf = leaf, gapp_Nodes = nodes, gapp_State = nxt, gapp_STH = sth\<rparr>"
      have "broot_BatchID root \<notin> gleaf_BatchID ` set ?L"
        using nob lookup_batch_None [OF t, of "broot_BatchID root"] None Cons.prems(2) by (auto simp: planning_def)
      then have e: "entry_ok prims encs svc ?L e"
        unfolding e_def using fold_stage_append_ok [OF t plan(1)] clock
        by (intro plan_entry_ok [OF svc _ _ plan(2) ident ne _ h leaf app sth]) (auto simp: tables_ok_def)
      have "validateGlobalLogReplayLeaf leaf root = None"
        using ident root(2) by (simp add: leaf validateGlobalLogReplayLeaf_def new_leaf_def check_simps)
      then have c: "covered prims encs svc (ls @ map gapp_Leaf (appends @ [e])) root sth"
        using covered_entry [OF e, of root] by (simp add: e_def)
      have b: "gleaf_BatchID (gapp_Leaf e) = broot_BatchID root" by (simp add: e_def leaf new_leaf_def)
      have "plan_ok prims encs svc ls (appends @ [e]) (sths @ [sth]) roots r"
        by (rule Cons.IH [OF p [folded e_def] _ suites])
          (use planning_new [OF Cons.prems(2) e b c] in \<open>simp add: e_def del: fun_upd_apply\<close>)
      with c b root(1) show ?thesis using plan_ok_step [of prims encs svc ls appends "[e]"] by (simp add: root_def)
    qed
  qed
qed

end

section \<open>Committing\<close>

text \<open>
  What the service relies on when it commits. \<open>shared\<close> says whether other processes may write to
  the store between the reads and the commit of an append; such a store must refuse a commit that
  does not start at the persisted tree size.
\<close>

definition persisted_size :: "log_tables \<Rightarrow> uint64" where
  "persisted_size t = (case lt_state t of None \<Rightarrow> 0 | Some state \<Rightarrow> gstate_TreeSize state)"

locale log_commits = log_reads st tab ok
  for st :: "'s log_store" and tab :: "'s \<Rightarrow> log_tables" and ok :: "'s \<Rightarrow> bool" +
  fixes shared :: bool
  assumes commit_ok: "ok s \<Longrightarrow> tables_ok prims encs svc (tab s) ls \<Longrightarrow> ext_ok prims encs svc ls es \<Longrightarrow> es \<noteq> [] \<Longrightarrow>
      commit_appends st s es = (s', None) \<Longrightarrow> tab s' = stage_appends es (tab s) \<and> ok s'"
    and commit_error: "ok s \<Longrightarrow> tables_ok prims encs svc (tab s) ls' \<Longrightarrow> ext_ok prims encs svc ls es \<Longrightarrow> shared \<or> ls' = ls \<Longrightarrow>
      commit_appends st s es = (s', Some e) \<Longrightarrow> tab s' = tab s \<and> ok s'"
    and commit_fence: "shared \<Longrightarrow> es \<noteq> [] \<Longrightarrow> commit_appends st s es = (s', None) \<Longrightarrow>
      gleaf_LeafIndex (gapp_Leaf (hd es)) = persisted_size (tab s)"

text \<open>What another writer may do: leave a log that extends the one it found.\<close>

definition log_grows ::
  "crypto_prims \<Rightarrow> encoders \<Rightarrow> log_service \<Rightarrow> ('s \<Rightarrow> log_tables) \<Rightarrow> ('s \<Rightarrow> bool) \<Rightarrow> ('s \<Rightarrow> 's) \<Rightarrow> bool" where
  "log_grows prims encs svc tab ok f \<longleftrightarrow>
     (\<forall>s ls. ok s \<and> log_inv prims encs svc (tab s) ls \<longrightarrow> ok (f s) \<and> (\<exists>ms. log_inv prims encs svc (tab (f s)) (ls @ ms)))"

lemma log_grows_step:
  assumes "f = id \<or> c \<and> log_grows prims encs svc tab ok f" "log_inv prims encs svc (tab s) ls" "ok s"
  shows "\<exists>ms. log_inv prims encs svc (tab (f s)) (ls @ ms) \<and> ok (f s) \<and> (f = id \<longrightarrow> ms = []) \<and> (c \<or> ms = [])"
proof (cases "f = id")
  case True
  with assms show ?thesis by (intro exI [of _ "[]"]) simp
next
  case False
  with assms show ?thesis unfolding log_grows_def by metis
qed

text \<open>
  The outcome of an append on the log \<open>ls\<close>: \<open>ls'\<close> adds one leaf for every batch that \<open>ls\<close>
  does not have, and every root gets the head of the tree that ends with its leaf.
\<close>

definition appended ::
  "crypto_prims \<Rightarrow> encoders \<Rightarrow> log_service \<Rightarrow> GlobalLogLeaf list \<Rightarrow> BatchRoot list \<Rightarrow> GlobalLogLeaf list \<Rightarrow> SignedTreeHead list \<Rightarrow> bool" where
  "appended prims encs svc ls roots ls' sths \<longleftrightarrow>
     (\<exists>added. ls' = ls @ added \<and> distinct (map gleaf_BatchID added) \<and>
        gleaf_BatchID ` set added = broot_BatchID ` set roots - gleaf_BatchID ` set ls) \<and>
     list_all2 (\<lambda>root sth. covered prims encs svc ls' (stream_root svc root) sth) roots sths"

lemma persisted_size_log_inv: "log_inv prims encs svc t ls \<Longrightarrow> persisted_size t = word_of_nat (length ls)"
  by (auto simp: log_inv_def persisted_size_def state_ok_def split: option.splits)

lemma appended_plan:
  assumes p: "plan_ok prims encs svc ls [] [] roots (es, sths)"
    and t: "tables_ok prims encs svc t (ls @ ms @ map gapp_Leaf es)" and e: "es = [] \<or> ms = []"
  shows "appended prims encs svc (ls @ ms) roots (ls @ ms @ map gapp_Leaf es) sths"
proof -
  have c: "list_all2 (\<lambda>root sth. covered prims encs svc (ls @ map gapp_Leaf es) (stream_root svc root) sth) roots sths"
    and b: "gleaf_BatchID ` set (map gapp_Leaf es) \<subseteq> broot_BatchID ` set roots"
    using p by (auto simp: plan_ok_def)
  have c': "list_all2 (\<lambda>root sth. covered prims encs svc (ls @ ms @ map gapp_Leaf es) (stream_root svc root) sth) roots sths"
    using c e covered_append [of prims encs svc ls _ _ ms] by (auto elim: list_all2_mono)
  have "broot_BatchID ` set roots \<subseteq> gleaf_BatchID ` set (ls @ ms @ map gapp_Leaf es)"
  proof
    fix x assume "x \<in> broot_BatchID ` set roots"
    then obtain j where "j < length roots" "x = broot_BatchID (roots ! j)" by (auto simp: in_set_conv_nth)
    then show "x \<in> gleaf_BatchID ` set (ls @ ms @ map gapp_Leaf es)"
      using list_all2_nthD [OF c'] covered_batch by (fastforce simp: stream_root_def)
  qed
  moreover have "distinct (map gleaf_BatchID (ls @ ms @ map gapp_Leaf es))" using t by (simp add: tables_ok_def)
  ultimately show ?thesis
    using b c' unfolding appended_def by (intro conjI exI [of _ "map gapp_Leaf es"]) auto
qed

context log_reads
begin

lemma loadState_ok:
  assumes "log_inv prims encs svc (tab s) ls" "ok s"
  obtains state t where "loadState prims svc st clock s = Some (s, Inr (state, t))" "state_ok prims svc (hashes ls) state"
proof (cases "lt_state (tab s)")
  case (Some state)
  then have sok: "state_ok prims svc (hashes ls) state" using assms(1) by (simp add: log_inv_def)
  then have "loadState prims svc st clock s = Some (s, Inr (state, 0))"
    using Some get_state [OF assms(2)] by (simp add: loadState_def state_ok_def RequireSame_provider check_simps)
  with sok that show ?thesis by blast
next
  case None
  then have ls: "ls = []" using assms(1) by (simp add: log_inv_def)
  then have "ls_ListGlobalLeavesRange st s 0 1024 = Inr []"
    using leaf_range [OF assms(2), of "(!) ls" 0 0 1024] assms(1) by (simp add: log_inv_def tables_ok_def)
  moreover define state where "state = \<lparr>gstate_SchemaVersion = SchemaGlobalLogState, gstate_CryptoSuite = provider_Suite (svc_provider svc),
      gstate_TreeSize = 0, gstate_RootHash = [], gstate_Frontier = [], gstate_UpdatedAtUnixN = 0\<rparr>"
  ultimately have "loadState prims svc st clock s = Some (s, Inr (state, 0))"
    using None get_state [OF assms(2)] by (simp add: loadState_def rebuild_loop.simps)
  with ls that show ?thesis by (auto simp: state_def state_ok_def)
qed

end

context log_commits
begin

lemma commit_extends:
  assumes okst: "ok s" and inv: "log_inv prims encs svc (tab s) (ls @ ms)" and ext: "ext_ok prims encs svc ls es"
    and ms: "shared \<or> ms = []" and c: "commit_appends st s es = (s', r)"
  shows "ok s'" "r \<noteq> None \<Longrightarrow> log_inv prims encs svc (tab s') (ls @ ms)"
    "r = None \<Longrightarrow> log_inv prims encs svc (tab s') (ls @ ms @ map gapp_Leaf es) \<and> (es = [] \<or> ms = [])"
proof -
  have t: "tables_ok prims encs svc (tab s) (ls @ ms)" using inv by (simp add: log_inv_def)
  have fence: "ms = []" if "r = None" "es \<noteq> []"
  proof (cases shared)
    case True
    have "gleaf_LeafIndex (gapp_Leaf (hd es)) = word_of_nat (length ls)"
      using ext that(2) by (cases es) (auto simp: entry_ok_def leaf_ok_def)
    then have "(word_of_nat (length ls) :: uint64) = word_of_nat (length (ls @ ms))"
      using commit_fence [OF True that(2)] c that(1) persisted_size_log_inv [OF inv] by simp
    moreover have "length ls < 2 ^ 64" "length (ls @ ms) < 2 ^ 64" using t by (auto simp: tables_ok_def)
    ultimately have "length ls = length (ls @ ms)" by (metis unat_word_of_nat_id)
    then show ?thesis by simp
  qed (use ms in simp)
  have e: "tab s' = tab s \<and> ok s'" if "r = Some e" for e
    using commit_error [OF okst t ext] ms c that by auto
  have n: "ok s' \<and> log_inv prims encs svc (tab s') (ls @ map gapp_Leaf es)" if "r = None" "es \<noteq> []"
  proof -
    have "tables_ok prims encs svc (tab s) ls" using t fence [OF that] by simp
    with commit_ok [OF okst this ext that(2)] stage_appends_ok [OF this ext that(2)] c that show ?thesis by simp
  qed
  show "ok s'"
    using e n c okst by (cases r; cases "es = []") (auto simp: commit_appends_def)
  show "log_inv prims encs svc (tab s') (ls @ ms)" if "r \<noteq> None"
    using e that inv by auto
  show "log_inv prims encs svc (tab s') (ls @ ms @ map gapp_Leaf es) \<and> (es = [] \<or> ms = [])" if "r = None"
    using n fence that c inv by (cases "es = []") (auto simp: commit_appends_def)
qed

lemma append_once_ok:
  assumes svc: "svc_ok svc" and inv: "log_inv prims encs svc (tab s) ls" and okst: "ok s" and clock: "\<And>i. clock i \<noteq> 0"
    and suites: "\<forall>root \<in> set roots. broot_CryptoSuite root = provider_Suite (svc_provider svc)"
    and others: "between = id \<or> shared \<and> log_grows prims encs svc tab ok between"
  obtains s' r ms where "appendBatchRootsOnce prims encs ctx svc st clock between s roots = Some (s', r)" "ok s'"
    "between = id \<longrightarrow> ms = []"
    "case r of Inl _ \<Rightarrow> log_inv prims encs svc (tab s') (ls @ ms)
     | Inr sths \<Rightarrow> \<exists>ls'. log_inv prims encs svc (tab s') ls' \<and> appended prims encs svc (ls @ ms) roots ls' sths"
proof -
  obtain state t where load: "loadState prims svc st clock s = Some (s, Inr (state, t))" and sok: "state_ok prims svc (hashes ls) state"
    using loadState_ok [OF inv okst] by blast
  show ?thesis
  proof (cases "plan_roots prims encs ctx svc st clock s state [] Map.empty [] t roots")
    case (Inl e)
    with load have "appendBatchRootsOnce prims encs ctx svc st clock between s roots = Some (s, Inl (False, e))"
      by (simp add: appendBatchRootsOnce_def)
    with that [of s "Inl (False, e)" "[]"] okst inv show ?thesis by simp
  next
    case (Inr p)
    then obtain es sths where p: "plan_roots prims encs ctx svc st clock s state [] Map.empty [] t roots = Inr (es, sths)"
      by (cases p) auto
    have plan: "plan_ok prims encs svc ls [] [] roots (es, sths)"
      using inv by (intro plan_roots_ok [OF svc _ okst clock p planning_start [OF sok] suites]) (simp add: log_inv_def)
    then have ext: "ext_ok prims encs svc ls es" by (simp add: plan_ok_def)
    obtain ms where b: "ok (between s)" "log_inv prims encs svc (tab (between s)) (ls @ ms)" "between = id \<longrightarrow> ms = []" "shared \<or> ms = []"
      using log_grows_step [OF others inv okst] by blast
    obtain s' r where c: "commit_appends st (between s) es = (s', r)" by (cases "commit_appends st (between s) es")
    note ext' = commit_extends [OF b(1,2) ext b(4) c]
    show ?thesis
    proof (cases r)
      case (Some e)
      with b ext' load p c that [of s' "Inl (CodeOf (Some e) = CodeFailedPrecondition, e)" ms] show ?thesis
        by (simp add: appendBatchRootsOnce_def)
    next
      case None
      then have "appended prims encs svc (ls @ ms) roots (ls @ ms @ map gapp_Leaf es) sths"
        using appended_plan [OF plan] ext'(3) by (auto simp: log_inv_def)
      with None b ext' load p c that [of s' "Inr sths" ms] show ?thesis
        by (auto simp: appendBatchRootsOnce_def)
    qed
  qed
qed

lemma append_loop_ok:
  assumes svc: "svc_ok svc" and clock: "\<And>i j. clock i j \<noteq> 0"
    and suites: "\<forall>root \<in> set roots. broot_CryptoSuite root = provider_Suite (svc_provider svc)"
    and others: "\<And>i. other i = id \<or> shared \<and> log_grows prims encs svc tab ok (other i)"
  shows "log_inv prims encs svc (tab s) ls \<Longrightarrow> ok s \<Longrightarrow>
    \<exists>s' r ms. append_loop prims encs ctx svc st clock cancelled other roots attempt s = Some (s', r) \<and> ok s' \<and>
      ((\<forall>i. other i = id) \<longrightarrow> ms = []) \<and>
      (case r of Inl _ \<Rightarrow> log_inv prims encs svc (tab s') (ls @ ms)
       | Inr sths \<Rightarrow> \<exists>ls'. log_inv prims encs svc (tab s') ls' \<and> appended prims encs svc (ls @ ms) roots ls' sths)"
proof (induction "16 - attempt" arbitrary: attempt s ls rule: less_induct)
  case less
  obtain s' r ms where once: "appendBatchRootsOnce prims encs ctx svc st (clock attempt) (other (2 * attempt)) s roots = Some (s', r)"
    and okst: "ok s'" and ms: "other (2 * attempt) = id \<longrightarrow> ms = []"
    and res: "case r of Inl _ \<Rightarrow> log_inv prims encs svc (tab s') (ls @ ms)
     | Inr sths \<Rightarrow> \<exists>ls'. log_inv prims encs svc (tab s') ls' \<and> appended prims encs svc (ls @ ms) roots ls' sths"
    by (rule append_once_ok [OF svc less.prems clock suites others])
  show ?case
  proof (cases "\<exists>e. r = Inl (True, e) \<and> attempt + 1 < 16 \<and> cancelled attempt = None")
    case True
    then obtain e where e: "r = Inl (True, e)" "attempt + 1 < 16" "cancelled attempt = None" by blast
    have "log_inv prims encs svc (tab s') (ls @ ms)" using res e(1) by simp
    from log_grows_step [OF others this okst]
    have "\<exists>ms'. log_inv prims encs svc (tab (other (2 * attempt + 1) s')) ((ls @ ms) @ ms') \<and> ok (other (2 * attempt + 1) s') \<and>
        (other (2 * attempt + 1) = id \<longrightarrow> ms' = [])" by blast
    then obtain ms' where next': "log_inv prims encs svc (tab (other (2 * attempt + 1) s')) ((ls @ ms) @ ms')"
      "ok (other (2 * attempt + 1) s')" "other (2 * attempt + 1) = id \<longrightarrow> ms' = []" by blast
    from e(2) have "16 - (attempt + 1) < 16 - attempt" by simp
    from less.hyps [OF this next'(1,2)] obtain s2 r2 ms2 where
      "append_loop prims encs ctx svc st clock cancelled other roots (attempt + 1) (other (2 * attempt + 1) s') = Some (s2, r2)"
      "ok s2" "(\<forall>i. other i = id) \<longrightarrow> ms2 = []"
      "case r2 of Inl _ \<Rightarrow> log_inv prims encs svc (tab s2) (((ls @ ms) @ ms') @ ms2)
       | Inr sths \<Rightarrow> \<exists>ls'. log_inv prims encs svc (tab s2) ls' \<and> appended prims encs svc (((ls @ ms) @ ms') @ ms2) roots ls' sths"
      by blast
    moreover have "append_loop prims encs ctx svc st clock cancelled other roots attempt s =
        append_loop prims encs ctx svc st clock cancelled other roots (attempt + 1) (other (2 * attempt + 1) s')"
      by (subst append_loop.simps) (use once e in simp)
    ultimately show ?thesis
      using ms next'(3) by (intro exI [of _ s2] exI [of _ r2] exI [of _ "ms @ ms' @ ms2"]) (simp split: sum.splits)
  next
    case False
    have "\<exists>r'. append_loop prims encs ctx svc st clock cancelled other roots attempt s = Some (s', r') \<and>
        (case r of Inl _ \<Rightarrow> \<exists>e. r' = Inl e | Inr sths \<Rightarrow> r' = Inr sths)"
    proof (cases r)
      case (Inl be)
      then obtain retryable e where "r = Inl (retryable, e)" by (cases be) auto
      with False once show ?thesis
        by (subst append_loop.simps) (cases "cancelled attempt"; auto)
    qed (subst append_loop.simps, use once in simp)
    then obtain r' where "append_loop prims encs ctx svc st clock cancelled other roots attempt s = Some (s', r')"
        "case r of Inl _ \<Rightarrow> \<exists>e. r' = Inl e | Inr sths \<Rightarrow> r' = Inr sths" by blast
    with okst ms res show ?thesis
      by (intro exI [of _ s'] exI [of _ r'] exI [of _ ms]) (auto split: sum.splits)
  qed
qed

lemma AppendBatchRoots_ok:
  assumes svc: "svc_ok svc" and clock: "\<And>i j. clock i j \<noteq> 0"
    and others: "\<And>i. other i = id \<or> shared \<and> log_grows prims encs svc tab ok (other i)"
    and inv: "log_inv prims encs svc (tab s) ls" "ok s"
  shows "\<exists>s' r ms. AppendBatchRoots prims encs ctx svc st clock cancelled other s roots = Some (s', r) \<and> ok s' \<and>
      ((\<forall>i. other i = id) \<longrightarrow> ms = []) \<and>
      (case r of Inl _ \<Rightarrow> log_inv prims encs svc (tab s') (ls @ ms)
       | Inr sths \<Rightarrow> \<exists>ls'. log_inv prims encs svc (tab s') ls' \<and> appended prims encs svc (ls @ ms) roots ls' sths)"
proof (cases "AppendBatchRoots prims encs ctx svc st clock cancelled other s roots = append_loop prims encs ctx svc st clock cancelled other roots 0 s
    \<and> (\<forall>root \<in> set roots. broot_CryptoSuite root = provider_Suite (svc_provider svc))")
  case True
  then show ?thesis using append_loop_ok [OF svc clock _ others inv] by presburger
next
  case False
  then obtain e where "AppendBatchRoots prims encs ctx svc st clock cancelled other s roots = Some (s, Inl e)"
    by (auto simp: AppendBatchRoots_def first_err_append_None first_err_None RequireSame_None split: option.splits)
  then show ?thesis using inv by auto
qed

corollary append_exclusive:
  assumes "svc_ok svc" "\<And>i j. clock i j \<noteq> 0" "log_inv prims encs svc (tab s) ls" "ok s"
  shows "\<exists>s' r. AppendBatchRoots prims encs ctx svc st clock cancelled (\<lambda>_. id) s roots = Some (s', r) \<and> ok s' \<and>
      (case r of Inl _ \<Rightarrow> log_inv prims encs svc (tab s') ls
       | Inr sths \<Rightarrow> \<exists>ls'. log_inv prims encs svc (tab s') ls' \<and> appended prims encs svc ls roots ls' sths)"
proof -
  have "\<exists>s' r ms. AppendBatchRoots prims encs ctx svc st clock cancelled (\<lambda>_. id) s roots = Some (s', r) \<and> ok s' \<and>
      ((\<forall>i :: nat. id = (id :: 's \<Rightarrow> 's)) \<longrightarrow> ms = []) \<and>
      (case r of Inl _ \<Rightarrow> log_inv prims encs svc (tab s') (ls @ ms)
       | Inr sths \<Rightarrow> \<exists>ls'. log_inv prims encs svc (tab s') ls' \<and> appended prims encs svc (ls @ ms) roots ls' sths)"
    by (rule AppendBatchRoots_ok [OF assms(1,2) _ assms(3,4)]) simp
  then show ?thesis by (elim exE conjE) (simp split: sum.splits)
qed

end

end
