(* ===== verification/Log_Backends.thy ===== *)
theory Log_Backends
  imports Log_Append
begin

text \<open>
  The stores keep the laws the global log relies on: Pebble and the file store for a single process,
  TiKV for several processes on one namespace.
\<close>

section \<open>Pebble and TiKV\<close>

lemmas kv_read_defs = pebble_log_store_def pb_GetGlobalLeaf_def pb_GetGlobalLeafByBatchID_def pb_GetGlobalLogNode_def
  pb_GetGlobalLogState_def pb_GetSignedTreeHead_def pb_LatestSignedTreeHead_def pb_ListGlobalLeavesRange_def
  kv_get_def canceled_def

lemma latest_idx_tbl:
  "(case idx_tbl (Suc 0) f (Suc n) of [] \<Rightarrow> None | e # es \<Rightarrow> Some (snd (last (e # es)))) = (if n = 0 then None else Some (f n))"
proof (cases n)
  case (Suc m)
  then have "idx_tbl (Suc 0) f (Suc n) \<noteq> []" "last (idx_tbl (Suc 0) f (Suc n)) = (word_of_nat n, f n)"
    using last_idx_tbl [of "Suc 0" "Suc n" f] by simp_all
  then show ?thesis using Suc by (cases "idx_tbl (Suc 0) f (Suc n)") auto
qed (simp add: idx_tbl_def)

lemma ext_ok_dated: "ext_ok prims encs svc ls es \<Longrightarrow> map (append_defaults now) es = es"
  by (induction es arbitrary: ls) (auto simp: entry_ok_def append_defaults_dated)

lemma kv_commit_cases:
  assumes "kv_commit f s = (s', r)"
  shows "kv_read_error s' = kv_read_error s" "kv_tables s' = (if r = None then f (kv_tables s) else kv_tables s)"
    "kv_binding s' = kv_binding s"
  using assms by (auto simp: kv_commit_def split: list.splits option.splits)

lemma wrap_write_eq: "wrap_write w p = (s, r) \<longleftrightarrow> (\<exists>r'. p = (s, r') \<and> r = map_option w r')"
  by (cases p) (auto simp: wrap_write_def)

lemma write_checked_eq:
  "write_checked c f s = (s', r) \<longleftrightarrow> (case c of None \<Rightarrow> f s = (s', r) | Some e \<Rightarrow> s' = s \<and> r = Some e)"
  by (auto simp: write_checked_def split: option.splits)

lemma pb_commit_cases:
  assumes "pb_CommitGlobalLogAppends ctx now s es = (s', r)"
  shows "kv_read_error s' = kv_read_error s"
    "kv_tables s' = (if r = None then stage_appends (map (append_defaults now) es) (kv_tables s) else kv_tables s)"
  using assms
  by (auto simp: pb_CommitGlobalLogAppends_def write_checked_eq wrap_write_eq split: option.splits dest: kv_commit_cases(1,2))

lemma fence_cases:
  assumes "commitWithGlobalLogFence conflict ctx f n s = (s', r)"
  shows "kv_read_error s' = kv_read_error s" "kv_tables s' = (if r = None then f (kv_tables s) else kv_tables s)"
    "r = None \<Longrightarrow> n = persisted_size (kv_tables s)"
  using assms
  by (auto simp: commitWithGlobalLogFence_def wrap_write_eq persisted_size_def Let_def
      split: option.splits if_splits dest: kv_commit_cases(1,2))

lemma tikv_commit_cases:
  assumes "tikv_CommitGlobalLogAppends conflict ctx now s es = (s', r)"
  shows "kv_read_error s' = kv_read_error s"
    "kv_tables s' = (if r = None then stage_appends (map (append_defaults now) es) (kv_tables s) else kv_tables s)"
    "r = None \<Longrightarrow> gleaf_LeafIndex (gapp_Leaf (es ! 0)) = persisted_size (kv_tables s)"
proof -
  have "(s' = s \<and> r \<noteq> None) \<or> (\<exists>r'. commitWithGlobalLogFence conflict ctx (stage_appends (map (append_defaults now) es))
      (gleaf_LeafIndex (gapp_Leaf (es ! 0))) s = (s', r') \<and> (r' = None \<longleftrightarrow> r = None))"
    using assms by (auto simp: tikv_CommitGlobalLogAppends_def write_checked_eq wrap_write_eq split: option.splits)
  then show "kv_read_error s' = kv_read_error s"
    "kv_tables s' = (if r = None then stage_appends (map (append_defaults now) es) (kv_tables s) else kv_tables s)"
    "r = None \<Longrightarrow> gleaf_LeafIndex (gapp_Leaf (es ! 0)) = persisted_size (kv_tables s)"
    using fence_cases by fastforce+
qed

interpretation pebble_log: log_commits "pebble_log_store None now" kv_tables "\<lambda>s. kv_read_error s = None" False for now
proof
  fix s :: kv_store and f :: "nat \<Rightarrow> SignedTreeHead" and n
  assume "kv_read_error s = None" "lt_sths (kv_tables s) = idx_tbl 1 f (Suc n)"
  then show "\<exists>s'. ls_LatestSignedTreeHead (pebble_log_store None now) s = (s', Inr (if n = 0 then None else Some (f n))) \<and>
      kv_tables s' = kv_tables s \<and> kv_read_error s' = None"
    using latest_idx_tbl [of f n] by (simp add: kv_read_defs check_simps)
next
  fix s s' and prims encs svc ls es
  assume "ext_ok prims encs svc ls es" "es \<noteq> []" "commit_appends (pebble_log_store None now) s es = (s', None)" "kv_read_error s = None"
  then show "kv_tables s' = stage_appends es (kv_tables s) \<and> kv_read_error s' = None"
    using pb_commit_cases [of None now s es] by (simp add: commit_appends_def pebble_log_store_def ext_ok_dated)
next
  fix s s' es e
  assume "commit_appends (pebble_log_store None now) s es = (s', Some e)" "kv_read_error s = None"
  then show "kv_tables s' = kv_tables s \<and> kv_read_error s' = None"
    using pb_commit_cases [of None now s es] by (simp add: commit_appends_def pebble_log_store_def split: if_splits)
qed (auto simp: kv_read_defs check_simps tscan_idx_tbl)

interpretation tikv_log: log_commits "tikv_log_store conflict None now" kv_tables "\<lambda>s. kv_read_error s = None" True for conflict now
proof
  fix s :: kv_store and f :: "nat \<Rightarrow> SignedTreeHead" and n
  assume *: "kv_read_error s = None" "lt_sths (kv_tables s) = idx_tbl 1 f (Suc n)" "n < 2 ^ 64"
    "\<forall>m. 0 < m \<and> m \<le> n \<longrightarrow> sth_TreeSize (f m) = word_of_nat m"
  show "\<exists>s'. ls_LatestSignedTreeHead (tikv_log_store conflict None now) s = (s', Inr (if n = 0 then None else Some (f n))) \<and>
      kv_tables s' = kv_tables s \<and> kv_read_error s' = None"
    using pebble_log.latest [OF *, of now] by (simp add: tikv_log_store_def)
next
  fix s s' and prims encs svc ls es
  assume "ext_ok prims encs svc ls es" "es \<noteq> []" "commit_appends (tikv_log_store conflict None now) s es = (s', None)" "kv_read_error s = None"
  then show "kv_tables s' = stage_appends es (kv_tables s) \<and> kv_read_error s' = None"
    using tikv_commit_cases [of conflict None now s es] by (simp add: commit_appends_def tikv_log_store_def ext_ok_dated)
next
  fix s s' es e
  assume "commit_appends (tikv_log_store conflict None now) s es = (s', Some e)" "kv_read_error s = None"
  then show "kv_tables s' = kv_tables s \<and> kv_read_error s' = None"
    using tikv_commit_cases [of conflict None now s es] by (simp add: commit_appends_def tikv_log_store_def split: if_splits)
next
  fix s s' es
  assume "es \<noteq> []" "commit_appends (tikv_log_store conflict None now) s es = (s', None)"
  then show "gleaf_LeafIndex (gapp_Leaf (hd es)) = persisted_size (kv_tables s)"
    using tikv_commit_cases [of conflict None now s es] by (simp add: commit_appends_def tikv_log_store_def hd_conv_nth)
qed (auto simp: tikv_log_store_def kv_read_defs check_simps tscan_idx_tbl)

section \<open>The file store\<close>

text \<open>
  The file store keeps the laws while its writes succeed; its reference to the latest tree head is
  missing or current.
\<close>

definition lf_ok :: "local_store \<Rightarrow> bool" where
  "lf_ok s \<longleftrightarrow> lf_open s \<and> lf_writes s = [] \<and>
     (case lf_latest s of None \<Rightarrow> True
      | Some k \<Rightarrow> lt_sths (lf_tables s) \<noteq> [] \<and> k = fst (last (lt_sths (lf_tables s))))"

lemma writeCBORAtomic_ok: "lf_writes s = [] \<Longrightarrow> writeCBORAtomic f s = (f s, None)"
  by (cases s) (simp add: writeCBORAtomic_def Let_def)

lemma leaf_run_idx_tbl:
  "n < 2 ^ 64 \<Longrightarrow> k \<le> n \<Longrightarrow> leaf_run (tget (idx_tbl 0 g n)) (word_of_nat k) room = take room (map g [k..<n])"
proof (induction room arbitrary: k)
  case (Suc room)
  show ?case
  proof (cases "k < n")
    case True
    then have "leaf_run (tget (idx_tbl 0 g n)) (word_of_nat (Suc k)) room = take room (map g [Suc k..<n])"
      using Suc.IH [of "Suc k"] Suc.prems by simp
    moreover have "(word_of_nat k :: uint64) + 1 = word_of_nat (Suc k)" by simp
    moreover have "tget (idx_tbl 0 g n) (word_of_nat k) = Some (g k)"
      using True Suc.prems by (simp add: tget_idx_tbl unat_word_of_nat_id)
    ultimately show ?thesis
      using True by (simp add: upt_conv_Cons del: of_nat_Suc)
  qed (use Suc.prems in \<open>simp add: tget_idx_tbl unat_word_of_nat_id\<close>)
qed simp

lemma history_idx_tbl:
  assumes "lt_sths (lf_tables s) = idx_tbl (Suc 0) f (Suc n)" "n < 2 ^ 64"
    "\<forall>m. 0 < m \<and> m \<le> n \<longrightarrow> sth_TreeSize (f m) = word_of_nat m"
  shows "latestSignedTreeHeadFromHistory None s = Inr (if n = 0 then None else Some (word_of_nat n, f n))"
proof (cases n)
  case (Suc m)
  have "idx_tbl (Suc 0) f (Suc n) \<noteq> []" "last (idx_tbl (Suc 0) f (Suc n)) = (word_of_nat n, f n)"
    using last_idx_tbl [of "Suc 0" "Suc n" f] Suc by simp_all
  moreover have "(word_of_nat n :: uint64) \<noteq> 0" using Suc assms(2) by (simp only: word_unat_eq_iff unat_word_of_nat_id) simp
  ultimately show ?thesis
    using assms(1,3) Suc
    by (cases "idx_tbl (Suc 0) f (Suc n)") (auto simp: latestSignedTreeHeadFromHistory_def canceled_def check_simps simp del: of_nat_Suc)
qed (use assms(1) in \<open>simp add: latestSignedTreeHeadFromHistory_def canceled_def check_simps idx_tbl_def\<close>)

lemma lf_latest_ok:
  assumes ok: "lf_ok s" and t: "lt_sths (lf_tables s) = idx_tbl (Suc 0) f (Suc n)" "n < 2 ^ 64"
    "\<forall>m. 0 < m \<and> m \<le> n \<longrightarrow> sth_TreeSize (f m) = word_of_nat m"
  obtains s' where "lf_LatestSignedTreeHead None s = (s', Inr (if n = 0 then None else Some (f n)))"
    "lf_tables s' = lf_tables s" "lf_ok s'"
proof (cases "lf_latest s")
  case None
  then have "lf_LatestSignedTreeHead None s = (if n = 0 then (s, Inr None) else (s\<lparr>lf_latest := Some (word_of_nat n)\<rparr>, Inr (Some (f n))))"
    using ok history_idx_tbl [OF t]
    by (simp add: lf_LatestSignedTreeHead_def rebuildLatestSignedTreeHeadReference_def readLatestSignedTreeHeadReference_def
        write_latest_def wrap_write_def writeCBORAtomic_ok lf_ok_def beginOperation_def canceled_def check_simps)
  with that ok t(1) last_idx_tbl [of "Suc 0" "Suc n" f] show ?thesis
    by (cases "n = 0") (auto simp: lf_ok_def)
next
  case (Some k)
  then have n: "n \<noteq> 0" "k = word_of_nat n"
    using ok t(1) last_idx_tbl [of "Suc 0" "Suc n" f] by (cases n; simp add: lf_ok_def idx_tbl_def)+
  have k: "unat k = n" "k \<noteq> 0" using n t(2) by (auto simp: unat_word_of_nat_id word_unat_eq_iff)
  have "tget (lt_sths (lf_tables s)) k = Some (f n)" using t(1,2) n k(1) by (simp add: tget_idx_tbl)
  moreover have "tget (lt_sths (lf_tables s)) w = None" if "\<not> w \<le> k" for w
    using that k t(1,2) by (simp add: tget_idx_tbl word_le_nat_alt)
  moreover have "sth_TreeSize (f n) = k" using t(3) n by simp
  moreover have "w \<noteq> 0" if "\<not> w \<le> k" for w using that by auto
  ultimately have "lf_LatestSignedTreeHead None s = (s, Inr (Some (f n)))"
    using Some ok k(2)
    by (auto simp: lf_LatestSignedTreeHead_def readLatestSignedTreeHeadReference_def getSignedTreeHead_def getGlobalLogState_def
        lf_ok_def beginOperation_def canceled_def check_simps split: option.splits)
  with that ok n show ?thesis by auto
qed

text \<open>A commit writes leaf, nodes, state and tree head in turn.\<close>

lemma requireSuite_mono:
  assumes "requireSuite b v = None" "\<not> empty_reference v" "set (bound_suites w) \<subseteq> set (bound_suites v)"
  shows "requireSuite b w = None"
  using assms by (auto simp: requireSuite_def check_simps)

lemma lf_update_state [simp]:
  "lf_writes (lf_update f s) = lf_writes s" "lf_binding (lf_update f s) = lf_binding s" "lf_open (lf_update f s) = lf_open s"
  "lf_tables (lf_update f s) = f (lf_tables s)" "lf_latest (lf_update f s) = lf_latest s"
  by (simp_all add: lf_update_def)

lemma lf_update_twice: "lf_update f (lf_update g s) = lf_update (\<lambda>t. f (g t)) s"
  by (simp add: lf_update_def)

lemma putGlobalLogNodes_ok:
  assumes "lf_writes s = []" "\<forall>nd \<in> set nds. requireSuite (lf_binding s) (SB_GlobalLogNode nd) = None \<and> gnode_Width nd \<noteq> 0"
    "map (node_defaults now) nds = nds"
  shows "putGlobalLogNodes None now nds s = (lf_update (fold set_node nds) s, None)"
  using assms
proof (induction nds arbitrary: s)
  case Nil
  then show ?case by (simp add: lf_update_def)
next
  case (Cons nd nds)
  then have "putGlobalLogNode None now nd s = (lf_update (set_node nd) s, None)"
    by (simp add: putGlobalLogNode_def write_checked_def wrap_write_def canceled_def writeCBORAtomic_ok)
  with Cons show ?case by (simp add: seq_err_def lf_update_twice comp_def)
qed

lemma promote_ok:
  assumes t: "lf_writes s = []" "lt_sths (lf_tables s) = idx_tbl (Suc 0) f (Suc (Suc n))" "Suc n < 2 ^ 64"
      "\<forall>m. 0 < m \<and> m \<le> Suc n \<longrightarrow> sth_TreeSize (f m) = word_of_nat m"
    and latest: "lf_latest s = None \<or> 0 < n \<and> lf_latest s = Some (word_of_nat n)"
  shows "promoteLatestSignedTreeHeadReferenceLocked None (word_of_nat (Suc n)) s =
    (s\<lparr>lf_latest := Some (word_of_nat (Suc n))\<rparr>, None)"
proof (cases "lf_latest s")
  case None
  have "latestSignedTreeHeadFromHistory None s = Inr (Some (word_of_nat (Suc n), f (Suc n)))"
    using history_idx_tbl [OF t(2-4)] by simp
  moreover have "sth_TreeSize (f (Suc n)) = word_of_nat (Suc n)" using t(4) by simp
  ultimately show ?thesis
    using None t(1)
    by (simp add: promoteLatestSignedTreeHeadReferenceLocked_def readLatestSignedTreeHeadReference_def write_checked_def
        write_latest_def wrap_write_def writeCBORAtomic_ok canceled_def del: of_nat_Suc)
next
  case (Some k)
  with latest have n: "0 < n" "k = word_of_nat n" by auto
  have "unat k = n" "unat (word_of_nat (Suc n) :: uint64) = Suc n"
    using n t(3) by (simp_all only: unat_word_of_nat_id)
  then have "k \<noteq> 0" "\<not> word_of_nat (Suc n) \<le> k"
    using n(1) by (auto simp: word_le_nat_alt simp del: of_nat_Suc)
  then show ?thesis
    using Some t(1)
    by (simp add: promoteLatestSignedTreeHeadReferenceLocked_def readLatestSignedTreeHeadReference_def write_checked_def
        write_latest_def wrap_write_def writeCBORAtomic_ok canceled_def del: of_nat_Suc)
qed

lemma node_width_nonzero: "node_ok h hs nd \<Longrightarrow> gnode_Width nd \<noteq> 0"
proof -
  assume "node_ok h hs nd"
  then obtain l where "l < 64" "gnode_Width nd = push_bit l 1" by (auto simp: node_ok_def)
  with unat_push_bit_1 [of l] have "unat (gnode_Width nd) = 2 ^ l" by (simp del: push_bit_of_1)
  then show ?thesis by (auto simp: word_unat_eq_iff)
qed

lemma append_error_entry_ok:
  assumes e: "entry_ok prims encs svc ls e"
  shows "append_error e = None"
proof -
  have size: "Suc (length ls) < 2 ^ 64" using e by (simp add: entry_ok_def)
  have "sth_TreeSize (gapp_STH e) = word_of_nat (Suc (length ls))" "gleaf_LeafIndex (gapp_Leaf e) = word_of_nat (length ls)"
    "gstate_TreeSize (gapp_State e) = word_of_nat (Suc (length ls))" "gleaf_BatchID (gapp_Leaf e) \<noteq> ''''"
    using e by (auto simp: entry_ok_def sth_ok_def leaf_ok_def state_ok_def)
  moreover have "(word_of_nat (Suc (length ls)) :: uint64) \<noteq> 0"
    using size by (simp only: word_unat_eq_iff unat_word_of_nat_id) simp
  moreover have "\<forall>nd \<in> set (gapp_Nodes e). gnode_Width nd \<noteq> 0"
    using e by (auto simp: entry_ok_def list_all_iff dest: node_width_nonzero)
  ultimately show ?thesis by (auto simp: append_error_def check_simps)
qed

lemma lf_commit_ok:
  assumes ok: "lf_ok s" and t: "tables_ok prims encs svc (lf_tables s) ls" and e: "entry_ok prims encs svc ls e"
    and suite: "requireSuite (lf_binding s) (SB_GlobalLogAppend e) = None"
  shows "lf_CommitGlobalLogAppend None now s e =
    ((lf_update (\<lambda>t. set_state (gapp_State e) (stage_append e t)) s)\<lparr>lf_latest := Some (word_of_nat (Suc (length ls)))\<rparr>, None)"
proof -
  have w: "lf_writes s = []" "lf_open s" using ok by (auto simp: lf_ok_def)
  have d: "dated e" and leaf: "gleaf_BatchID (gapp_Leaf e) \<noteq> ''''"
    and sth: "sth_TreeSize (gapp_STH e) = word_of_nat (Suc (length ls))" and size: "Suc (length ls) < 2 ^ 64"
    using e by (auto simp: entry_ok_def leaf_ok_def sth_ok_def)
  have defs: "leaf_defaults now (gapp_Leaf e) = gapp_Leaf e" "map (node_defaults now) (gapp_Nodes e) = gapp_Nodes e"
      "state_defaults now (gapp_State e) = gapp_State e" "sth_defaults now (gapp_STH e) = gapp_STH e"
    using append_defaults_dated [OF d, of now] by (cases e; simp add: append_defaults_def)+
  have nz: "(word_of_nat (Suc (length ls)) :: uint64) \<noteq> 0"
    using size by (simp only: word_unat_eq_iff unat_word_of_nat_id) simp
  note mono = requireSuite_mono [OF suite]
  have s: "requireSuite (lf_binding s) (SB_GlobalLogLeaf (gapp_Leaf e)) = None"
      "requireSuite (lf_binding s) (SB_GlobalLogState (gapp_State e)) = None"
      "requireSuite (lf_binding s) (SB_SignedTreeHead (gapp_STH e)) = None"
      "\<forall>nd \<in> set (gapp_Nodes e). requireSuite (lf_binding s) (SB_GlobalLogNode nd) = None \<and> gnode_Width nd \<noteq> 0"
    using e by (auto intro!: mono simp: entry_ok_def list_all_iff dest: node_width_nonzero)
  define s1 where "s1 = lf_update (\<lambda>t. set_state (gapp_State e) (stage_append e t)) s"
  obtain f where f: "lt_sths (stage_append e (lf_tables s)) = idx_tbl 1 f (Suc (Suc (length ls)))"
      "\<forall>m. 0 < m \<and> m \<le> Suc (length ls) \<longrightarrow> sth_TreeSize (f m) = word_of_nat m"
    using stage_append_ok [OF t e] by (auto simp: tables_ok_def sth_ok_def)
  obtain g where g: "lt_sths (lf_tables s) = idx_tbl (Suc 0) g (Suc (length ls))" using t by (auto simp: tables_ok_def)
  have latest: "lf_latest s = None \<or> 0 < length ls \<and> lf_latest s = Some (word_of_nat (length ls))"
    using ok g last_idx_tbl [of "Suc 0" "Suc (length ls)" g]
    by (cases "length ls = 0") (auto simp: lf_ok_def split: option.splits)
  have "promoteLatestSignedTreeHeadReferenceLocked None (word_of_nat (Suc (length ls))) s1 =
      (s1\<lparr>lf_latest := Some (word_of_nat (Suc (length ls)))\<rparr>, None)"
    using f w size latest by (intro promote_ok) (auto simp: s1_def set_state_def)
  moreover have "lf_update (set_sth (gapp_STH e)) (lf_update (set_state (gapp_State e)) (lf_update (fold set_node (gapp_Nodes e))
      (lf_update (set_batch (gapp_Leaf e)) (lf_update (set_leaf (gapp_Leaf e)) s)))) = s1"
    by (simp add: s1_def lf_update_twice stage_append_def) (simp add: lf_update_def set_sth_def set_state_def)
  ultimately have sth': "putSignedTreeHead None now (gapp_STH e) (lf_update (set_state (gapp_State e))
      (lf_update (fold set_node (gapp_Nodes e)) (lf_update (set_batch (gapp_Leaf e)) (lf_update (set_leaf (gapp_Leaf e)) s)))) =
      (s1\<lparr>lf_latest := Some (word_of_nat (Suc (length ls)))\<rparr>, None)"
    using w s defs sth nz
    by (simp add: putSignedTreeHead_def write_checked_def seq_err_def wrap_write_def canceled_def writeCBORAtomic_ok del: of_nat_Suc)
  have leaf': "putGlobalLeaf None now (gapp_Leaf e) s =
      (lf_update (set_batch (gapp_Leaf e)) (lf_update (set_leaf (gapp_Leaf e)) s), None)"
    using w s defs leaf
    by (simp add: putGlobalLeaf_def Let_def write_checked_def seq_err_def wrap_write_def canceled_def writeCBORAtomic_ok)
  have state': "putGlobalLogState None now (gapp_State e) u = (lf_update (set_state (gapp_State e)) u, None)"
    if "lf_writes u = []" "lf_binding u = lf_binding s" for u
    using that s defs by (simp add: putGlobalLogState_def write_checked_def wrap_write_def canceled_def writeCBORAtomic_ok)
  show ?thesis
    using w s defs sth' leaf' state' append_error_entry_ok [OF e] suite
    by (simp add: lf_CommitGlobalLogAppend_def write_checked_def seq_err_def beginOperation_def canceled_def s1_def
        putGlobalLogNodes_ok del: of_nat_Suc)
qed

lemma lf_commit_suite:
  "requireSuite (lf_binding s) (SB_GlobalLogAppend e) = Some x \<Longrightarrow> lf_open s \<Longrightarrow> lf_CommitGlobalLogAppend None now s e = (s, Some x)"
  by (simp add: lf_CommitGlobalLogAppend_def write_checked_def beginOperation_def canceled_def first_err_Cons)

lemma entry_suites: "entry_ok prims encs svc ls e \<Longrightarrow> set (bound_suites (SB_GlobalLogAppend e)) = {provider_Suite (svc_provider svc)}"
  by (auto simp: entry_ok_def leaf_ok_def sth_ok_def state_ok_def list_all_iff)

lemma fold_set_node_state: "fold set_node nds (set_state x t) = set_state x (fold set_node nds t)"
proof -
  have "set_node nd (set_state x u) = set_state x (set_node nd u)" for nd u by (simp add: set_node_def set_state_def)
  then show ?thesis by (induction nds arbitrary: t) simp_all
qed

lemma stage_append_state: "stage_append e (set_state x t) = set_state x (stage_append e t)"
proof -
  have "set_leaf l (set_state x u) = set_state x (set_leaf l u)" "set_batch l (set_state x u) = set_state x (set_batch l u)"
    "set_sth h (set_state x u) = set_state x (set_sth h u)" for l h u
    by (simp_all add: set_leaf_def set_batch_def set_sth_def set_state_def)
  then show ?thesis by (simp add: stage_append_def fold_set_node_state)
qed

lemma stage_appends_state: "stage_appends es (set_state x t) = stage_appends es t"
proof -
  have "fold stage_append es (set_state x t) = set_state x (fold stage_append es t)"
    by (induction es arbitrary: t) (simp_all add: stage_append_state)
  then show ?thesis by (simp add: stage_appends_def set_state_def)
qed

lemma lf_commit_each_ok:
  assumes "lf_ok s" "tables_ok prims encs svc (lf_tables s) ls" "ext_ok prims encs svc ls es"
    "\<forall>e \<in> set es. requireSuite (lf_binding s) (SB_GlobalLogAppend e) = None"
  shows "\<exists>s'. commit_each (local_log_store None now) s es = (s', None) \<and> lf_ok s' \<and>
    lf_tables s' = (if es = [] then lf_tables s else stage_appends es (lf_tables s))"
  using assms
proof (induction es arbitrary: s ls)
  case (Cons e es)
  define s1 where "s1 = (lf_update (\<lambda>t. set_state (gapp_State e) (stage_append e t)) s)\<lparr>lf_latest := Some (word_of_nat (Suc (length ls)))\<rparr>"
  have c: "ls_CommitGlobalLogAppend (local_log_store None now) s e = (s1, None)"
    unfolding s1_def using Cons.prems by (simp add: local_log_store_def lf_commit_ok del: of_nat_Suc)
  have t1: "tables_ok prims encs svc (lf_tables s1) (ls @ [gapp_Leaf e])"
    using stage_append_ok [of prims encs svc "lf_tables s" ls e] Cons.prems(2,3)
    by (simp add: s1_def)
  then obtain f where f: "lt_sths (lf_tables s1) = idx_tbl (Suc 0) f (Suc (Suc (length ls)))" by (auto simp: tables_ok_def)
  then have ok1: "lf_ok s1"
    using Cons.prems(1) last_idx_tbl [of "Suc 0" "Suc (Suc (length ls))" f]
    by (simp add: lf_ok_def del: of_nat_Suc) (simp add: s1_def del: of_nat_Suc)
  have "\<forall>e \<in> set es. requireSuite (lf_binding s1) (SB_GlobalLogAppend e) = None" using Cons.prems(4) by (simp add: s1_def)
  then obtain s' where "commit_each (local_log_store None now) s1 es = (s', None)" "lf_ok s'"
    "lf_tables s' = (if es = [] then lf_tables s1 else stage_appends es (lf_tables s1))"
    using Cons.IH [OF ok1 t1] Cons.prems(3) by auto
  moreover have "stage_appends es (lf_tables s1) = stage_appends es (stage_append e (lf_tables s))"
    by (simp add: s1_def stage_appends_state)
  ultimately show ?case
    using c by (intro exI [of _ s']) (auto simp: s1_def stage_appends_def)
qed simp

lemma lf_commit_outcome:
  assumes s: "lf_ok s" "tables_ok prims encs svc (lf_tables s) ls" and ext: "ext_ok prims encs svc ls es"
    and c: "commit_each (local_log_store None now) s es = (s', r)"
  shows "lf_ok s' \<and> lf_tables s' = (if es = [] \<or> r \<noteq> None then lf_tables s else stage_appends es (lf_tables s))"
proof (cases "\<forall>e \<in> set es. requireSuite (lf_binding s) (SB_GlobalLogAppend e) = None")
  case True
  obtain u where "commit_each (local_log_store None now) s es = (u, None)" "lf_ok u"
    "lf_tables u = (if es = [] then lf_tables s else stage_appends es (lf_tables s))"
    using lf_commit_each_ok [OF s ext True] by blast
  with c show ?thesis by auto
next
  case False
  then obtain e es' where es: "es = e # es'" by (cases es) auto
  have suites: "set (bound_suites (SB_GlobalLogAppend x)) = {provider_Suite (svc_provider svc)}" if "x \<in> set es" for x
    using ext that by (induction es arbitrary: ls) (auto simp del: bound_suites.simps dest: entry_suites)
  have "requireSuite (lf_binding s) (SB_GlobalLogAppend e) \<noteq> None"
  proof
    assume "requireSuite (lf_binding s) (SB_GlobalLogAppend e) = None"
    then have "requireSuite (lf_binding s) (SB_GlobalLogAppend x) = None" if "x \<in> set es" for x
      by (rule requireSuite_mono) (use suites [of x] suites [of e] that es in \<open>simp_all del: bound_suites.simps\<close>)
    with False show False by blast
  qed
  then show ?thesis
    using c es s(1) lf_commit_suite [of s e] by (auto simp: local_log_store_def lf_ok_def)
qed

interpretation local_log: log_commits "local_log_store None now" lf_tables lf_ok False for now
proof
  fix s and f :: "nat \<Rightarrow> SignedTreeHead" and n
  assume "lf_ok s" "lt_sths (lf_tables s) = idx_tbl 1 f (Suc n)" "n < 2 ^ 64"
    "\<forall>m. 0 < m \<and> m \<le> n \<longrightarrow> sth_TreeSize (f m) = word_of_nat m"
  then show "\<exists>s'. ls_LatestSignedTreeHead (local_log_store None now) s = (s', Inr (if n = 0 then None else Some (f n))) \<and>
      lf_tables s' = lf_tables s \<and> lf_ok s'"
    by (rule lf_latest_ok [of s f n, unfolded One_nat_def [symmetric]]) (auto simp: local_log_store_def)
next
  fix s s' and prims encs svc ls es
  assume *: "lf_ok s" "tables_ok prims encs svc (lf_tables s) ls" "ext_ok prims encs svc ls es" "es \<noteq> []"
    "commit_appends (local_log_store None now) s es = (s', None)"
  then show "lf_tables s' = stage_appends es (lf_tables s) \<and> lf_ok s'"
    using lf_commit_outcome [OF *(1,2,3)] by (simp add: commit_appends_def local_log_store_def)
next
  fix s s' and prims encs svc ls ls' es e
  assume *: "lf_ok s" "tables_ok prims encs svc (lf_tables s) ls'" "ext_ok prims encs svc ls es" "False \<or> ls' = ls"
    "commit_appends (local_log_store None now) s es = (s', Some e)"
  then show "lf_tables s' = lf_tables s \<and> lf_ok s'"
    using lf_commit_outcome [of s prims encs svc ls es] by (simp add: commit_appends_def local_log_store_def split: if_splits)
next
  fix s and g :: "nat \<Rightarrow> GlobalLogLeaf" and n k :: nat and limit :: int
  assume *: "lf_ok s" "lt_leaves (lf_tables s) = idx_tbl 0 g n" "n < 2 ^ 64" "k \<le> n" "0 < limit"
  show "ls_ListGlobalLeavesRange (local_log_store None now) s (word_of_nat k) limit = Inr (take (nat limit) (map g [k..<n]))"
    using *(1,2,5) leaf_run_idx_tbl [OF *(3,4)]
    by (simp add: local_log_store_def lf_ListGlobalLeavesRange_def lf_ok_def beginOperation_def canceled_def)
qed (simp_all add: local_log_store_def lf_ok_def getGlobalLeaf_def lf_GetGlobalLeafByBatchID_def lf_GetGlobalLogNode_def
    getGlobalLogState_def getSignedTreeHead_def beginOperation_def canceled_def check_simps)

end
