(* ===== verification/Log_Properties.thy ===== *)
theory Log_Properties
  imports Log_Backends Claims
begin

text \<open>
  What the global log promises, over the stores it runs on. The witnesses use a service on the
  sample keys and a store that starts empty.
\<close>

section \<open>A sample service\<close>

definition sample_log :: log_service where
  "sample_log = \<lparr>svc_nodeID = ''n'', svc_logID = ''l'', svc_signer = Some sample_signer, svc_provider = intlV1Provider,
     svc_profile = defaultProfile, svc_anchorKey = None\<rparr>"

definition sample_log_options :: log_options where
  "sample_log_options = \<lparr>lopt_NodeID = ''n'', lopt_LogID = ''l'', lopt_Signer = Some sample_signer,
     lopt_CryptoProvider = Some intlV1Provider, lopt_AnchorSinkName = ''''\<rparr>"

definition sample_kv :: kv_store where
  "sample_kv = \<lparr>kv_binding = \<lparr>mark_SchemaVersion = MarkerSchema, mark_StorageSchema = StorageSchemaV5,
       mark_FormatGeneration = FormatGeneration, mark_CryptoSuite = INTLV1, mark_NodeID = ''n'', mark_LogID = ''l'',
       mark_NamespaceID = ''ns''\<rparr>,
     kv_tables = empty_tables, kv_commits = [], kv_read_error = None\<rparr>"

definition sample_root :: BatchRoot where
  "sample_root = \<lparr>broot_SchemaVersion = SchemaBatchRoot, broot_CryptoSuite = INTLV1, broot_BatchID = ''b'',
     broot_NodeID = ''n'', broot_LogID = ''l'', broot_BatchRoot = replicate 32 0, broot_TreeSize = 1,
     broot_ClosedAtUnixN = 1\<rparr>"

lemma sample_log_New: "New_service sample_prims True sample_log_options = Inr sample_log"
proof -
  have "ValidateSignerWithProvider sample_prims None (Some intlV1Provider) (Some sample_signer) = None" by code_simp
  moreover have "TrimSpace ''n'' = ''n''" "TrimSpace ''l'' = ''l''" "TrimSpace '''' = ''''" by code_simp+
  moreover have "ProfileForSuite INTLV1 = Inr defaultProfile" by code_simp
  ultimately show ?thesis
    by (simp add: New_service_def sample_log_options_def sample_log_def)
qed

lemmas sample_log_ok = New_service_ok [OF sample_log_New]

section \<open>Appending\<close>

text \<open>
  C3. On Pebble, appending batch roots refines extending a list. Whatever the roots, the signer and
  the storage engine do, the call returns; the store then holds a log with the same leaves and, when
  the call succeeds, one new leaf for every batch that was not in it; every root is answered with the
  tree head that first contains its leaf.
\<close>

theorem pebble_append_refines:
  assumes "New_service prims True opts = Inr svc" and "\<forall>i j. clock i j \<noteq> 0"
    and "log_inv prims encs svc (kv_tables s) ls" "kv_read_error s = None"
  shows "\<exists>s' r. AppendBatchRoots prims encs ctx svc (pebble_log_store None now) clock cancelled (\<lambda>_. id) s roots = Some (s', r) \<and>
    (case r of Inl _ \<Rightarrow> log_inv prims encs svc (kv_tables s') ls
     | Inr sths \<Rightarrow> \<exists>ls'. log_inv prims encs svc (kv_tables s') ls' \<and> appended prims encs svc ls roots ls' sths)"
  using pebble_log.append_exclusive [OF New_service_ok [OF assms(1)] _ assms(3,4), where clock = clock] assms(2) by blast

theorem pebble_append_refines_witness:
  "\<exists>s' r. AppendBatchRoots sample_prims sample_encoders None sample_log (pebble_log_store None 1) (\<lambda>_ _. 1) (\<lambda>_. None) (\<lambda>_. id)
      sample_kv [sample_root] = Some (s', r) \<and>
    (case r of Inl _ \<Rightarrow> log_inv sample_prims sample_encoders sample_log (kv_tables s') []
     | Inr sths \<Rightarrow> \<exists>ls'. log_inv sample_prims sample_encoders sample_log (kv_tables s') ls' \<and>
         appended sample_prims sample_encoders sample_log [] [sample_root] ls' sths)"
  by (rule pebble_append_refines [OF sample_log_New]) (simp_all add: sample_kv_def log_inv_empty)

section \<open>Several writers on one TiKV namespace\<close>

text \<open>
  The states of a namespace, newest first, and the answers given so far. Every step is an append by
  some process: it read the log in an earlier state \<open>s0\<close> and commits its plan now. Reading a state
  of the history writes nothing.
\<close>

inductive tikv_history ::
  "crypto_prims \<Rightarrow> encoders \<Rightarrow> log_service \<Rightarrow> (go_error \<Rightarrow> bool) \<Rightarrow> kv_store list \<Rightarrow> (BatchRoot \<times> SignedTreeHead) list \<Rightarrow> bool"
  for prims encs svc conflict where
  start: "kv_tables s = empty_tables \<Longrightarrow> kv_read_error s = None \<Longrightarrow> tikv_history prims encs svc conflict [s] []"
| append: "tikv_history prims encs svc conflict (s # h) acks \<Longrightarrow> s0 \<in> set (s # h) \<Longrightarrow> \<forall>i. clock i \<noteq> 0 \<Longrightarrow>
    \<forall>root \<in> set roots. broot_CryptoSuite root = provider_Suite (svc_provider svc) \<Longrightarrow>
    loadState prims svc (tikv_log_store conflict None now) clock s0 = Some (s0, Inr (state, t)) \<Longrightarrow>
    plan_roots prims encs ctx svc (tikv_log_store conflict None now) clock s0 state [] Map.empty [] t roots = Inr (es, sths) \<Longrightarrow>
    commit_appends (tikv_log_store conflict None now) s es = (s', r) \<Longrightarrow>
    tikv_history prims encs svc conflict (s' # s # h) (if r = None then zip roots sths @ acks else acks)"

inductive_cases tikv_history_ConsE: "tikv_history prims encs svc conflict (s # h) acks"




lemma sample_append:
  "case AppendBatchRoots sample_prims sample_encoders None sample_log (pebble_log_store None 1) (\<lambda>_ _. 1) (\<lambda>_. None) (\<lambda>_. id)
      sample_kv [sample_root] of Some (s', Inr sths) \<Rightarrow> True | _ \<Rightarrow> False"
  by code_simp





section \<open>Proofs from the log\<close>

text \<open>
  C5. Every inclusion proof the log gives is accepted: for a leaf of the log and any tree that
  contains it, the proof names that leaf at its index, verifies against the root of its tree head, and
  the tree head carries a valid signature of the log's key.
\<close>

theorem inclusion_proofs_verify:
  assumes svc: "New_service prims True opts = Inr svc" "svc_signer svc = Some sg"
      "signer_correct prims (svc_provider svc) sg pk" "pkd_Suite pk = provider_Suite (svc_provider svc)"
    and log: "log_inv prims encs svc (kv_tables s) ls" "kv_read_error s = None"
    and i: "i < n" "n \<le> length ls" "n \<le> 2 ^ 62"
  shows "\<exists>pf. snd (InclusionProof prims svc (pebble_log_store None now) s (gleaf_BatchID (ls ! i)) (word_of_nat n)) = Inr pf \<and>
    gproof_BatchID pf = gleaf_BatchID (ls ! i) \<and> gproof_LeafIndex pf = word_of_nat i \<and> gproof_LeafHash pf = gleaf_LeafHash (ls ! i) \<and>
    gproof_TreeSize pf = word_of_nat n \<and>
    VerifyInclusionForSuite prims (provider_Suite (svc_provider svc)) pf = Some (Inr True) \<and>
    VerifySTHWithProvider prims encs None (gproof_STH pf) pk (Some (svc_provider svc)) = None"
proof -
  note ok = New_service_ok [OF svc(1)]
  have t: "tables_ok prims encs svc (kv_tables s) ls" using log(1) by (simp add: log_inv_def)
  then obtain s' pf where "InclusionProof prims svc (pebble_log_store None now) s (gleaf_BatchID (ls ! i)) (word_of_nat n) = (s', Inr pf)"
    and pf: "proof_for prims encs svc ls i n pf"
    using pebble_log.inclusion_ok [OF ok t log(2), of i n "word_of_nat n" now] i by auto
  moreover have "VerifyInclusionForSuite prims (provider_Suite (svc_provider svc)) pf = Some (Inr True)"
    using t i by (intro proof_for_verifies [OF ok pf]) (auto simp: tables_ok_def)
  moreover have "VerifySTHWithProvider prims encs None (gproof_STH pf) pk (Some (svc_provider svc)) = None"
    using pf by (intro sth_ok_verifies [OF _ ok svc(2-4)]) (auto simp: proof_for_def)
  ultimately show ?thesis using pf by (simp add: proof_for_def)
qed

definition sample_kv1 :: kv_store where
  "sample_kv1 = fst (the (AppendBatchRoots sample_prims sample_encoders None sample_log (pebble_log_store None 1) (\<lambda>_ _. 1)
     (\<lambda>_. None) (\<lambda>_. id) sample_kv [sample_root]))"

lemma sample_kv_simps: "kv_tables sample_kv = empty_tables" "kv_read_error sample_kv = None"
  by (simp_all add: sample_kv_def)

lemma sample_kv1_log:
  obtains leaf where "log_inv sample_prims sample_encoders sample_log (kv_tables sample_kv1) [leaf]" "kv_read_error sample_kv1 = None"
    "gleaf_BatchID leaf = ''b''"
proof -
  obtain s' r where a: "AppendBatchRoots sample_prims sample_encoders None sample_log (pebble_log_store None 1) (\<lambda>_ _. 1) (\<lambda>_. None)
      (\<lambda>_. id) sample_kv [sample_root] = Some (s', r)" "kv_read_error s' = None"
    "case r of Inl _ \<Rightarrow> log_inv sample_prims sample_encoders sample_log (kv_tables s') [] | Inr sths \<Rightarrow> \<exists>ls'. log_inv sample_prims sample_encoders sample_log (kv_tables s') ls' \<and>
       appended sample_prims sample_encoders sample_log [] [sample_root] ls' sths"
    using pebble_log.append_exclusive [OF sample_log_ok, of "\<lambda>_ _. 1" sample_prims sample_encoders sample_kv "[]" None 1 "\<lambda>_. None" "[sample_root]"]
    unfolding sample_kv_simps using log_inv_empty one_neq_zero [where 'a = int] by blast
  with sample_append obtain sths where "r = Inr sths" by (auto split: sum.splits)
  with a(3) obtain ls' where ls': "log_inv sample_prims sample_encoders sample_log (kv_tables s') ls'"
    "distinct (map gleaf_BatchID ls')" "gleaf_BatchID ` set ls' = {''b''}"
    by (auto simp: appended_def sample_root_def)
  then have "length ls' = 1" by (metis distinct_card length_map list.set_map card_1_singleton_iff One_nat_def)
  then obtain leaf where "ls' = [leaf]" by (cases ls') auto
  with that [of leaf] ls' a(1,2) show ?thesis by (simp add: sample_kv1_def)
qed

theorem inclusion_proofs_verify_witness:
  "\<exists>pf. snd (InclusionProof sample_prims sample_log (pebble_log_store None 1) sample_kv1 ''b'' 1) = Inr pf \<and>
    gproof_BatchID pf = ''b'' \<and> gproof_LeafIndex pf = 0 \<and> gproof_TreeSize pf = 1 \<and>
    VerifyInclusionForSuite sample_prims INTLV1 pf = Some (Inr True) \<and>
    VerifySTHWithProvider sample_prims sample_encoders None (gproof_STH pf) sample_pk (Some intlV1Provider) = None"
proof -
  obtain leaf where l: "log_inv sample_prims sample_encoders sample_log (kv_tables sample_kv1) [leaf]" "kv_read_error sample_kv1 = None"
    "gleaf_BatchID leaf = ''b''" by (rule sample_kv1_log)
  have "svc_signer sample_log = Some sample_signer" "svc_provider sample_log = intlV1Provider" "pkd_Suite sample_pk = INTLV1"
    by (simp_all add: sample_log_def sample_pk_def)
  with inclusion_proofs_verify [OF sample_log_New _ _ _ l(1,2), of sample_signer sample_pk 0 1 1] sample_signer_correct l(3)
  show ?thesis by auto
qed






section \<open>A torn append of the file store\<close>





end
