(* ===== verification/Evidence_Chain.thy ===== *)
theory Evidence_Chain
  imports Local_Engine Log_Properties
begin

text \<open>
  The chain of evidence from end to end: what the engine accepts and commits, and what the global
  log proves, the offline verifier accepts; and what two accepted bundles with one record
  identifier have in common.
\<close>

section \<open>From the engine to the verifier\<close>

text \<open>
  The engine accepted \<open>scl\<close> at some log position and time, with \<open>pk\<close> the client key it
  resolved, and answered with the record and the receipt.
\<close>

definition accepted_by ::
  "crypto_prims \<Rightarrow> encoders \<Rightarrow> LocalEngine \<Rightarrow> PublicKeyDescriptor \<Rightarrow> SignedClaim \<Rightarrow> ServerRecord \<Rightarrow> AcceptedReceipt \<Rightarrow> bool" where
  "accepted_by prims encs e pk scl record accepted \<longleftrightarrow>
     (\<exists>ctx ctx' t pos verified keyStatus claimHash sigHash.
        resolveClientKey prims e scl t = Inr (pk, keyStatus) \<and>
        validateSigned prims encs e ctx scl t = Inr (verified, keyStatus, claimHash, sigHash) \<and>
        buildAccepted prims encs e ctx' scl verified keyStatus claimHash sigHash pos t = Inr (record, accepted))"

lemma VerifyWithProvider_live:
  "VerifyWithProvider prims encs ctx scl pk provider = Inr v \<Longrightarrow> VerifyWithProvider prims encs None scl pk provider = Inr v"
  by (cases ctx) (auto simp: VerifyWithProvider_def Verify_sig_def check_simps split: if_splits)

lemma serverSigner_Inr:
  "serverSigner e = Inr sg \<Longrightarrow> eng_ServerSigner e = Some sg"
  by (auto simp: serverSigner_def check_simps)

lemma publicKey_fallback [simp]: "pkd_Bytes k = [] \<Longrightarrow> publicKeyOrFallback k fb = fb"
  by (simp add: publicKeyOrFallback_def)

text \<open>The keys a verifier trusts for a client and a server with one key.\<close>

definition keys_for :: "LocalEngine \<Rightarrow> PublicKeyDescriptor \<Rightarrow> PublicKeyDescriptor \<Rightarrow> TrustedKeys \<Rightarrow> bool" where
  "keys_for e client server keys \<longleftrightarrow>
     keys_CryptoProvider keys = eng_CryptoProvider e \<and> keys_ClientPublicKey keys = client \<and> keys_ServerPublicKey keys = server \<and>
     pkd_Bytes (keys_AcceptedReceiptPublicKey keys) = [] \<and> pkd_Bytes (keys_CommittedReceiptPublicKey keys) = [] \<and>
     pkd_Bytes (keys_SignedTreeHeadPublicKey keys) = []"

lemma keys_for_provider:
  "keys_for e client server keys \<Longrightarrow>
   (case keys_CryptoProvider keys of None \<Rightarrow> DefaultProvider | Some p \<Rightarrow> p) = cryptoProvider e"
  by (simp add: keys_for_def cryptoProvider_def)

definition server_key_ok :: "crypto_prims \<Rightarrow> LocalEngine \<Rightarrow> PublicKeyDescriptor \<Rightarrow> bool" where
  "server_key_ok prims e server \<longleftrightarrow>
     pkd_Suite server = provider_Suite (cryptoProvider e) \<and>
     (\<forall>sg. eng_ServerSigner e = Some sg \<longrightarrow> signer_correct prims (cryptoProvider e) sg server)"

text \<open>What acceptance gives the verifier.\<close>

lemma accepted_by_facts:
  assumes a: "accepted_by prims encs e pk scl record accepted" and k: "server_key_ok prims e server"
    and suite: "Lookup (provider_Suite (cryptoProvider e)) = Some suite"
  obtains verified where
    "VerifyWithProvider prims encs None scl pk (Some (cryptoProvider e)) = Inr verified"
    "rec_RecordID record = ver_RecordID verified" "acc_RecordID accepted = ver_RecordID verified"
    "rec_TenantID record = claim_TenantID (signed_Claim scl)" "rec_ClientID record = claim_ClientID (signed_Claim scl)"
    "rec_KeyID record = claim_KeyID (signed_Claim scl)"
    "HashBytesWithProvider prims (Some (cryptoProvider e)) (hash_Algorithm (suite_ClaimHash suite)) (ver_ClaimCBOR verified) =
       Inr (rec_ClaimHash record)"
    "HashBytesWithProvider prims (Some (cryptoProvider e)) (hash_Algorithm (suite_SignatureHash suite))
       (sig_Signature (signed_Signature scl)) = Inr (rec_ClientSignatureHash record)"
    "acc_ReceivedAtUnixN accepted = rec_ReceivedAtUnixN record" "acc_WAL accepted = rec_WAL record"
    "acc_ServerID accepted = eng_ServerID e"
    "VerifyAcceptedWithProvider prims encs None accepted server (Some (cryptoProvider e)) = None"
proof -
  obtain ctx ctx' t pos verified ks ch sh where
    v: "resolveClientKey prims e scl t = Inr (pk, ks)" "validateSigned prims encs e ctx scl t = Inr (verified, ks, ch, sh)"
    and b: "buildAccepted prims encs e ctx' scl verified ks ch sh pos t = Inr (record, accepted)"
    using a by (auto simp: accepted_by_def)
  let ?p = "cryptoProvider e"
  let ?unsigned = "\<lparr>acc_SchemaVersion = SchemaAcceptedReceipt, acc_CryptoSuite = provider_Suite ?p,
    acc_RecordID = ver_RecordID verified, acc_Status = ''accepted'', acc_ServerID = eng_ServerID e,
    acc_ReceivedAtUnixN = t, acc_WAL = pos, acc_ServerSig = zero_Signature\<rparr>"
  have r: "RequireAvailable (provider_Suite ?p) = Inr suite" using suite by (simp add: RequireAvailable_Inr)
  have verified: "VerifyWithProvider prims encs ctx scl pk (Some ?p) = Inr verified"
    and hash: "HashBytesWithProvider prims (Some ?p) (hash_Algorithm (suite_ClaimHash suite)) (ver_ClaimCBOR verified) = Inr ch"
      "HashBytesWithProvider prims (Some ?p) (hash_Algorithm (suite_SignatureHash suite)) (sig_Signature (signed_Signature scl)) = Inr sh"
    using v unfolding validateSigned_def Let_def r by (auto simp: check_simps)
  obtain sg where sg: "serverSigner e = Inr sg"
    and sign: "SignAcceptedWithProvider prims encs ctx' (Some ?p) ?unsigned (Some sg) = Inr accepted"
    and rec: "record = server_record e scl verified ks ch sh pos t"
    using b by (auto simp: buildAccepted_def Let_def check_simps server_record_def)
  have same: "accepted\<lparr>acc_ServerSig := zero_Signature\<rparr> = ?unsigned"
    using SignAccepted_content [OF sign] by simp
  have fields: "acc_RecordID accepted = ver_RecordID verified" "acc_ReceivedAtUnixN accepted = t" "acc_WAL accepted = pos"
    "acc_ServerID accepted = eng_ServerID e"
    using arg_cong [OF same, of acc_RecordID] arg_cong [OF same, of acc_ReceivedAtUnixN] arg_cong [OF same, of acc_WAL]
      arg_cong [OF same, of acc_ServerID] by simp_all
  have "VerifyAcceptedWithProvider prims encs None accepted server (Some ?p) = None"
    using k serverSigner_Inr [OF sg] SignAccepted_wellformed [OF sign]
    by (intro accepted.sign_then_verify [OF sign]) (auto simp: server_key_ok_def)
  with that [of verified] VerifyWithProvider_live [OF verified] hash fields rec show ?thesis
    by (simp add: server_record_def)
qed

section \<open>What a computed batch holds\<close>

lemma first_results_Inr:
  "first_results rs = Inr vs \<Longrightarrow> length vs = length rs \<and> (\<forall>i < length rs. rs ! i = Inr (vs ! i))"
proof (induction rs arbitrary: vs)
  case (Cons r rs)
  then obtain v vs' where "r = Inr v" "first_results rs = Inr vs'" "vs = v # vs'" by (auto simp: bind_res_Inr)
  with Cons.IH [of vs'] show ?case by (auto simp: less_Suc_eq_0_disj)
qed simp

lemma build_leaves_Inr:
  "build_leaves prims enc profile sid records = Inr leaves \<Longrightarrow>
   length leaves = length records \<and>
   (\<forall>i < length records. Require sid (SB_ServerRecord (records ! i)) = None \<and>
      hashLeafArray prims enc profile (records ! i) = Inr (leaves ! i))"
proof (induction records arbitrary: leaves)
  case (Cons r rs)
  then obtain l ls where "Require sid (SB_ServerRecord r) = None" "hashLeafArray prims enc profile r = Inr l"
    "build_leaves prims enc profile sid rs = Inr ls" "leaves = l # ls"
    by (auto simp: checked_Inr bind_res_Inr map_err_Inr)
  with Cons.IH [of ls] show ?case by (auto simp: less_Suc_eq_0_disj)
qed simp

definition assembled ::
  "LocalEngine \<Rightarrow> Suite \<Rightarrow> nat \<Rightarrow> nat \<Rightarrow> bytes list \<Rightarrow> SignedClaim \<Rightarrow> ServerRecord \<Rightarrow> AcceptedReceipt \<Rightarrow> CommittedReceipt \<Rightarrow> ProofBundle" where
  "assembled e suite n i path scl record accepted committed =
     \<lparr>bundle_SchemaVersion = SchemaProofBundle, bundle_CryptoSuite = suite_ID suite,
      bundle_RecordID = rec_RecordID record, bundle_NodeID = eng_ServerID e, bundle_LogID = eng_LogID e,
      bundle_SignedClaim = scl, bundle_ServerRecord = record, bundle_AcceptedReceipt = accepted,
      bundle_CommittedReceipt = committed,
      bundle_BatchProof = \<lparr>bproof_TreeAlg = merkle_Algorithm (suite_Merkle suite), bproof_LeafIndex = word_of_nat i,
        bproof_TreeSize = word_of_nat n, bproof_AuditPath = path\<rparr>\<rparr>"

text \<open>
  The parts of a materialised batch: the leaf hashes, and for every index the leaf hash, the audit
  path and the signed receipt that the bundle carries.
\<close>

definition batch_parts ::
  "crypto_prims \<Rightarrow> encoders \<Rightarrow> LocalEngine \<Rightarrow> Suite \<Rightarrow> Profile \<Rightarrow> bytes list \<Rightarrow> SignedClaim list \<Rightarrow> ServerRecord list \<Rightarrow>
   AcceptedReceipt list \<Rightarrow> BatchRoot \<Rightarrow> ProofBundle list \<Rightarrow> bool" where
  "batch_parts prims encs e suite profile leaves signs records accepted root bundles \<longleftrightarrow>
     broot_CryptoSuite root = suite_ID suite \<and> broot_NodeID root = eng_ServerID e \<and> broot_LogID root = eng_LogID e \<and>
     broot_BatchRoot root = mth (hashNode prims profile) leaves \<and> broot_TreeSize root = word_of_nat (length records) \<and>
     ProfileForAlgorithm (suite_ID suite) (merkle_Algorithm (suite_Merkle suite)) = Inr profile \<and>
     length bundles = length records \<and> length leaves = length records \<and>
     (\<forall>i < length records.
        (\<forall>s \<in> {signed_CryptoSuite (signs ! i), claim_CryptoSuite (signed_Claim (signs ! i)), rec_CryptoSuite (records ! i),
           acc_CryptoSuite (accepted ! i)}. s = suite_ID suite) \<and>
        HashLeafForSuite prims (cbor_ServerRecord encs) (suite_ID suite) (merkle_Algorithm (suite_Merkle suite)) (records ! i) =
          Inr (leaves ! i) \<and> length (leaves ! i) = 32 \<and>
        (\<exists>signer committed. eng_ServerSigner e = Some signer \<and>
           (\<exists>ctx unsigned. SignCommittedWithProvider prims encs ctx (Some (cryptoProvider e)) unsigned (Some signer) = Inr committed) \<and>
           com_RecordID committed = rec_RecordID (records ! i) \<and> com_LeafIndex committed = word_of_nat i \<and>
           com_LeafHash committed = leaves ! i \<and> com_BatchRoot committed = mth (hashNode prims profile) leaves \<and>
           com_NodeID committed = eng_ServerID e \<and> com_LogID committed = eng_LogID e \<and>
           com_CryptoSuite committed = suite_ID suite \<and>
           com_BatchID committed = broot_BatchID root \<and> com_ClosedAtUnixN committed = broot_ClosedAtUnixN root \<and>
           bundles ! i = assembled e suite (length records) i (audit_path (hashNode prims profile) leaves i) (signs ! i) (records ! i)
             (accepted ! i) committed))"

lemma length_hashLeafArray: "hashLeafArray prims enc profile r = Inr l \<Longrightarrow> length l = 32"
  by (auto simp: hashLeafArray_def split: prod.splits option.splits)

lemma batch_bundle_Inr:
  assumes b: "batch_bundle prims encs e ctx suite signer (buildFromLeafHashes prims profile leaves) batchID closedAt n i scl record accepted = Inr bundle"
    and i: "i < length leaves"
  obtains committed unsigned where
    "SignCommittedWithProvider prims encs ctx (Some (cryptoProvider e)) unsigned (Some signer) = Inr committed"
    "com_RecordID committed = rec_RecordID record" "com_LeafIndex committed = word_of_nat i" "com_LeafHash committed = leaves ! i"
    "com_BatchRoot committed = mth (hashNode prims profile) leaves" "com_NodeID committed = eng_ServerID e"
    "com_LogID committed = eng_LogID e" "com_CryptoSuite committed = suite_ID suite"
    "com_BatchID committed = batchID" "com_ClosedAtUnixN committed = closedAt"
    "bundle = assembled e suite n i (audit_path (hashNode prims profile) leaves i) scl record accepted committed"
proof -
  let ?tree = "buildFromLeafHashes prims profile leaves"
  have ok: "tree_ok prims ?tree" using i by (intro buildFromLeafHashes_ok) auto
  have root: "tree_root ?tree = mth (hashNode prims profile) leaves" using ok by (simp add: tree_ok_def)
  have path: "ProofView ?tree (int i) = Inr (audit_path (hashNode prims profile) leaves i)"
    using auditPath_ok [OF ok, of i] i by (simp add: ProofView_Proof Proof_def)
  have leaf: "LeafHashView ?tree (int i) = Inr (leaves ! i)" using i by (simp add: LeafHashView_def)
  obtain committed where sign: "SignCommittedWithProvider prims encs ctx (Some (cryptoProvider e))
       \<lparr>com_SchemaVersion = SchemaCommittedReceipt, com_CryptoSuite = suite_ID suite, com_RecordID = rec_RecordID record,
        com_Status = ''committed'', com_BatchID = batchID, com_LeafIndex = word_of_nat i, com_LeafHash = leaves ! i,
        com_BatchRoot = mth (hashNode prims profile) leaves, com_ClosedAtUnixN = closedAt, com_NodeID = eng_ServerID e,
        com_LogID = eng_LogID e, com_ServerSig = zero_Signature\<rparr> (Some signer) = Inr committed"
    and bdl: "bundle = assembled e suite n i (audit_path (hashNode prims profile) leaves i) scl record accepted committed"
    using b unfolding batch_bundle_def leaf path root assembled_def by (auto simp: checked_Inr bind_res_Inr)
  note same = SignCommitted_content [OF sign]
  have "com_RecordID committed = rec_RecordID record" "com_LeafIndex committed = word_of_nat i" "com_LeafHash committed = leaves ! i"
    "com_BatchRoot committed = mth (hashNode prims profile) leaves" "com_NodeID committed = eng_ServerID e"
    "com_LogID committed = eng_LogID e" "com_CryptoSuite committed = suite_ID suite"
    "com_BatchID committed = batchID" "com_ClosedAtUnixN committed = closedAt"
    using arg_cong [OF same, of com_RecordID] arg_cong [OF same, of com_LeafIndex] arg_cong [OF same, of com_LeafHash]
      arg_cong [OF same, of com_BatchRoot] arg_cong [OF same, of com_NodeID] arg_cong [OF same, of com_LogID]
      arg_cong [OF same, of com_CryptoSuite] arg_cong [OF same, of com_BatchID] arg_cong [OF same, of com_ClosedAtUnixN] by simp_all
  with that [OF sign] bdl show ?thesis by simp
qed

lemma HashLeafForSuite_Inr:
  "ProfileForAlgorithm sid alg = Inr profile \<Longrightarrow> Require sid (SB_ServerRecord r) = None \<Longrightarrow>
   hashLeafArray prims enc profile r = Inr l \<Longrightarrow> HashLeafForSuite prims enc sid alg r = Inr l"
  by (simp add: HashLeafForSuite_def)

lemma ComputeBatch_parts:
  assumes c: "ComputeBatch prims encs e now ctx batchID closedAt signs records accepted opts = Inr commit"
    and m: "bopt_Mode opts = BatchComputeMaterialized"
    and suite: "Lookup (provider_Suite (cryptoProvider e)) = Some suite"
  obtains profile leaves where
    "batch_parts prims encs e suite profile leaves signs records accepted (bcommit_Root commit) (bcommit_Bundles commit)"
    "records \<noteq> []" "length signs = length records" "length accepted = length records"
proof -
  have r: "RequireAvailable (provider_Suite (cryptoProvider e)) = Inr suite" using suite by (simp add: RequireAvailable_Inr)
  have sizes: "records \<noteq> []" "length signs = length records" "length accepted = length records"
    using c by (auto simp: ComputeBatch_def checked_Inr err_if_None)
  have same: "s = suite_ID suite" if "i < length records"
      "s \<in> {signed_CryptoSuite (signs ! i), claim_CryptoSuite (signed_Claim (signs ! i)), rec_CryptoSuite (records ! i), acc_CryptoSuite (accepted ! i)}" for i s
  proof -
    have "\<forall>i \<in> set [0..<length records]. RequireSame (suite_ID suite) [signed_CryptoSuite (signs ! i),
        claim_CryptoSuite (signed_Claim (signs ! i)), rec_CryptoSuite (records ! i), acc_CryptoSuite (accepted ! i)] = None"
      using c unfolding ComputeBatch_def r checked_Inr bind_res_simps first_err_map_None map_option_None by blast
    with that show ?thesis by (auto simp: RequireSame_None)
  qed
  define closed where "closed = (case closedAt of None \<Rightarrow> now | Some t \<Rightarrow> t)"
  obtain tree signer where tree: "BuildForSuite prims (cbor_ServerRecord encs) (suite_ID suite) (merkle_Algorithm (suite_Merkle suite)) records = Inr tree"
    and signer: "serverSigner e = Inr signer"
    and bundles: "first_results (map (\<lambda>i. batch_bundle prims encs e ctx suite signer tree batchID closed (length records) i
            (signs ! i) (records ! i) (accepted ! i)) [0..<length records]) = Inr (bcommit_Bundles commit)"
    and root: "bcommit_Root commit = \<lparr>broot_SchemaVersion = SchemaBatchRoot, broot_CryptoSuite = suite_ID suite, broot_BatchID = batchID,
             broot_NodeID = eng_ServerID e, broot_LogID = eng_LogID e, broot_BatchRoot = tree_root tree,
             broot_TreeSize = word_of_nat (length records), broot_ClosedAtUnixN = closed\<rparr>"
    using c unfolding ComputeBatch_def r checked_Inr bind_res_simps bind_res_Inr Let_def closed_def by (auto simp: m bind_res_Inr)
  obtain profile leaves where profile: "ProfileForAlgorithm (suite_ID suite) (merkle_Algorithm (suite_Merkle suite)) = Inr profile"
    and leaves: "build_leaves prims (cbor_ServerRecord encs) profile (suite_ID suite) records = Inr leaves"
    and t: "tree = buildFromLeafHashes prims profile leaves"
    using tree by (auto simp: BuildForSuite_def bind_res_Inr split: if_splits)
  note l = build_leaves_Inr [OF leaves]
  note b = first_results_Inr [OF bundles]
  have ne: "leaves \<noteq> []" using l sizes(1) by force
  have troot: "tree_root tree = mth (hashNode prims profile) leaves"
    using buildFromLeafHashes_ok [of leaves prims profile] ne by (simp add: t tree_ok_def)
  have item: "\<exists>signer committed. eng_ServerSigner e = Some signer \<and>
      (\<exists>ctx unsigned. SignCommittedWithProvider prims encs ctx (Some (cryptoProvider e)) unsigned (Some signer) = Inr committed) \<and>
      com_RecordID committed = rec_RecordID (records ! i) \<and> com_LeafIndex committed = word_of_nat i \<and>
      com_LeafHash committed = leaves ! i \<and> com_BatchRoot committed = mth (hashNode prims profile) leaves \<and>
      com_NodeID committed = eng_ServerID e \<and> com_LogID committed = eng_LogID e \<and> com_CryptoSuite committed = suite_ID suite \<and>
      com_BatchID committed = batchID \<and> com_ClosedAtUnixN committed = closed \<and>
      bcommit_Bundles commit ! i = assembled e suite (length records) i (audit_path (hashNode prims profile) leaves i) (signs ! i) (records ! i)
             (accepted ! i) committed" if "i < length records" for i
  proof -
    have "batch_bundle prims encs e ctx suite signer (buildFromLeafHashes prims profile leaves) batchID closed (length records) i
            (signs ! i) (records ! i) (accepted ! i) = Inr (bcommit_Bundles commit ! i)" "i < length leaves"
      using b that l by (auto simp: t)
    then obtain committed unsigned where "SignCommittedWithProvider prims encs ctx (Some (cryptoProvider e)) unsigned (Some signer) = Inr committed"
      "com_RecordID committed = rec_RecordID (records ! i)" "com_LeafIndex committed = word_of_nat i" "com_LeafHash committed = leaves ! i"
      "com_BatchRoot committed = mth (hashNode prims profile) leaves" "com_NodeID committed = eng_ServerID e"
      "com_LogID committed = eng_LogID e" "com_CryptoSuite committed = suite_ID suite"
      "com_BatchID committed = batchID" "com_ClosedAtUnixN committed = closed"
      "bcommit_Bundles commit ! i = assembled e suite (length records) i (audit_path (hashNode prims profile) leaves i) (signs ! i)
         (records ! i) (accepted ! i) committed"
      by (rule batch_bundle_Inr)
    with serverSigner_Inr [OF signer] show ?thesis by (intro exI [of _ signer] exI [of _ committed]) auto
  qed
  have "batch_parts prims encs e suite profile leaves signs records accepted (bcommit_Root commit) (bcommit_Bundles commit)"
    unfolding batch_parts_def
    using profile b l item same troot HashLeafForSuite_Inr [OF profile] length_hashLeafArray by (auto simp: root)
  then show ?thesis using sizes by (rule that)
qed

section \<open>Committed records verify\<close>

lemma audit_path_verifies:
  assumes p: "ProfileForAlgorithm sid alg = Inr profile" and leaves: "\<forall>i < length leaves. length (leaves ! i) = 32"
    and i: "i < length leaves" "length leaves \<le> 2 ^ 62"
  shows "VerifyForSuite prims sid alg (leaves ! i) (word_of_nat i) (word_of_nat (length leaves))
    (audit_path (hashNode prims profile) leaves i) (mth (hashNode prims profile) leaves) = Some (Inr True)"
proof -
  have d: "list_all (\<lambda>b. length b = 32) leaves" using leaves by (simp add: list_all_length)
  have u: "unat (word_of_nat i :: uint64) = i" using i by (simp add: unat_of_nat)
  have "replay (hashNode prims profile) (leaves ! i) i (length leaves) (audit_path (hashNode prims profile) leaves i) =
      Some (mth (hashNode prims profile) leaves, [])"
    using replay_audit_path [OF i(1), of "hashNode prims profile" "[]"] by simp
  moreover have "length (mth (hashNode prims profile) leaves) = 32" using mth_length [of "hashNode prims profile" leaves] i d by fastforce
  moreover have "list_all (\<lambda>b. length b = 32) (audit_path (hashNode prims profile) leaves i)"
    using audit_path_sizes [of "hashNode prims profile" leaves] i d by simp
  ultimately show ?thesis using i leaves by (simp add: VerifyForSuite_length [OF p i(2)] u)
qed

lemma committed_evidence:
  assumes suite: "Lookup (provider_Suite (cryptoProvider e)) = Some suite"
    and parts: "batch_parts prims encs e suite profile leaves signs records accepted root bundles"
    and i: "i < length records" "length records \<le> 2 ^ 62"
    and acc: "accepted_by prims encs e client (signs ! i) (records ! i) (accepted ! i)"
    and keys: "keys_for e client server keys" "server_key_ok prims e server"
    and raw: "HashReaderWithProvider prims (Some (cryptoProvider e)) (content_HashAlg (claim_Content (signed_Claim (signs ! i)))) raw =
      Inr (content_ContentHash (claim_Content (signed_Claim (signs ! i))), content_ContentLength (claim_Content (signed_Claim (signs ! i))))"
  obtains verified where "batch_evidence prims encs (cryptoProvider e) raw (bundles ! i) keys suite verified"
    "ver_RecordID verified = rec_RecordID (records ! i)"
proof -
  obtain signer committed ctx unsigned where
    signer: "eng_ServerSigner e = Some signer"
    and sign: "SignCommittedWithProvider prims encs ctx (Some (cryptoProvider e)) unsigned (Some signer) = Inr committed"
    and com: "com_RecordID committed = rec_RecordID (records ! i)" "com_LeafIndex committed = word_of_nat i"
      "com_LeafHash committed = leaves ! i" "com_BatchRoot committed = mth (hashNode prims profile) leaves"
      "com_NodeID committed = eng_ServerID e" "com_LogID committed = eng_LogID e" "com_CryptoSuite committed = suite_ID suite"
    and bdl: "bundles ! i = assembled e suite (length records) i (audit_path (hashNode prims profile) leaves i) (signs ! i) (records ! i)
      (accepted ! i) committed"
    using parts i(1) unfolding batch_parts_def by blast
  have leaves: "length leaves = length records" "\<forall>i < length leaves. length (leaves ! i) = 32"
    and profile: "ProfileForAlgorithm (suite_ID suite) (merkle_Algorithm (suite_Merkle suite)) = Inr profile"
    and leaf: "HashLeafForSuite prims (cbor_ServerRecord encs) (suite_ID suite) (merkle_Algorithm (suite_Merkle suite)) (records ! i) = Inr (leaves ! i)"
    and suites: "signed_CryptoSuite (signs ! i) = suite_ID suite" "claim_CryptoSuite (signed_Claim (signs ! i)) = suite_ID suite"
      "rec_CryptoSuite (records ! i) = suite_ID suite" "acc_CryptoSuite (accepted ! i) = suite_ID suite"
    using parts i(1) unfolding batch_parts_def by auto
  obtain verified where v:
    "VerifyWithProvider prims encs None (signs ! i) client (Some (cryptoProvider e)) = Inr verified"
    "rec_RecordID (records ! i) = ver_RecordID verified" "acc_RecordID (accepted ! i) = ver_RecordID verified"
    "rec_TenantID (records ! i) = claim_TenantID (signed_Claim (signs ! i))" "rec_ClientID (records ! i) = claim_ClientID (signed_Claim (signs ! i))"
    "rec_KeyID (records ! i) = claim_KeyID (signed_Claim (signs ! i))"
    "HashBytesWithProvider prims (Some (cryptoProvider e)) (hash_Algorithm (suite_ClaimHash suite)) (ver_ClaimCBOR verified) =
       Inr (rec_ClaimHash (records ! i))"
    "HashBytesWithProvider prims (Some (cryptoProvider e)) (hash_Algorithm (suite_SignatureHash suite))
       (sig_Signature (signed_Signature (signs ! i))) = Inr (rec_ClientSignatureHash (records ! i))"
    "acc_ReceivedAtUnixN (accepted ! i) = rec_ReceivedAtUnixN (records ! i)" "acc_WAL (accepted ! i) = rec_WAL (records ! i)"
    "acc_ServerID (accepted ! i) = eng_ServerID e"
    "VerifyAcceptedWithProvider prims encs None (accepted ! i) server (Some (cryptoProvider e)) = None"
    by (rule accepted_by_facts [OF acc keys(2) suite])
  have word: "(word_of_nat i :: uint64) < word_of_nat (length records)" "(word_of_nat (length records) :: uint64) \<noteq> 0"
    using i by (auto simp: word_less_nat_alt unat_of_nat word_unat_eq_iff)
  have gate: "\<forall>s \<in> set (bound_suites (SB_ProofBundle (bundles ! i))). s = suite_ID suite"
    unfolding bdl assembled_def by (simp add: suites com(7)) blast
  have bound: "bundle_bound prims (cryptoProvider e) suite (bundles ! i) verified"
    unfolding bundle_bound_def Let_def using v com word gate by (simp add: bdl assembled_def del: bound_suites.simps)
  have "VerifyCommittedWithProvider prims encs None committed server (Some (cryptoProvider e)) = None"
    using keys(2) signer SignCommitted_wellformed [OF sign]
    by (intro committed.sign_then_verify [OF sign]) (auto simp: server_key_ok_def)
  moreover have "VerifyForSuite prims (suite_ID suite) (merkle_Algorithm (suite_Merkle suite)) (leaves ! i) (word_of_nat i) (word_of_nat (length records))
      (audit_path (hashNode prims profile) leaves i) (mth (hashNode prims profile) leaves) = Some (Inr True)"
    using audit_path_verifies [OF profile leaves(2), of i prims] i leaves(1) by simp
  ultimately have "batch_evidence prims encs (cryptoProvider e) raw (bundles ! i) keys suite verified"
    using v bound raw leaf com keys(1) by (simp add: batch_evidence_def bdl assembled_def keys_for_def)
  with v(2) that show ?thesis by simp
qed

text \<open>
  C7. Everything the engine commits can be verified offline: when the engine accepted the claims of
  a batch and committed the batch, the bundle of every record verifies at level L3 against the
  original content, with the client's key and the server's key as the only trusted keys.
\<close>

theorem committed_bundles_verify:
  assumes "ComputeBatch prims encs e now ctx batchID closedAt signs records accepted opts = Inr commit"
    and "bopt_Mode opts = BatchComputeMaterialized" and "i < length records" "length records \<le> 2 ^ 62"
    and "accepted_by prims encs e client (signs ! i) (records ! i) (accepted ! i)"
    and "keys_for e client server keys" "server_key_ok prims e server"
    and "HashReaderWithProvider prims (Some (cryptoProvider e)) (content_HashAlg (claim_Content (signed_Claim (signs ! i)))) raw =
      Inr (content_ContentHash (claim_Content (signed_Claim (signs ! i))), content_ContentLength (claim_Content (signed_Claim (signs ! i))))"
  shows "verify_ProofBundle prims encs hs json_decode raw (bcommit_Bundles commit ! i) keys [] =
    run_res (Inr \<lparr>result_Valid = True, result_RecordID = rec_RecordID (records ! i), result_ProofLevel = L3,
      result_AnchorSink = '''', result_AnchorID = ''''\<rparr>)"
proof -
  obtain suite where suite: "Lookup (provider_Suite (cryptoProvider e)) = Some suite" using provider_suite_known by blast
  obtain profile leaves where parts:
    "batch_parts prims encs e suite profile leaves signs records accepted (bcommit_Root commit) (bcommit_Bundles commit)"
    by (rule ComputeBatch_parts [OF assms(1,2) suite])
  obtain verified where "batch_evidence prims encs (cryptoProvider e) raw (bcommit_Bundles commit ! i) keys suite verified"
    "ver_RecordID verified = rec_RecordID (records ! i)"
    by (rule committed_evidence [OF suite parts assms(3-8)])
  then show ?thesis
    using keys_for_provider [OF assms(6)]
    by (subst verify_ProofBundle_Inr [OF _ suite refl]) (auto simp: asked_level_def zero_options_def)
qed

section \<open>Logged batches verify\<close>

text \<open>The proof of a leaf that records the batch of the bundle.\<close>

definition leaf_for :: "ProofBundle \<Rightarrow> GlobalLogLeaf \<Rightarrow> bool" where
  "leaf_for bundle leaf \<longleftrightarrow>
     gleaf_BatchID leaf = com_BatchID (bundle_CommittedReceipt bundle) \<and>
     gleaf_BatchRoot leaf = com_BatchRoot (bundle_CommittedReceipt bundle) \<and>
     gleaf_BatchTreeSize leaf = bproof_TreeSize (bundle_BatchProof bundle) \<and>
     gleaf_BatchClosedAtUnixN leaf = com_ClosedAtUnixN (bundle_CommittedReceipt bundle) \<and>
     (bundle_NodeID bundle = '''' \<or> bundle_NodeID bundle = gleaf_NodeID leaf) \<and>
     (bundle_LogID bundle = '''' \<or> bundle_LogID bundle = gleaf_LogID leaf)"

lemma HashLeaf_content:
  assumes "x\<lparr>gleaf_LeafHash := [], gleaf_AppendedAtUnixN := 0\<rparr> = y\<lparr>gleaf_LeafHash := [], gleaf_AppendedAtUnixN := 0\<rparr>"
  shows "HashLeafWithProvider prims encs pr x = HashLeafWithProvider prims encs pr y"
proof -
  have "gleaf_CryptoSuite x = gleaf_CryptoSuite y" using arg_cong [OF assms, of gleaf_CryptoSuite] by simp
  then show ?thesis unfolding HashLeafWithProvider_def Let_def assms by (simp only:)
qed

lemma svc_suite:
  assumes "svc_ok svc" "Lookup (provider_Suite (svc_provider svc)) = Some suite"
  shows "prof_algorithm (svc_profile svc) = merkle_Algorithm (suite_Merkle suite)" "hash_DigestBytes (merkle_Hash (suite_Merkle suite)) = 32"
    "profile_Size (svc_profile svc) = 32"
  using assms svc_ok_profile [OF assms(1)]
  by (auto simp: Lookup_Some_iff svc_ok_def ProfileForSuite_Inr defaultProfile_def smProfile_def sha256_spec_def sm3_spec_def)

lemma logged_evidence:
  assumes svc: "svc_ok svc" and suite: "Lookup (provider_Suite (svc_provider svc)) = Some suite"
    and t: "tables_ok prims encs svc t ls" and pf: "proof_for prims encs svc ls j n pf"
    and j: "j < n" "n \<le> length ls" "n \<le> 2 ^ 62"
    and leaf: "leaf_for bundle (ls ! j)" and gate: "\<forall>s \<in> set (bound_suites (SB_ProofBundle bundle)). s = suite_ID suite"
  shows "globalLogConsistencyWithProvider prims encs bundle pf (Some (svc_provider svc)) = run_res (Inr ())"
proof -
  let ?p = "svc_provider svc"
  have r: "RequireAvailable (provider_Suite ?p) = Inr suite" and id: "suite_ID suite = provider_Suite ?p"
    using suite by (auto simp: RequireAvailable_Inr Lookup_Some_iff)
  have lok: "leaf_ok prims encs svc j (ls ! j)" and all: "\<forall>i < length ls. leaf_ok prims encs svc i (ls ! i)"
    using t j by (auto simp: tables_ok_def)
  have sth: "sth_ok prims encs svc (hashes ls) n (gproof_STH pf)" using pf by (simp add: proof_for_def)
  have "digests (take n (hashes ls))" using digests_hashes [OF all] by (fastforce simp: list_all_iff dest: in_set_takeD)
  moreover have "take n (hashes ls) \<noteq> []" using j by auto
  ultimately have len: "length (sth_RootHash (gproof_STH pf)) = 32"
    using sth mth_length [of "nodeh prims svc" "take n (hashes ls)"] by (simp add: sth_ok_def)
  have inc: "VerifyInclusionWithProvider prims (Some ?p) pf = Some True"
    using proof_for_verifies [OF svc pf all j] by (simp add: VerifyInclusionWithProvider_def)
  have hash: "HashLeafWithProvider prims encs (Some ?p)
      \<lparr>gleaf_SchemaVersion = SchemaGlobalLogLeaf, gleaf_CryptoSuite = suite_ID suite,
               gleaf_NodeID = gproof_NodeID pf, gleaf_LogID = gproof_LogID pf, gleaf_BatchID = com_BatchID (bundle_CommittedReceipt bundle),
               gleaf_BatchRoot = com_BatchRoot (bundle_CommittedReceipt bundle), gleaf_BatchTreeSize = bproof_TreeSize (bundle_BatchProof bundle),
               gleaf_BatchClosedAtUnixN = com_ClosedAtUnixN (bundle_CommittedReceipt bundle), gleaf_LeafIndex = gproof_LeafIndex pf,
               gleaf_LeafHash = [], gleaf_AppendedAtUnixN = 0\<rparr> = Inr (gproof_LeafHash pf)" (is "HashLeafWithProvider _ _ _ ?leaf = _")
  proof -
    have "?leaf = (ls ! j)\<lparr>gleaf_LeafHash := [], gleaf_AppendedAtUnixN := 0\<rparr>"
      using pf leaf lok by (intro GlobalLogLeaf.equality) (auto simp: proof_for_def leaf_for_def leaf_ok_def id)
    then have "HashLeafWithProvider prims encs (Some ?p) ?leaf = HashLeafWithProvider prims encs (Some ?p) (ls ! j)"
      by (intro HashLeaf_content) simp
    then show ?thesis using lok pf by (simp add: leaf_ok_def proof_for_def)
  qed
  have b: "Require (suite_ID suite) (SB_ProofBundle bundle) = None"
    unfolding bundle_suite_gate using gate suite by (auto simp: id simp del: bound_suites.simps)
  have g: "Require (suite_ID suite) (SB_GlobalLogProof pf) = None"
    using pf suite sth by (auto simp: Require_None id proof_for_def sth_ok_def)
  show ?thesis
    unfolding globalLogConsistencyWithProvider_def Let_def r non_nil_def option.case bind_run_simps hash inc
    using pf sth leaf lok len svc_suite [OF svc suite]
    by (auto simp: b g proof_for_def sth_ok_def leaf_for_def leaf_ok_def first_err_None err_if_None check_run_Inr)
qed

text \<open>The leaf of a root that the log has answered records the batch of every bundle of the root.\<close>

lemma covered_leaf:
  assumes "covered prims encs svc ls (stream_root svc root) sth"
    and parts: "batch_parts prims encs e suite profile leaves signs records accepted root bundles" "i < length records"
    and ids: "TrimSpace (eng_ServerID e) = eng_ServerID e" "TrimSpace (eng_LogID e) = eng_LogID e"
    and size: "length ls < 2 ^ 64"
  obtains j where "j < length ls" "unat (sth_TreeSize sth) = Suc j" "leaf_for (bundles ! i) (ls ! j)"
proof -
  obtain j where j: "j < length ls" "validateGlobalLogReplayLeaf (ls ! j) (stream_root svc root) = None"
    "sth_ok prims encs svc (hashes ls) (Suc j) sth" using assms(1) by (auto simp: covered_def)
  have "unat (sth_TreeSize sth) = Suc j"
    using j(1,3) size by (simp add: sth_ok_def unat_of_nat del: of_nat_Suc)
  moreover have "leaf_for (bundles ! i) (ls ! j)"
    using j(2) parts ids
    by (auto simp: validateGlobalLogReplayLeaf_def err_if_None stream_root_def leaf_for_def batch_parts_def assembled_def)
  ultimately show ?thesis using that j(1) by blast
qed

text \<open>
  C8. Once the log has answered the root of a committed batch, the bundle of every record of the
  batch verifies at level L4 with the inclusion proof the log then gives, for any tree size of
  the log that covers the answer; the log signs with the server's key.
\<close>

theorem logged_bundles_verify:
  assumes batch: "ComputeBatch prims encs e now ctx batchID closedAt signs records accepted opts = Inr commit"
      "bopt_Mode opts = BatchComputeMaterialized" "i < length records" "length records \<le> 2 ^ 62"
      "accepted_by prims encs e client (signs ! i) (records ! i) (accepted ! i)"
    and keys: "keys_for e client server keys" "server_key_ok prims e server"
    and raw: "HashReaderWithProvider prims (Some (cryptoProvider e)) (content_HashAlg (claim_Content (signed_Claim (signs ! i)))) raw =
      Inr (content_ContentHash (claim_Content (signed_Claim (signs ! i))), content_ContentLength (claim_Content (signed_Claim (signs ! i))))"
    and svc: "New_service prims True lopts = Inr svc" "svc_provider svc = cryptoProvider e" "svc_signer svc = eng_ServerSigner e"
    and ids: "TrimSpace (eng_ServerID e) = eng_ServerID e" "TrimSpace (eng_LogID e) = eng_LogID e"
    and log: "log_inv prims encs svc (kv_tables s) ls" "kv_read_error s = None"
      "covered prims encs svc ls (stream_root svc (bcommit_Root commit)) sth"
    and size: "sth_TreeSize sth \<le> word_of_nat n" "n \<le> length ls" "n \<le> 2 ^ 62"
  shows "\<exists>pf. snd (InclusionProof prims svc (pebble_log_store None now') s (com_BatchID (bundle_CommittedReceipt (bcommit_Bundles commit ! i)))
      (word_of_nat n)) = Inr pf \<and>
    verify_ProofBundle prims encs hs json_decode raw (bcommit_Bundles commit ! i) keys [WithGlobalProof pf] =
    run_res (Inr \<lparr>result_Valid = True, result_RecordID = rec_RecordID (records ! i), result_ProofLevel = L4,
      result_AnchorSink = '''', result_AnchorID = ''''\<rparr>)"
proof -
  let ?p = "cryptoProvider e" and ?bdl = "bcommit_Bundles commit ! i"
  obtain suite where suite: "Lookup (provider_Suite ?p) = Some suite" using provider_suite_known by blast
  obtain profile leaves where parts:
    "batch_parts prims encs e suite profile leaves signs records accepted (bcommit_Root commit) (bcommit_Bundles commit)"
    by (rule ComputeBatch_parts [OF batch(1,2) suite])
  obtain verified where ev: "batch_evidence prims encs ?p raw ?bdl keys suite verified"
    "ver_RecordID verified = rec_RecordID (records ! i)"
    by (rule committed_evidence [OF suite parts batch(3-5) keys raw])
  note ok = New_service_ok [OF svc(1)]
  have t: "tables_ok prims encs svc (kv_tables s) ls" and len: "length ls < 2 ^ 64"
    using log(1) by (auto simp: log_inv_def tables_ok_def)
  obtain j where j: "j < length ls" "unat (sth_TreeSize sth) = Suc j" "leaf_for ?bdl (ls ! j)"
    by (rule covered_leaf [OF log(3) parts batch(3) ids len])
  have jn: "j < n" using size j(2) by (simp add: word_le_nat_alt unat_of_nat)
  obtain s' pf where inc: "InclusionProof prims svc (pebble_log_store None now') s (gleaf_BatchID (ls ! j)) (word_of_nat n) = (s', Inr pf)"
    and pf: "proof_for prims encs svc ls j n pf"
    using pebble_log.inclusion_ok [OF ok t log(2), of j n "word_of_nat n" now'] jn size by auto
  have gate: "\<forall>s \<in> set (bound_suites (SB_ProofBundle ?bdl)). s = suite_ID suite"
    using ev(1) unfolding batch_evidence_def bundle_bound_def Let_def by blast
  have "globalLogConsistencyWithProvider prims encs ?bdl pf (Some ?p) = run_res (Inr ())"
    using logged_evidence [OF ok _ t pf jn size(2,3) j(3) gate] suite svc(2) by simp
  moreover obtain sg where "eng_ServerSigner e = Some sg" using parts batch(3) unfolding batch_parts_def by blast
  then have "VerifySTHWithProvider prims encs None (gproof_STH pf) server (Some ?p) = None"
    using pf svc keys(2) sth_ok_verifies [OF _ ok, of prims encs "hashes ls" n "gproof_STH pf" sg server]
    by (simp add: proof_for_def server_key_ok_def)
  ultimately have "global_evidence prims encs ?p keys ?bdl ((WithGlobalProof pf) zero_options) pf"
    using keys(1) by (simp add: global_evidence_def VerifyGlobalLogProof_def keys_for_def WithGlobalProof_def zero_options_def)
  then have "verify_ProofBundle prims encs hs json_decode raw ?bdl keys [WithGlobalProof pf] =
    run_res (Inr \<lparr>result_Valid = True, result_RecordID = rec_RecordID (records ! i), result_ProofLevel = L4,
      result_AnchorSink = '''', result_AnchorID = ''''\<rparr>)"
    using keys_for_provider [OF keys(1)] ev
    by (subst verify_ProofBundle_Inr [OF _ suite refl]) (auto simp: asked_level_def zero_options_def WithGlobalProof_def)
  with inc j(3) show ?thesis by (intro exI [of _ pf]) (simp add: leaf_for_def)
qed

section \<open>A sample submission\<close>

definition sample_engine :: LocalEngine where
  "sample_engine = \<lparr>eng_ServerID = ''n'', eng_LogID = ''l'', eng_ServerKeyID = ''k'', eng_ClientPublicKey = sample_pk,
     eng_ClientKeys = None, eng_ServerSigner = Some sample_signer, eng_CryptoProvider = Some intlV1Provider, eng_ProofWorkers = 0\<rparr>"

definition sample_keys :: TrustedKeys where
  "sample_keys = (let none = sample_pk\<lparr>pkd_Bytes := []\<rparr> in
     \<lparr>keys_ClientPublicKey = sample_pk, keys_ServerPublicKey = sample_pk, keys_AcceptedReceiptPublicKey = none,
      keys_CommittedReceiptPublicKey = none, keys_SignedTreeHeadPublicKey = none, keys_CryptoProvider = Some intlV1Provider\<rparr>)"

definition sample_ots :: ots_hashes where
  "sample_ots = \<lparr>ots_sha256 = id, ots_sha1 = id, ots_ripemd160 = id, ots_keccak256 = id\<rparr>"

definition sample_json :: "bytes \<Rightarrow> OtsAnchorProof res" where
  "sample_json data = Inl (New_err ''json'')"

definition sample_accept :: "(ServerRecord \<times> AcceptedReceipt) res" where
  "sample_accept =
     bind_res (validateSigned sample_prims sample_encoders sample_engine None sample_signed 5) (\<lambda>(v, ks, ch, sh).
       buildAccepted sample_prims sample_encoders sample_engine None sample_signed v ks ch sh
         \<lparr>walpos_SegmentID = 1, walpos_Offset = 0, walpos_Sequence = 1\<rparr> 5)"

abbreviation sample_batch :: "ServerRecord \<Rightarrow> AcceptedReceipt \<Rightarrow> BatchCommit res" where
  "sample_batch r a \<equiv> ComputeBatch sample_prims sample_encoders sample_engine 7 None ''b'' None [sample_signed] [r] [a]
     \<lparr>bopt_Mode = BatchComputeMaterialized, bopt_IncludeTree = False\<rparr>"

lemma sample_verified:
  obtains v where "VerifyWithProvider sample_prims sample_encoders None sample_signed sample_pk (Some intlV1Provider) = Inr v"
proof -
  have "signed_claim_ok sample_prims sample_encoders (provider_Suite intlV1Provider) sample_signed"
    using NewFileClaimForSuite_Inr [OF sample_claim_New]
    by (simp add: signed_claim_ok_def sample_signed_def) (simp add: sample_claim_def sample_encoders_def)
  then have "err_of (VerifyWithProvider sample_prims sample_encoders None sample_signed sample_pk (Some intlV1Provider)) = None"
    by (intro claims.sign_then_verify [OF sample_signed_Sign sample_signer_correct]) (simp_all add: sample_pk_def)
  with that show ?thesis by (auto simp: err_of_None)
qed

lemma sample_serverSigner: "serverSigner sample_engine = Inr sample_signer"
proof -
  have "ValidateSignerHandle INTLV1 (Some sample_signer) = None" by code_simp
  then show ?thesis by (simp add: serverSigner_def sample_engine_def cryptoProvider_def non_nil_def) (simp add: sample_signer_def)
qed

lemma sample_resolve: "resolveClientKey sample_prims sample_engine sample_signed 5 = Inr (sample_pk, KeyStatusValid)"
  by code_simp

lemma sample_provider [simp]: "cryptoProvider sample_engine = intlV1Provider"
  by (simp add: sample_engine_def cryptoProvider_def)

lemma sample_accept_Inr: obtains r a where "sample_accept = Inr (r, a)" "rec_CryptoSuite r = INTLV1" "acc_CryptoSuite a = INTLV1"
proof -
  obtain v where v: "VerifyWithProvider sample_prims sample_encoders None sample_signed sample_pk (Some intlV1Provider) = Inr v"
    by (rule sample_verified)
  obtain ch sh where "HashBytesWithProvider sample_prims (Some intlV1Provider) (hash_Algorithm (suite_ClaimHash intl_v1_suite)) (ver_ClaimCBOR v) = Inr ch"
    "HashBytesWithProvider sample_prims (Some intlV1Provider) (hash_Algorithm (suite_SignatureHash intl_v1_suite)) (sig_Signature (signed_Signature sample_signed)) = Inr sh"
    by (simp add: HashBytesWithProvider_def provider_HashFactory_def suite_hash_algorithms)
  moreover have "signed_CryptoSuite sample_signed = INTLV1" "claim_CryptoSuite (signed_Claim sample_signed) = INTLV1"
    by (simp_all add: sample_signed_def sample_claim_def)
  ultimately have "validateSigned sample_prims sample_encoders sample_engine None sample_signed 5 = Inr (v, KeyStatusValid, ch, sh)"
    by (simp add: validateSigned_def Let_def sample_resolve v checked_Inr RequireSame_None)
  moreover have "\<exists>a. buildAccepted sample_prims sample_encoders sample_engine None sample_signed v KeyStatusValid ch sh
         \<lparr>walpos_SegmentID = 1, walpos_Offset = 0, walpos_Sequence = 1\<rparr> 5 =
      Inr (server_record sample_engine sample_signed v KeyStatusValid ch sh \<lparr>walpos_SegmentID = 1, walpos_Offset = 0, walpos_Sequence = 1\<rparr> 5, a) \<and>
      acc_CryptoSuite a = INTLV1"
    by (simp add: buildAccepted_def Let_def sample_serverSigner SignAcceptedWithProvider_def sample_Sign RequireSame_None checked_Inr bind_res_Inr first_err_None
        encodeDomainInput_def encode_into_def MarshalBuffer_def sample_encoders_def SignatureInputForSuite_simps)
  ultimately show ?thesis using that by (auto simp: sample_accept_def server_record_def)
qed

lemma sample_leaf: "hashLeafArray sample_prims (cbor_ServerRecord sample_encoders) p r = Inr (hashBytes sample_prims p [prof_leafPrefix p, 3])"
  by (simp add: hashLeafArray_def MarshalBuffer_def sample_encoders_def)

definition sample_committed_root :: BatchRoot where
  "sample_committed_root = \<lparr>broot_SchemaVersion = SchemaBatchRoot, broot_CryptoSuite = INTLV1, broot_BatchID = ''b'',
     broot_NodeID = ''n'', broot_LogID = ''l'',
     broot_BatchRoot = hashBytes sample_prims defaultProfile [prof_leafPrefix defaultProfile, 3], broot_TreeSize = 1,
     broot_ClosedAtUnixN = 7\<rparr>"

lemma sample_batch_Inr:
  assumes "rec_CryptoSuite r = INTLV1" "acc_CryptoSuite a = INTLV1"
  obtains commit where "sample_batch r a = Inr commit" "bcommit_Root commit = sample_committed_root"
proof -
  have s: "signed_CryptoSuite sample_signed = INTLV1" "claim_CryptoSuite (signed_Claim sample_signed) = INTLV1"
    by (simp_all add: sample_signed_def sample_claim_def)
  have req: "RequireSame INTLV1 [signed_CryptoSuite sample_signed, claim_CryptoSuite (signed_Claim sample_signed), rec_CryptoSuite r, acc_CryptoSuite a] = None"
    by (simp add: s assms RequireSame_None)
  have "Require INTLV1 (SB_ServerRecord r) = None" using assms by (simp add: Require_None)
  then have build: "BuildForSuite sample_prims (cbor_ServerRecord sample_encoders) INTLV1 MerkleRFC6962SHA256 [r] =
      Inr (buildFromLeafHashes sample_prims defaultProfile [hashBytes sample_prims defaultProfile [prof_leafPrefix defaultProfile, 3]])"
    by (simp add: BuildForSuite_def ProfileForAlgorithm_default sample_leaf)
  have "\<exists>b. batch_bundle sample_prims sample_encoders sample_engine None intl_v1_suite sample_signer
      (buildFromLeafHashes sample_prims defaultProfile [hashBytes sample_prims defaultProfile [prof_leafPrefix defaultProfile, 3]])
      ''b'' 7 1 0 sample_signed r a = Inr b"
    by (simp add: batch_bundle_def LeafHashView_def ProofView_def SignCommittedWithProvider_def sample_Sign RequireSame_None
        checked_Inr bind_res_Inr first_err_None Let_def encodeDomainInput_def encode_into_def MarshalBuffer_def sample_encoders_def
        SignatureInputForSuite_simps)
  then show ?thesis
    using that
    by (auto simp: ComputeBatch_def req build sample_serverSigner Let_def sample_committed_root_def)
      (auto simp: sample_engine_def buildFromLeafHashes_def buildRange.simps)
qed
lemma sample_commit:
  obtains r a commit where "sample_accept = Inr (r, a)" "sample_batch r a = Inr commit" "bcommit_Root commit = sample_committed_root"
  using that sample_accept_Inr sample_batch_Inr by metis

lemma sample_accepted_by:
  "sample_accept = Inr (r, a) \<Longrightarrow> accepted_by sample_prims sample_encoders sample_engine sample_pk sample_signed r a"
proof -
  assume "sample_accept = Inr (r, a)"
  then obtain v ks ch sh where v: "validateSigned sample_prims sample_encoders sample_engine None sample_signed 5 = Inr (v, ks, ch, sh)"
    and b: "buildAccepted sample_prims sample_encoders sample_engine None sample_signed v ks ch sh
         \<lparr>walpos_SegmentID = 1, walpos_Offset = 0, walpos_Sequence = 1\<rparr> 5 = Inr (r, a)"
    by (auto simp: sample_accept_def bind_res_Inr)
  have "ks = KeyStatusValid" using v by (auto simp: validateSigned_def Let_def sample_resolve check_simps)
  then show ?thesis unfolding accepted_by_def using v b sample_resolve by blast
qed

lemma sample_engine_keys:
  "keys_for sample_engine sample_pk sample_pk sample_keys" "server_key_ok sample_prims sample_engine sample_pk"
  using sample_signer_correct
  by (auto simp: keys_for_def sample_engine_def sample_keys_def Let_def server_key_ok_def cryptoProvider_def sample_pk_def)

lemma sample_content:
  "HashReaderWithProvider sample_prims (Some (cryptoProvider sample_engine)) (content_HashAlg (claim_Content (signed_Claim sample_signed))) ([], None) =
     Inr (content_ContentHash (claim_Content (signed_Claim sample_signed)), content_ContentLength (claim_Content (signed_Claim sample_signed)))"
  by code_simp

theorem committed_bundles_verify_witness:
  "\<exists>r a commit. sample_accept = Inr (r, a) \<and> sample_batch r a = Inr commit \<and>
     verify_ProofBundle sample_prims sample_encoders sample_ots sample_json ([], None) (bcommit_Bundles commit ! 0) sample_keys [] =
     run_res (Inr \<lparr>result_Valid = True, result_RecordID = rec_RecordID r, result_ProofLevel = L3, result_AnchorSink = '''', result_AnchorID = ''''\<rparr>)"
proof -
  obtain r a commit where s: "sample_accept = Inr (r, a)" "sample_batch r a = Inr commit" "bcommit_Root commit = sample_committed_root" by (rule sample_commit)
  have "verify_ProofBundle sample_prims sample_encoders sample_ots sample_json ([], None) (bcommit_Bundles commit ! 0) sample_keys [] =
     run_res (Inr \<lparr>result_Valid = True, result_RecordID = rec_RecordID ([r] ! 0), result_ProofLevel = L3, result_AnchorSink = '''',
       result_AnchorID = ''''\<rparr>)"
    by (rule committed_bundles_verify [OF s(2), where client = sample_pk and server = sample_pk])
      (use sample_accepted_by [OF s(1)] sample_engine_keys sample_content in simp_all)
  with s show ?thesis by (intro exI [of _ r] exI [of _ a] exI [of _ commit]) simp
qed

lemma sample_root_logged:
  obtains s :: kv_store and ls sth where "log_inv sample_prims sample_encoders sample_log (kv_tables s) ls" "kv_read_error s = None"
    "covered sample_prims sample_encoders sample_log ls (stream_root sample_log sample_committed_root) sth" "length ls = 1"
proof -
  let ?append = "AppendBatchRoots sample_prims sample_encoders None sample_log (pebble_log_store None 1) (\<lambda>_ _. 1) (\<lambda>_. None) (\<lambda>_. id) sample_kv"
  have "case ?append [sample_committed_root] of Some (_, Inr _) \<Rightarrow> True | _ \<Rightarrow> False" by code_simp
  then obtain s' sths where run: "?append [sample_committed_root] = Some (s', Inr sths)"
    by (auto split: option.splits prod.splits sum.splits)
  obtain s'' r' where a: "?append [sample_committed_root] = Some (s'', r')" "kv_read_error s'' = None"
    "case r' of Inl _ \<Rightarrow> log_inv sample_prims sample_encoders sample_log (kv_tables s'') [] | Inr sths \<Rightarrow>
       \<exists>ls'. log_inv sample_prims sample_encoders sample_log (kv_tables s'') ls' \<and>
         appended sample_prims sample_encoders sample_log [] [sample_committed_root] ls' sths"
    using pebble_log.append_exclusive [OF sample_log_ok, of "\<lambda>_ _. 1" sample_prims sample_encoders sample_kv "[]" None 1 "\<lambda>_. None" "[sample_committed_root]"]
    unfolding sample_kv_simps using log_inv_empty one_neq_zero [where 'a = int] by blast
  then obtain ls where ls: "log_inv sample_prims sample_encoders sample_log (kv_tables s') ls"
    "appended sample_prims sample_encoders sample_log [] [sample_committed_root] ls sths" "kv_read_error s' = None"
    using run by auto
  then obtain sth where "covered sample_prims sample_encoders sample_log ls (stream_root sample_log sample_committed_root) sth"
    and d: "distinct (map gleaf_BatchID ls)" "gleaf_BatchID ` set ls = {broot_BatchID sample_committed_root}"
    by (auto simp: appended_def list_all2_Cons1)
  moreover have "length ls = 1" using d by (metis distinct_card length_map list.set_map card_1_singleton_iff One_nat_def)
  ultimately show ?thesis using that ls by blast
qed

theorem logged_bundles_verify_witness:
  "\<exists>r a commit s pf. sample_accept = Inr (r, a) \<and> sample_batch r a = Inr commit \<and>
     snd (InclusionProof sample_prims sample_log (pebble_log_store None 1) s (com_BatchID (bundle_CommittedReceipt (bcommit_Bundles commit ! 0))) 1) = Inr pf \<and>
     verify_ProofBundle sample_prims sample_encoders sample_ots sample_json ([], None) (bcommit_Bundles commit ! 0) sample_keys [WithGlobalProof pf] =
     run_res (Inr \<lparr>result_Valid = True, result_RecordID = rec_RecordID r, result_ProofLevel = L4, result_AnchorSink = '''', result_AnchorID = ''''\<rparr>)"
proof -
  obtain r a commit where s: "sample_accept = Inr (r, a)" "sample_batch r a = Inr commit" "bcommit_Root commit = sample_committed_root" by (rule sample_commit)
  obtain st :: kv_store and ls sth where l: "log_inv sample_prims sample_encoders sample_log (kv_tables st) ls" "kv_read_error st = None"
    "covered sample_prims sample_encoders sample_log ls (stream_root sample_log (bcommit_Root commit)) sth" "length ls = 1"
    unfolding s(3) by (rule sample_root_logged) blast
  have "sth_TreeSize sth \<le> word_of_nat 1" using l(3,4) by (auto simp: covered_def sth_ok_def)
  moreover have "svc_provider sample_log = cryptoProvider sample_engine" "svc_signer sample_log = eng_ServerSigner sample_engine"
    by (simp_all add: sample_log_def sample_engine_def cryptoProvider_def)
  moreover have "TrimSpace (eng_ServerID sample_engine) = eng_ServerID sample_engine" "TrimSpace (eng_LogID sample_engine) = eng_LogID sample_engine"
    by code_simp+
  ultimately have "\<exists>pf. snd (InclusionProof sample_prims sample_log (pebble_log_store None 1) st
        (com_BatchID (bundle_CommittedReceipt (bcommit_Bundles commit ! 0))) (word_of_nat 1)) = Inr pf \<and>
      verify_ProofBundle sample_prims sample_encoders sample_ots sample_json ([], None) (bcommit_Bundles commit ! 0) sample_keys
        [WithGlobalProof pf] =
      run_res (Inr \<lparr>result_Valid = True, result_RecordID = rec_RecordID ([r] ! 0), result_ProofLevel = L4, result_AnchorSink = '''',
        result_AnchorID = ''''\<rparr>)"
    by (intro logged_bundles_verify [OF s(2) _ _ _ _ sample_engine_keys _ sample_log_New _ _ _ _ l(1-3)])
      (use sample_accepted_by [OF s(1)] sample_content l(4) in simp_all)
  with s show ?thesis by simp blast
qed

end
