(* ===== verification/Content_Binding.thy ===== *)
theory Content_Binding
  imports Evidence_Chain
begin

text \<open>
  What a record identifier says about the content: two bundles that verify with one identifier
  carry one claim and one content, up to collisions of the suite's hash function.
\<close>

definition bundle_preimage :: "encoders \<Rightarrow> Provider \<Rightarrow> ProofBundle \<Rightarrow> bytes res" where
  "bundle_preimage encs p bundle =
     bind_res (cbor_ClientClaim encs (signed_Claim (bundle_SignedClaim bundle))) (\<lambda>b.
       record_id_preimage encs p b (signed_Signature (bundle_SignedClaim bundle)))"

lemma verified_claim_facts:
  assumes "verify_ProofBundle prims encs hs json_decode raw bundle keys opts = run_res (Inr result)"
    and p: "p = (case keys_CryptoProvider keys of None \<Rightarrow> DefaultProvider | Some p \<Rightarrow> p)"
  obtains b f where "cbor_ClientClaim encs (signed_Claim (bundle_SignedClaim bundle)) = Inr b"
    "RecordIDWithProvider prims encs (Some p) b (signed_Signature (bundle_SignedClaim bundle)) = Inr (result_RecordID result)"
    "provider_HashFactory p (content_HashAlg (claim_Content (signed_Claim (bundle_SignedClaim bundle)))) = Inr f"
    "factory_Sum prims f (fst raw) = content_ContentHash (claim_Content (signed_Claim (bundle_SignedClaim bundle)))"
proof -
  obtain suite where suite: "Lookup (provider_Suite p) = Some suite" using provider_suite_known by blast
  obtain v where v: "batch_evidence prims encs p raw bundle keys suite v" "result_RecordID result = ver_RecordID v"
    using assms(1) unfolding verify_ProofBundle_Inr [OF p suite refl] by auto
  then have "VerifyWithProvider prims encs None (bundle_SignedClaim bundle) (keys_ClientPublicKey keys) (Some p) = Inr v"
    and "HashReaderWithProvider prims (Some p) (content_HashAlg (claim_Content (signed_Claim (bundle_SignedClaim bundle)))) raw =
        Inr (content_ContentHash (claim_Content (signed_Claim (bundle_SignedClaim bundle))),
             content_ContentLength (claim_Content (signed_Claim (bundle_SignedClaim bundle))))"
    unfolding batch_evidence_def Let_def by blast+
  with v(2) that show ?thesis
    by (auto simp: VerifyWithProvider_Inr HashReaderWithProvider_def hashReader_def bind_res_Inr
        simp del: RecordID_Inr split: option.splits)
qed

text \<open>
  C9. The record identifier of a verified bundle fixes the claim and the content: two bundles that
  verify under one suite with the same identifier, whatever the keys, the options and the rest of the
  evidence, carry the same signed claim and were verified against the same bytes, or the inputs of
  the two identifiers or the two contents are a collision of the suite's hash function.
\<close>

theorem verified_content_unique:
  assumes v: "verify_ProofBundle prims encs hs json_decode raw bundle keys opts = run_res (Inr result)"
      "verify_ProofBundle prims encs hs' json_decode' raw' bundle' keys' opts' = run_res (Inr result')"
    and same: "keys_CryptoProvider keys' = keys_CryptoProvider keys" "result_RecordID result' = result_RecordID result"
    and inj: "enc_inj (cbor_ClientClaim encs)" "enc_inj (cbor_RecordIDInput encs)"
    and p: "p = (case keys_CryptoProvider keys of None \<Rightarrow> DefaultProvider | Some p \<Rightarrow> p)"
  shows "signed_Claim (bundle_SignedClaim bundle') = signed_Claim (bundle_SignedClaim bundle) \<and>
      signed_Signature (bundle_SignedClaim bundle') = signed_Signature (bundle_SignedClaim bundle) \<and> fst raw' = fst raw \<or>
    (\<exists>f x y. x \<noteq> y \<and> factory_Sum prims f x = factory_Sum prims f y \<and>
       (bundle_preimage encs p bundle = Inr x \<and> bundle_preimage encs p bundle' = Inr y \<or> x = fst raw \<and> y = fst raw'))"
proof -
  have p': "p = (case keys_CryptoProvider keys' of None \<Rightarrow> DefaultProvider | Some p \<Rightarrow> p)" using p same(1) by simp
  let ?c = "signed_Claim (bundle_SignedClaim bundle)" and ?c' = "signed_Claim (bundle_SignedClaim bundle')"
  obtain b f where b: "cbor_ClientClaim encs ?c = Inr b"
    "RecordIDWithProvider prims encs (Some p) b (signed_Signature (bundle_SignedClaim bundle)) = Inr (result_RecordID result)"
    "provider_HashFactory p (content_HashAlg (claim_Content ?c)) = Inr f"
    "factory_Sum prims f (fst raw) = content_ContentHash (claim_Content ?c)"
    by (rule verified_claim_facts [OF v(1) p])
  obtain b' f' where b': "cbor_ClientClaim encs ?c' = Inr b'"
    "RecordIDWithProvider prims encs (Some p) b' (signed_Signature (bundle_SignedClaim bundle')) = Inr (result_RecordID result)"
    "provider_HashFactory p (content_HashAlg (claim_Content ?c')) = Inr f'"
    "factory_Sum prims f' (fst raw') = content_ContentHash (claim_Content ?c')"
    using verified_claim_facts [OF v(2) p'] same(2) by metis
  consider "b = b'" "signed_Signature (bundle_SignedClaim bundle) = signed_Signature (bundle_SignedClaim bundle')"
    | f x y where "record_id_preimage encs p b (signed_Signature (bundle_SignedClaim bundle)) = Inr x"
      "record_id_preimage encs p b' (signed_Signature (bundle_SignedClaim bundle')) = Inr y" "x \<noteq> y"
      "factory_Sum prims f x = factory_Sum prims f y"
    using record_ids_bind [OF b(2) b'(2) inj(2)] by blast
  then show ?thesis
  proof cases
    case 1
    then have c: "?c = ?c'" using enc_injD [OF inj(1) b(1)] b'(1) by simp
    then have "factory_Sum prims f (fst raw) = factory_Sum prims f (fst raw')" using b b' by simp
    with 1 c show ?thesis by (cases "fst raw = fst raw'") auto
  next
    case (2 f x y)
    then have "bundle_preimage encs p bundle = Inr x" "bundle_preimage encs p bundle' = Inr y"
      using b b' by (simp_all add: bundle_preimage_def)
    with 2 show ?thesis by blast
  qed
qed

definition strict_encoders :: encoders where
  "strict_encoders = sample_encoders\<lparr>cbor_ClientClaim := (\<lambda>c. if c = sample_claim then Inr [1] else Inl (New_err ''x'')),
     cbor_RecordIDInput := (\<lambda>i. if i = (sample_frame [1])\<lparr>rid_Signature := signed_Signature sample_signed\<rparr> then Inr [2] else Inl (New_err ''x''))\<rparr>"

lemma strict_encoders_inj: "enc_inj (cbor_ClientClaim strict_encoders)" "enc_inj (cbor_RecordIDInput strict_encoders)"
  by (auto simp: enc_inj_def strict_encoders_def split: if_splits)

lemma strict_VerifyWithProvider:
  assumes "VerifyWithProvider sample_prims sample_encoders None sample_signed pk (Some intlV1Provider) = Inr v"
  shows "VerifyWithProvider sample_prims strict_encoders None sample_signed pk (Some intlV1Provider) = Inr v"
  using assms unfolding VerifyWithProvider_Inr
  by (auto simp: RecordID_Inr strict_encoders_def sample_encoders_def sample_frame_def sample_signed_def)

lemma strict_batch_evidence:
  assumes "batch_evidence sample_prims sample_encoders intlV1Provider raw bdl keys suite v" "bundle_SignedClaim bdl = sample_signed"
  shows "batch_evidence sample_prims strict_encoders intlV1Provider raw bdl keys suite v"
proof -
  have "cbor_ServerRecord strict_encoders = cbor_ServerRecord sample_encoders"
    "VerifyAcceptedWithProvider sample_prims strict_encoders = VerifyAcceptedWithProvider sample_prims sample_encoders"
    "VerifyCommittedWithProvider sample_prims strict_encoders = VerifyCommittedWithProvider sample_prims sample_encoders"
    by (auto simp: strict_encoders_def fun_eq_iff VerifyAcceptedWithProvider_def VerifyCommittedWithProvider_def)
  with assms strict_VerifyWithProvider show ?thesis by (simp add: batch_evidence_def Let_def)
qed

lemma sample_strict_bundle:
  obtains bdl result where "bundle_SignedClaim bdl = sample_signed"
    "verify_ProofBundle sample_prims strict_encoders sample_ots sample_json ([], None) bdl sample_keys [] = run_res (Inr result)"
proof -
  obtain r a commit where s: "sample_accept = Inr (r, a)" "sample_batch r a = Inr commit" by (rule sample_commit)
  have suite: "Lookup (provider_Suite intlV1Provider) = Some intl_v1_suite" by simp
  obtain profile leaves where parts: "batch_parts sample_prims sample_encoders sample_engine intl_v1_suite profile leaves [sample_signed] [r] [a]
      (bcommit_Root commit) (bcommit_Bundles commit)"
    using ComputeBatch_parts [OF s(2)] by auto
  obtain v where v: "batch_evidence sample_prims sample_encoders intlV1Provider ([], None) (bcommit_Bundles commit ! 0) sample_keys intl_v1_suite v"
    using committed_evidence [OF _ parts, of 0 sample_pk sample_pk sample_keys "([], None)"] sample_accepted_by [OF s(1)] sample_engine_keys sample_content
    by auto
  have signed: "bundle_SignedClaim (bcommit_Bundles commit ! 0) = sample_signed"
    using parts unfolding batch_parts_def by (auto simp: assembled_def)
  have "keys_CryptoProvider sample_keys = Some intlV1Provider" by (simp add: sample_keys_def Let_def)
  then show ?thesis
    using that [OF signed] strict_batch_evidence [OF v signed] verify_ProofBundle_Inr [OF _ suite refl, of sample_keys sample_prims strict_encoders sample_ots
        sample_json "([], None)" "bcommit_Bundles commit ! 0" "[]"]
    by (auto simp: zero_options_def)
qed

theorem verified_content_unique_witness:
  "\<exists>bdl result. verify_ProofBundle sample_prims strict_encoders sample_ots sample_json ([], None) bdl sample_keys [] = run_res (Inr result) \<and>
     (signed_Claim (bundle_SignedClaim bdl) = sample_claim \<or>
      (\<exists>f x y. x \<noteq> y \<and> factory_Sum sample_prims f x = factory_Sum sample_prims f y))"
proof -
  obtain bdl result where b: "bundle_SignedClaim bdl = sample_signed"
    "verify_ProofBundle sample_prims strict_encoders sample_ots sample_json ([], None) bdl sample_keys [] = run_res (Inr result)"
    by (rule sample_strict_bundle)
  have "signed_Claim (bundle_SignedClaim bdl) = sample_claim" using b(1) by (simp add: sample_signed_def)
  with b(2) verified_content_unique [OF b(2) b(2) refl refl strict_encoders_inj refl]
  show ?thesis by (intro exI [of _ bdl] exI [of _ result]) simp
qed

end
