(* ===== verification/Idempotency.thy ===== *)
theory Idempotency
  imports Evidence_Chain
begin

text \<open>
  The durable idempotency decisions of \<open>internal/idempotency/decision.go\<close>: what an accepted response
  must be bound to, the projection that is stored for it, and the key it is stored under. A copy that
  only protects a slice from later writes (\<open>cloneRecord\<close>, \<open>cloneAccepted\<close>) is the value itself.
\<close>

section \<open>Bindings of an accepted response\<close>

abbreviation ed25519_SignatureSize :: nat where "ed25519_SignatureSize \<equiv> 64"

definition validateWALPosition :: "WALPosition \<Rightarrow> go_error option" where
  "validateWALPosition pos =
     err_if (walpos_SegmentID pos = 0 \<or> walpos_Offset pos < 0 \<or> walpos_Sequence pos = 0)
       (New_err ''idempotency: server record has an invalid WAL position'')"

definition validateResponseBindings ::
  "Suite \<Rightarrow> IdempotencyIdentity \<Rightarrow> bytes \<Rightarrow> ServerRecord \<Rightarrow> AcceptedReceipt \<Rightarrow> go_error option" where
  "validateResponseBindings suite identity claimHash record accepted = first_err
     [err_if (rec_SchemaVersion record \<noteq> SchemaServerRecord) (New_err ''idempotency: unexpected server record schema %q''),
      err_if (rec_RecordID record = '''') (New_err ''idempotency: record_id is required''),
      err_if (rec_TenantID record \<noteq> idid_TenantID identity \<or> rec_ClientID record \<noteq> idid_ClientID identity)
        (New_err ''idempotency: server record identity does not match decision identity''),
      err_if (rec_KeyID record = '''') (New_err ''idempotency: server record key_id is required''),
      err_if (rec_ReceivedAtUnixN record \<le> 0) (New_err ''idempotency: server record received_at_unix_n must be positive''),
      err_if (rec_ClaimHash record \<noteq> claimHash) (New_err ''idempotency: server record claim_hash does not match decision''),
      err_if (length (rec_ClientSignatureHash record) \<noteq> hash_DigestBytes (suite_SignatureHash suite))
        (New_err ''idempotency: client signature hash length is %d, want %d''),
      validateWALPosition (rec_WAL record),
      err_if (acc_SchemaVersion accepted \<noteq> SchemaAcceptedReceipt) (New_err ''idempotency: unexpected accepted receipt schema %q''),
      err_if (acc_RecordID accepted \<noteq> rec_RecordID record)
        (New_err ''idempotency: accepted receipt record_id does not match server record''),
      err_if (acc_Status accepted \<noteq> ''accepted'') (New_err ''idempotency: unexpected accepted receipt status %q''),
      err_if (acc_ServerID accepted = '''') (New_err ''idempotency: accepted receipt server_id is required''),
      err_if (acc_ReceivedAtUnixN accepted \<noteq> rec_ReceivedAtUnixN record)
        (New_err ''idempotency: accepted receipt timestamp does not match server record''),
      err_if (acc_WAL accepted \<noteq> rec_WAL record)
        (New_err ''idempotency: accepted receipt WAL position does not match server record''),
      err_if (sig_Alg (acc_ServerSig accepted) \<noteq> sigspec_Algorithm (suite_Signature suite) \<or>
              sig_KeyID (acc_ServerSig accepted) = '''' \<or> length (sig_Signature (acc_ServerSig accepted)) = 0 \<or>
              suite_ID suite = INTLV1 \<and> length (sig_Signature (acc_ServerSig accepted)) \<noteq> ed25519_SignatureSize)
        (New_err ''idempotency: accepted receipt server signature is required'')]"

definition validateAcceptedResponse ::
  "crypto_prims \<Rightarrow> encoders \<Rightarrow> Provider option \<Rightarrow> SignedClaim \<Rightarrow> ServerRecord \<Rightarrow> AcceptedReceipt \<Rightarrow> bool \<Rightarrow>
   (Suite \<times> IdempotencyIdentity \<times> bytes) res" where
  "validateAcceptedResponse prims encs provider scl record accepted requireIdempotency =
     bind_res (non_nil (New_err ''idempotency: crypto provider is required'') provider) (\<lambda>p.
     bind_res (RequireAvailable (provider_Suite p)) (\<lambda>suite.
     checked (first_err
       [err_if (signed_SchemaVersion scl \<noteq> SchemaSignedClaim) (New_err ''idempotency: unexpected signed claim schema %q''),
        err_if (sig_KeyID (signed_Signature scl) \<noteq> claim_KeyID (signed_Claim scl))
          (New_err ''idempotency: signature key_id does not match claim key_id''),
        err_if (sig_Alg (signed_Signature scl) \<noteq> sigspec_Algorithm (suite_Signature suite) \<or>
                length (sig_Signature (signed_Signature scl)) = 0 \<or>
                suite_ID suite = INTLV1 \<and> length (sig_Signature (signed_Signature scl)) \<noteq> ed25519_SignatureSize)
          (New_err ''idempotency: valid client signature metadata is required''),
        err_if (requireIdempotency \<and> claim_IdempotencyKey (signed_Claim scl) = '''')
          (New_err ''idempotency: idempotency_key is required'')])
    (bind_res (map_err (Wrapf ''idempotency: canonicalize claim: %w'') (Canonical encs (signed_Claim scl))) (\<lambda>claimCBOR.
     bind_res (map_err (Wrapf ''idempotency: hash claim: %w'')
       (HashBytesWithProvider prims provider (hash_Algorithm (suite_ClaimHash suite)) claimCBOR)) (\<lambda>claimHash.
     checked (err_if (rec_ClaimHash record \<noteq> claimHash)
       (New_err ''idempotency: server record claim hash does not match signed claim''))
    (bind_res (map_err (Wrapf ''idempotency: derive record id: %w'')
       (RecordIDWithProvider prims encs provider claimCBOR (signed_Signature scl))) (\<lambda>recordID.
     checked (err_if (rec_RecordID record \<noteq> recordID) (New_err ''idempotency: server record id does not match signed claim''))
    (bind_res (map_err (Wrapf ''idempotency: hash client signature: %w'')
       (HashBytesWithProvider prims provider (hash_Algorithm (suite_SignatureHash suite)) (sig_Signature (signed_Signature scl)))) (\<lambda>signatureHash.
     checked (first_err
       [err_if (rec_ClientSignatureHash record \<noteq> signatureHash)
          (New_err ''idempotency: server record signature hash does not match signed claim''),
        err_if (rec_KeyID record \<noteq> claim_KeyID (signed_Claim scl))
          (New_err ''idempotency: server record key_id does not match signed claim'')])
    (let identity = \<lparr>idid_TenantID = claim_TenantID (signed_Claim scl), idid_ClientID = claim_ClientID (signed_Claim scl),
           idid_IdempotencyKey = claim_IdempotencyKey (signed_Claim scl)\<rparr> in
     checked (validateResponseBindings suite identity claimHash record accepted)
    (Inr (suite, identity, claimHash))))))))))))"

definition ValidateAcceptedResponseWithProvider ::
  "crypto_prims \<Rightarrow> encoders \<Rightarrow> Provider option \<Rightarrow> SignedClaim \<Rightarrow> ServerRecord \<Rightarrow> AcceptedReceipt \<Rightarrow> go_error option" where
  "ValidateAcceptedResponseWithProvider prims encs provider scl record accepted =
     err_of (validateAcceptedResponse prims encs provider scl record accepted False)"

section \<open>Decisions\<close>

definition ValidateDecisionForSuite :: "suite_id \<Rightarrow> IdempotencyIdentity \<Rightarrow> IdempotencyDecision \<Rightarrow> go_error option" where
  "ValidateDecisionForSuite suiteID identity decision =
     bind_err (RequireKnown suiteID) (\<lambda>suite. first_err
       [err_if (idid_TenantID identity = '''' \<or> idid_ClientID identity = '''' \<or> idid_IdempotencyKey identity = '''')
          (New_err ''idempotency: tenant_id, client_id, and idempotency_key are required''),
        err_if (iddec_SchemaVersion decision \<noteq> SchemaIdempotencyDecision)
          (New_err ''idempotency: unexpected decision schema %q''),
        map_option (Wrapf ''idempotency: crypto_suite: %w'')
          (RequireSame (suite_ID suite) [iddec_CryptoSuite decision, rec_CryptoSuite (iddec_Record decision),
             acc_CryptoSuite (iddec_Accepted decision)]),
        err_if (iddec_Identity decision \<noteq> identity)
          (New_err ''idempotency: decision identity does not match lookup identity''),
        err_if (iddec_BatchID decision = '''') (New_err ''idempotency: batch_id is required''),
        err_if (length (iddec_ClaimHash decision) \<noteq> hash_DigestBytes (suite_ClaimHash suite))
          (New_err ''idempotency: claim_hash length is %d, want %d''),
        validateResponseBindings suite identity (iddec_ClaimHash decision) (iddec_Record decision) (iddec_Accepted decision)])"

definition ValidateDecision :: "IdempotencyIdentity \<Rightarrow> IdempotencyDecision \<Rightarrow> go_error option" where
  "ValidateDecision identity decision = ValidateDecisionForSuite INTLV1 identity decision"

definition BuildDecisionWithProvider ::
  "crypto_prims \<Rightarrow> encoders \<Rightarrow> Provider option \<Rightarrow> string \<Rightarrow> SignedClaim \<Rightarrow> ServerRecord \<Rightarrow> AcceptedReceipt \<Rightarrow> IdempotencyDecision res" where
  "BuildDecisionWithProvider prims encs provider batchID scl record accepted =
     bind_res (validateAcceptedResponse prims encs provider scl record accepted True) (\<lambda>(suite, identity, claimHash).
     let decision = \<lparr>iddec_SchemaVersion = SchemaIdempotencyDecision, iddec_CryptoSuite = suite_ID suite,
           iddec_Identity = identity, iddec_ClaimHash = claimHash, iddec_Record = record, iddec_Accepted = accepted,
           iddec_BatchID = batchID\<rparr> in
     checked (ValidateDecisionForSuite (suite_ID suite) identity decision) (Inr decision))"

definition BuildDecision ::
  "crypto_prims \<Rightarrow> encoders \<Rightarrow> string \<Rightarrow> SignedClaim \<Rightarrow> ServerRecord \<Rightarrow> AcceptedReceipt \<Rightarrow> IdempotencyDecision res" where
  "BuildDecision prims encs batchID scl record accepted =
     BuildDecisionWithProvider prims encs (Some DefaultProvider) batchID scl record accepted"

definition Equivalent :: "IdempotencyDecision \<Rightarrow> IdempotencyDecision \<Rightarrow> bool" where
  "Equivalent a b \<longleftrightarrow> a = b"

section \<open>Storage keys\<close>

definition writeStorageKeyComponent :: "bytes \<Rightarrow> string \<Rightarrow> bytes" where
  "writeStorageKeyComponent dst val = dst @ length_prefixed (string_bytes val)"

definition storage_key_input :: "Suite \<Rightarrow> IdempotencyIdentity \<Rightarrow> bytes" where
  "storage_key_input suite identity =
     (let h = string_bytes (dom_IdempotencyStorageKey (suite_Domains suite)) @ [0];
          h = (if suite_ID suite = CNSMV1 then h @ string_bytes (suite_ID suite) @ [0] else h);
          h = writeStorageKeyComponent h (idid_TenantID identity);
          h = writeStorageKeyComponent h (idid_ClientID identity)
      in writeStorageKeyComponent h (idid_IdempotencyKey identity))"

definition StorageKeyForSuite :: "crypto_prims \<Rightarrow> suite_id \<Rightarrow> IdempotencyIdentity \<Rightarrow> string res" where
  "StorageKeyForSuite prims suiteID identity =
     bind_res (RequireKnown suiteID) (\<lambda>suite.
     bind_res (HashFactoryForSuite suiteID (hash_Algorithm (suite_StorageIntegrityHash suite))) (\<lambda>factory.
     Inr (hex_EncodeToString (factory_Sum prims factory (storage_key_input suite identity)))))"

definition StorageKey :: "crypto_prims \<Rightarrow> IdempotencyIdentity \<Rightarrow> string outcome" where
  "StorageKey prims identity =
     (case StorageKeyForSuite prims INTLV1 identity of Inl _ \<Rightarrow> Panics | Inr key \<Rightarrow> Returns (Inr key))"

section \<open>Decisions for accepted records\<close>

definition signature_shape :: "Suite \<Rightarrow> Signature \<Rightarrow> bool" where
  "signature_shape suite s \<longleftrightarrow> sig_Alg s = sigspec_Algorithm (suite_Signature suite) \<and> sig_Signature s \<noteq> [] \<and>
     (suite_ID suite = INTLV1 \<longrightarrow> length (sig_Signature s) = ed25519_SignatureSize)"

lemma suite_cases:
  assumes "Lookup sid = Some suite"
  obtains "sid = INTLV1" "suite = intl_v1_suite" | "sid = CNSMV1" "suite = cn_sm_v1_suite"
  using assms by (auto simp: Lookup_Some_iff)

lemma verifier_Verify_shape:
  assumes "verifier_Verify prims ctx v pk m s = None"
  shows "sig_Alg s = verifier_Algorithm v \<and> sig_Signature s \<noteq> [] \<and>
    (v = ed25519Verifier \<longrightarrow> length (sig_Signature s) = ed25519_SignatureSize)"
  using assms
  by (cases v; cases ctx) (auto simp: verifier_Verify_def ValidateSM2SignatureDER_def split: option.splits if_splits)

lemma provider_Verifier_suite:
  assumes "provider_Verifier p a e = Inr v" "Lookup (provider_Suite p) = Some suite"
  shows "sigspec_Algorithm (suite_Signature suite) = verifier_Algorithm v \<and>
    (suite_ID suite = INTLV1 \<longrightarrow> v = ed25519Verifier)"
  using assms by (cases p) (auto simp: intl_v1_suite_def cn_sm_v1_suite_def split: if_splits)

lemma Verify_sig_shape:
  assumes "Verify_sig prims ctx (Some p) pk m s = None" "Lookup (provider_Suite p) = Some suite"
  shows "signature_shape suite s"
proof -
  obtain v where "provider_Verifier p (pkd_Algorithm pk) (pkd_Encoding pk) = Inr v" "verifier_Verify prims ctx v pk m s = None"
    using assms(1) by (auto simp: Verify_sig_def split: option.splits sum.splits if_splits)
  with verifier_Verify_shape provider_Verifier_suite assms(2) show ?thesis unfolding signature_shape_def by metis
qed

lemma encoding_shape:
  assumes "validateSignatureEncoding prims suite s = None" "Lookup sid = Some suite"
  shows "s \<noteq> [] \<and> (suite_ID suite = INTLV1 \<longrightarrow> length s = ed25519_SignatureSize)"
  using assms(2,1)
  by (cases rule: suite_cases)
    (auto simp: validateSignatureEncoding_def ValidateSM2SignatureDER_def intl_v1_suite_def cn_sm_v1_suite_def check_simps
      split: option.splits if_splits)

lemma Sign_shape:
  assumes "Sign prims ctx sid signer m = Inr s" "Lookup sid = Some suite"
  shows "signature_shape suite s \<and> sig_KeyID s \<noteq> ''''"
proof -
  have "\<exists>sg. signer = Some sg \<and> KeyHandle_Validate (signer_Handle sg) = None \<and> sig_KeyID s = kh_KeyID (signer_Handle sg)"
    using assms by (auto simp: Sign_def signWithSuite_def check_simps split: option.splits if_splits)
  then have "sig_KeyID s \<noteq> ''''" by (auto simp: KeyHandle_Validate_def check_simps)
  moreover have "sig_Alg s = sigspec_Algorithm (suite_Signature suite)" "validateSignatureEncoding prims suite (sig_Signature s) = None"
    using Sign_Inr [OF assms(1)] assms(2) by auto
  ultimately show ?thesis using encoding_shape [OF _ assms(2)] by (simp add: signature_shape_def)
qed

lemma Lookup_digest_sizes:
  "Lookup sid = Some suite \<Longrightarrow> hash_DigestBytes (suite_ClaimHash suite) = 32 \<and> hash_DigestBytes (suite_SignatureHash suite) = 32"
  by (erule suite_cases) (simp_all add: intl_v1_suite_def cn_sm_v1_suite_def sha256_spec_def sm3_spec_def)

lemma validateResponseBindings_None [check_simps]:
  "validateResponseBindings suite identity h record accepted = None \<longleftrightarrow>
     rec_SchemaVersion record = SchemaServerRecord \<and> rec_RecordID record \<noteq> '''' \<and> rec_TenantID record = idid_TenantID identity \<and>
     rec_ClientID record = idid_ClientID identity \<and> rec_KeyID record \<noteq> '''' \<and> 0 < rec_ReceivedAtUnixN record \<and>
     rec_ClaimHash record = h \<and> length (rec_ClientSignatureHash record) = hash_DigestBytes (suite_SignatureHash suite) \<and>
     validateWALPosition (rec_WAL record) = None \<and> acc_SchemaVersion accepted = SchemaAcceptedReceipt \<and>
     acc_RecordID accepted = rec_RecordID record \<and> acc_Status accepted = ''accepted'' \<and> acc_ServerID accepted \<noteq> '''' \<and>
     acc_ReceivedAtUnixN accepted = rec_ReceivedAtUnixN record \<and> acc_WAL accepted = rec_WAL record \<and>
     signature_shape suite (acc_ServerSig accepted) \<and> sig_KeyID (acc_ServerSig accepted) \<noteq> ''''"
  by (simp add: validateResponseBindings_def signature_shape_def first_err_None err_if_None not_le) blast

definition identity_of :: "ClientClaim \<Rightarrow> IdempotencyIdentity" where
  "identity_of c = \<lparr>idid_TenantID = claim_TenantID c, idid_ClientID = claim_ClientID c, idid_IdempotencyKey = claim_IdempotencyKey c\<rparr>"

lemma ValidateDecisionForSuite_None [check_simps]:
  "ValidateDecisionForSuite sid identity d = None \<longleftrightarrow>
     (\<exists>suite. Lookup sid = Some suite \<and> idid_TenantID identity \<noteq> '''' \<and> idid_ClientID identity \<noteq> '''' \<and>
        idid_IdempotencyKey identity \<noteq> '''' \<and> iddec_SchemaVersion d = SchemaIdempotencyDecision \<and>
        iddec_CryptoSuite d = sid \<and> rec_CryptoSuite (iddec_Record d) = sid \<and> acc_CryptoSuite (iddec_Accepted d) = sid \<and>
        iddec_Identity d = identity \<and> iddec_BatchID d \<noteq> '''' \<and> length (iddec_ClaimHash d) = 32 \<and>
        validateResponseBindings suite identity (iddec_ClaimHash d) (iddec_Record d) (iddec_Accepted d) = None)"
  by (cases "Lookup sid")
    (auto simp: ValidateDecisionForSuite_def RequireKnown_def first_err_None err_if_None RequireSame_None Lookup_suite_ID Lookup_digest_sizes
      simp del: validateResponseBindings_None)

lemma accepted_by_parts:
  assumes a: "accepted_by prims encs e pk scl record accepted"
    and suite: "Lookup (provider_Suite (cryptoProvider e)) = Some suite"
  obtains ctx verified ks ch sh pos t sig where
    "VerifyWithProvider prims encs ctx scl pk (Some (cryptoProvider e)) = Inr verified"
    "HashBytesWithProvider prims (Some (cryptoProvider e)) (hash_Algorithm (suite_ClaimHash suite)) (ver_ClaimCBOR verified) = Inr ch"
    "HashBytesWithProvider prims (Some (cryptoProvider e)) (hash_Algorithm (suite_SignatureHash suite)) (sig_Signature (signed_Signature scl)) = Inr sh"
    "record = server_record e scl verified ks ch sh pos t"
    "accepted = \<lparr>acc_SchemaVersion = SchemaAcceptedReceipt, acc_CryptoSuite = provider_Suite (cryptoProvider e),
       acc_RecordID = ver_RecordID verified, acc_Status = ''accepted'', acc_ServerID = eng_ServerID e,
       acc_ReceivedAtUnixN = t, acc_WAL = pos, acc_ServerSig = sig\<rparr>"
    "signature_shape suite sig" "sig_KeyID sig \<noteq> ''''"
proof -
  obtain ctx ctx' t pos verified ks ch sh where
    v: "resolveClientKey prims e scl t = Inr (pk, ks)" "validateSigned prims encs e ctx scl t = Inr (verified, ks, ch, sh)"
    and b: "buildAccepted prims encs e ctx' scl verified ks ch sh pos t = Inr (record, accepted)"
    using a by (auto simp: accepted_by_def)
  have r: "RequireAvailable (provider_Suite (cryptoProvider e)) = Inr suite" using suite by (simp add: RequireAvailable_Inr)
  have verified: "VerifyWithProvider prims encs ctx scl pk (Some (cryptoProvider e)) = Inr verified"
    "HashBytesWithProvider prims (Some (cryptoProvider e)) (hash_Algorithm (suite_ClaimHash suite)) (ver_ClaimCBOR verified) = Inr ch"
    "HashBytesWithProvider prims (Some (cryptoProvider e)) (hash_Algorithm (suite_SignatureHash suite)) (sig_Signature (signed_Signature scl)) = Inr sh"
    using v unfolding validateSigned_def Let_def r by (auto simp: check_simps)
  obtain sg input sig where sign: "Sign prims ctx' (provider_Suite (cryptoProvider e)) (Some sg) input = Inr sig"
    and rec: "record = server_record e scl verified ks ch sh pos t"
    and acc: "accepted = \<lparr>acc_SchemaVersion = SchemaAcceptedReceipt, acc_CryptoSuite = provider_Suite (cryptoProvider e),
       acc_RecordID = ver_RecordID verified, acc_Status = ''accepted'', acc_ServerID = eng_ServerID e,
       acc_ReceivedAtUnixN = t, acc_WAL = pos, acc_ServerSig = sig\<rparr>"
    using b by (auto simp: buildAccepted_def Let_def check_simps SignAcceptedWithProvider_def server_record_def)
  show ?thesis using that [OF verified rec acc] Sign_shape [OF sign suite] by blast
qed

text \<open>What \<open>BuildDecisionWithProvider\<close> asks of an accepted response beyond its being accepted.\<close>

definition decision_ready :: "SignedClaim \<Rightarrow> ServerRecord \<Rightarrow> AcceptedReceipt \<Rightarrow> bool" where
  "decision_ready scl record accepted \<longleftrightarrow>
     claim_IdempotencyKey (signed_Claim scl) \<noteq> '''' \<and> claim_KeyID (signed_Claim scl) \<noteq> '''' \<and> acc_ServerID accepted \<noteq> '''' \<and>
     0 < rec_ReceivedAtUnixN record \<and> validateWALPosition (rec_WAL record) = None"

lemma accepted_response_valid:
  assumes a: "accepted_by prims encs e pk scl record accepted"
    and suite: "Lookup (provider_Suite (cryptoProvider e)) = Some suite"
  shows "validateAcceptedResponse prims encs (Some (cryptoProvider e)) scl record accepted True = Inr r \<longleftrightarrow>
    decision_ready scl record accepted \<and> r = (suite, identity_of (signed_Claim scl), rec_ClaimHash record)"
proof -
  obtain ctx verified ks ch sh pos t sig where p:
    "VerifyWithProvider prims encs ctx scl pk (Some (cryptoProvider e)) = Inr verified"
    "HashBytesWithProvider prims (Some (cryptoProvider e)) (hash_Algorithm (suite_ClaimHash suite)) (ver_ClaimCBOR verified) = Inr ch"
    "HashBytesWithProvider prims (Some (cryptoProvider e)) (hash_Algorithm (suite_SignatureHash suite)) (sig_Signature (signed_Signature scl)) = Inr sh"
    "record = server_record e scl verified ks ch sh pos t"
    "accepted = \<lparr>acc_SchemaVersion = SchemaAcceptedReceipt, acc_CryptoSuite = provider_Suite (cryptoProvider e),
       acc_RecordID = ver_RecordID verified, acc_Status = ''accepted'', acc_ServerID = eng_ServerID e,
       acc_ReceivedAtUnixN = t, acc_WAL = pos, acc_ServerSig = sig\<rparr>"
    "signature_shape suite sig" "sig_KeyID sig \<noteq> ''''"
    by (rule accepted_by_parts [OF a suite])
  obtain input where c: "signed_SchemaVersion scl = SchemaSignedClaim" "sig_KeyID (signed_Signature scl) = claim_KeyID (signed_Claim scl)"
      "claim_ok (claim_CryptoSuite (signed_Claim scl)) (signed_Claim scl)" "cbor_ClientClaim encs (signed_Claim scl) = Inr (ver_ClaimCBOR verified)"
      "RecordIDWithProvider prims encs (Some (cryptoProvider e)) (ver_ClaimCBOR verified) (signed_Signature scl) = Inr (ver_RecordID verified)"
      "Verify_sig prims ctx (Some (cryptoProvider e)) pk input (signed_Signature scl) = None"
    using p(1) unfolding VerifyWithProvider_Inr by (auto simp: claim_ok_def simp del: RecordID_Inr)
  have id: "ver_RecordID verified \<noteq> ''''" using c(5) by (auto simp: RecordID_Inr)
  have shape: "signature_shape suite (signed_Signature scl)" by (rule Verify_sig_shape [OF c(6) suite])
  have can: "Canonical encs (signed_Claim scl) = Inr (ver_ClaimCBOR verified)" using c by (simp add: Canonical_Inr)
  have len: "length sh = 32" using p(3) by (rule HashBytesWithProvider_length)
  have r: "RequireAvailable (provider_Suite (cryptoProvider e)) = Inr suite" using suite by (simp add: RequireAvailable_Inr)
  show ?thesis
    using p(6,7) id shape len c(1,2) Lookup_digest_sizes [OF suite]
    by (auto simp: validateAcceptedResponse_def r can p(2-5) c(5) server_record_def checked_Inr first_err_None err_if_None
        decision_ready_def identity_of_def signature_shape_def validateResponseBindings_None Let_def)
qed

definition built_decision :: "suite_id \<Rightarrow> string \<Rightarrow> SignedClaim \<Rightarrow> ServerRecord \<Rightarrow> AcceptedReceipt \<Rightarrow> IdempotencyDecision" where
  "built_decision sid batchID scl record accepted =
     \<lparr>iddec_SchemaVersion = SchemaIdempotencyDecision, iddec_CryptoSuite = sid, iddec_Identity = identity_of (signed_Claim scl),
      iddec_ClaimHash = rec_ClaimHash record, iddec_Record = record, iddec_Accepted = accepted, iddec_BatchID = batchID\<rparr>"

lemma validateAcceptedResponse_bindings:
  "validateAcceptedResponse prims encs provider scl record accepted b = Inr (suite, identity, h) \<Longrightarrow>
   validateResponseBindings suite identity h record accepted = None"
  unfolding validateAcceptedResponse_def bind_res_Inr checked_Inr Let_def by auto

lemma accepted_decision_valid:
  assumes acc: "accepted_by prims encs e pk scl record accepted"
    and suite: "Lookup (provider_Suite (cryptoProvider e)) = Some suite" and ready: "decision_ready scl record accepted"
  shows "ValidateDecisionForSuite sid (identity_of (signed_Claim scl))
      (built_decision (provider_Suite (cryptoProvider e)) batchID scl record accepted) = None \<longleftrightarrow>
    sid = provider_Suite (cryptoProvider e) \<and> claim_TenantID (signed_Claim scl) \<noteq> '''' \<and> claim_ClientID (signed_Claim scl) \<noteq> '''' \<and> batchID \<noteq> ''''"
proof -
  obtain ctx verified ks ch sh pos t sig where p:
    "VerifyWithProvider prims encs ctx scl pk (Some (cryptoProvider e)) = Inr verified"
    "HashBytesWithProvider prims (Some (cryptoProvider e)) (hash_Algorithm (suite_ClaimHash suite)) (ver_ClaimCBOR verified) = Inr ch"
    "HashBytesWithProvider prims (Some (cryptoProvider e)) (hash_Algorithm (suite_SignatureHash suite)) (sig_Signature (signed_Signature scl)) = Inr sh"
    "record = server_record e scl verified ks ch sh pos t"
    "accepted = \<lparr>acc_SchemaVersion = SchemaAcceptedReceipt, acc_CryptoSuite = provider_Suite (cryptoProvider e),
       acc_RecordID = ver_RecordID verified, acc_Status = ''accepted'', acc_ServerID = eng_ServerID e,
       acc_ReceivedAtUnixN = t, acc_WAL = pos, acc_ServerSig = sig\<rparr>"
    "signature_shape suite sig" "sig_KeyID sig \<noteq> ''''"
    by (rule accepted_by_parts [OF acc suite])
  have "validateResponseBindings suite (identity_of (signed_Claim scl)) (rec_ClaimHash record) record accepted = None"
    using accepted_response_valid [OF acc suite] ready by (intro validateAcceptedResponse_bindings) blast
  moreover have "rec_CryptoSuite record = provider_Suite (cryptoProvider e)" "acc_CryptoSuite accepted = provider_Suite (cryptoProvider e)"
    "length (rec_ClaimHash record) = 32"
    using HashBytesWithProvider_length [OF p(2)] by (simp_all add: p(4,5) server_record_def)
  moreover have "claim_IdempotencyKey (signed_Claim scl) \<noteq> ''''" using ready by (simp add: decision_ready_def)
  ultimately show ?thesis
    unfolding ValidateDecisionForSuite_None by (auto simp: built_decision_def identity_of_def suite)
qed

section \<open>Properties\<close>

text \<open>
  C32. A durable decision can be built for an accepted record exactly when its claim names a tenant, a
  client, a key and an idempotency key, the batch and the server have names, and the time and the position
  in the write-ahead log are valid. The decision carries the response unchanged and passes the validation
  of its own suite. \<open>ValidateDecision\<close>, which the submission path applies to a decision it reads
  back, accepts it exactly on a server of the international suite: a server of the Chinese suite rejects
  every decision it has stored.
\<close>

theorem accepted_decision_iff:
  assumes acc: "accepted_by prims encs e pk scl record accepted"
    and sid: "sid = provider_Suite (cryptoProvider e)" and d: "d = built_decision sid batchID scl record accepted"
  shows "(BuildDecisionWithProvider prims encs (Some (cryptoProvider e)) batchID scl record accepted = Inr d' \<longleftrightarrow>
      d' = d \<and> decision_ready scl record accepted \<and> claim_TenantID (signed_Claim scl) \<noteq> '''' \<and>
      claim_ClientID (signed_Claim scl) \<noteq> '''' \<and> batchID \<noteq> '''') \<and>
    (BuildDecisionWithProvider prims encs (Some (cryptoProvider e)) batchID scl record accepted = Inr d' \<longrightarrow>
      ValidateDecisionForSuite sid (identity_of (signed_Claim scl)) d = None \<and>
      (ValidateDecision (identity_of (signed_Claim scl)) d = None \<longleftrightarrow> sid = INTLV1))"
proof -
  obtain suite where suite: "Lookup (provider_Suite (cryptoProvider e)) = Some suite" using provider_suite_known by blast
  have iff: "BuildDecisionWithProvider prims encs (Some (cryptoProvider e)) batchID scl record accepted = Inr d' \<longleftrightarrow>
      d' = d \<and> decision_ready scl record accepted \<and> claim_TenantID (signed_Claim scl) \<noteq> '''' \<and>
      claim_ClientID (signed_Claim scl) \<noteq> '''' \<and> batchID \<noteq> ''''" for d'
    using accepted_decision_valid [OF acc suite, of sid batchID]
    unfolding BuildDecisionWithProvider_def bind_res_Inr accepted_response_valid [OF acc suite] d sid
    by (auto simp: checked_Inr Lookup_suite_ID [OF suite] Let_def built_decision_def)
  show ?thesis
    using iff accepted_decision_valid [OF acc suite, of _ batchID] unfolding ValidateDecision_def d sid by auto
qed

lemma sample_ready: "sample_accept = Inr (r, a) \<Longrightarrow> decision_ready sample_signed r a"
  by (auto simp: sample_accept_def bind_res_Inr buildAccepted_def Let_def server_record_def SignAcceptedWithProvider_def checked_Inr
      decision_ready_def validateWALPosition_def sample_signed_def sample_claim_def sample_engine_def)

theorem accepted_decision_iff_witness:
  "\<exists>r a d. sample_accept = Inr (r, a) \<and>
     BuildDecisionWithProvider sample_prims sample_encoders (Some intlV1Provider) ''b'' sample_signed r a = Inr d \<and>
     ValidateDecision (identity_of sample_claim) d = None"
proof -
  obtain r a where s: "sample_accept = Inr (r, a)" by (rule sample_accept_Inr)
  let ?d = "built_decision INTLV1 ''b'' sample_signed r a"
  have ids: "signed_Claim sample_signed = sample_claim" "claim_TenantID sample_claim \<noteq> ''''" "claim_ClientID sample_claim \<noteq> ''''"
    by (simp_all add: sample_signed_def sample_claim_def)
  have "BuildDecisionWithProvider sample_prims sample_encoders (Some intlV1Provider) ''b'' sample_signed r a = Inr ?d"
    "ValidateDecision (identity_of sample_claim) ?d = None"
    using accepted_decision_iff [OF sample_accepted_by [OF s] refl refl, of "''b''" ?d] sample_ready [OF s] ids by simp_all
  with s show ?thesis by (intro exI [of _ r] exI [of _ a] exI [of _ ?d]) simp
qed

text \<open>
  C33. Distinct identities are stored under distinct keys, whatever bytes their components hold, unless the two
  hashed inputs are a collision of the suite's hash function.
\<close>

theorem storage_keys_distinct:
  assumes keys: "StorageKeyForSuite prims sid i = Inr k" "StorageKeyForSuite prims sid j = Inr k" and "i \<noteq> j"
    and short: "\<forall>s \<in> {idid_TenantID i, idid_ClientID i, idid_IdempotencyKey i, idid_TenantID j, idid_ClientID j, idid_IdempotencyKey j}.
      length s < 2 ^ 64"
  shows "\<exists>suite f. RequireKnown sid = Inr suite \<and> storage_key_input suite i \<noteq> storage_key_input suite j \<and>
    factory_Sum prims f (storage_key_input suite i) = factory_Sum prims f (storage_key_input suite j)"
proof -
  obtain suite f where s: "RequireKnown sid = Inr suite"
    "k = hex_EncodeToString (factory_Sum prims f (storage_key_input suite i))"
    "k = hex_EncodeToString (factory_Sum prims f (storage_key_input suite j))"
    using keys by (auto simp: StorageKeyForSuite_def bind_res_Inr)
  have "storage_key_input suite i \<noteq> storage_key_input suite j"
  proof
    assume "storage_key_input suite i = storage_key_input suite j"
    then have e: "length_prefixed (string_bytes (idid_TenantID i)) @ length_prefixed (string_bytes (idid_ClientID i)) @
        length_prefixed (string_bytes (idid_IdempotencyKey i)) @ [] =
      length_prefixed (string_bytes (idid_TenantID j)) @ length_prefixed (string_bytes (idid_ClientID j)) @
        length_prefixed (string_bytes (idid_IdempotencyKey j)) @ []"
      by (auto simp: storage_key_input_def writeStorageKeyComponent_def Let_def split: if_splits)
    have t: "idid_TenantID i = idid_TenantID j" using length_prefixed_inj [OF e] short by (simp add: string_bytes_inj)
    have e': "length_prefixed (string_bytes (idid_ClientID i)) @ length_prefixed (string_bytes (idid_IdempotencyKey i)) @ [] =
        length_prefixed (string_bytes (idid_ClientID j)) @ length_prefixed (string_bytes (idid_IdempotencyKey j)) @ []"
      using length_prefixed_inj [OF e] short by simp
    have c: "idid_ClientID i = idid_ClientID j" using length_prefixed_inj [OF e'] short by (simp add: string_bytes_inj)
    have e'': "length_prefixed (string_bytes (idid_IdempotencyKey i)) @ [] = length_prefixed (string_bytes (idid_IdempotencyKey j)) @ []"
      using length_prefixed_inj [OF e'] short by simp
    have "idid_IdempotencyKey i = idid_IdempotencyKey j" using length_prefixed_inj [OF e''] short by (simp add: string_bytes_inj)
    with t c \<open>i \<noteq> j\<close> show False by (cases i; cases j) simp
  qed
  moreover have "factory_Sum prims f (storage_key_input suite i) = factory_Sum prims f (storage_key_input suite j)"
    using s(2,3) by (intro hex_EncodeToString_inj) simp
  ultimately show ?thesis using s(1) by (intro exI [of _ suite] exI [of _ f]) simp
qed

theorem storage_keys_distinct_witness:
  "\<exists>suite f. RequireKnown INTLV1 = Inr suite \<and>
     storage_key_input suite (identity_of sample_claim) \<noteq> storage_key_input suite (identity_of (sample_claim\<lparr>claim_IdempotencyKey := ''z''\<rparr>)) \<and>
     factory_Sum sample_prims f (storage_key_input suite (identity_of sample_claim)) =
     factory_Sum sample_prims f (storage_key_input suite (identity_of (sample_claim\<lparr>claim_IdempotencyKey := ''z''\<rparr>)))"
proof -
  let ?i = "identity_of sample_claim" and ?j = "identity_of (sample_claim\<lparr>claim_IdempotencyKey := ''z''\<rparr>)"
  let ?k = "hex_EncodeToString (map (word_of_nat o of_char) (take 32 ''trustdb.idempotency-storage-key.v1''))"
  have "StorageKeyForSuite sample_prims INTLV1 ?i = Inr ?k" "StorageKeyForSuite sample_prims INTLV1 ?j = Inr ?k" by code_simp+
  moreover have "?i \<noteq> ?j" by (simp add: identity_of_def sample_claim_def)
  ultimately show ?thesis by (rule storage_keys_distinct) (simp add: identity_of_def sample_claim_def)
qed

end
