(* ===== verification/Spec2Isabelle.thy ===== *)
theory Spec2Isabelle
  imports Merkle_Correct Anchor_Properties L5_Coverage Pagination Cborx Model_Suite Receipts Content_Binding Idempotency
begin

text \<open>
  TrustDB (\<open>src/\<close>, Go) accepts signed claims about content, commits them in batches to Merkle trees,
  appends the batch roots to one global transparency log, anchors signed tree heads of that log in outside
  systems, and hands out proof bundles that an offline verifier checks up to five levels. This
  library models the parts that decide what is evidence and what is not, and proves them correct.

  \<^bold>\<open>The parts and how they fit.\<close> A client signs a claim (\<open>claim\<close>). The local engine
  (\<open>app/local.go\<close>) verifies it, writes it ahead, and signs an accepted receipt (\<open>receipt\<close>). A batch of
  accepted records becomes a Merkle tree (\<open>merkle\<close>) with one committed receipt and one audit path per record. The
  batch root is appended to the global log (\<open>globallog\<close>) held by one of three stores (\<open>proofstore\<close>), which signs a
  tree head for every append and answers inclusion and consistency proofs. Tree heads are scheduled for anchoring
  (\<open>anchorschedule\<close>), covered levels are tracked by a checkpoint (\<open>l5coverage\<close>), and \<open>verify\<close>
  checks the whole chain. Every object carries a cryptographic suite (\<open>cryptosuite\<close>, \<open>trustcrypto\<close>,
  \<open>modelsuite\<close>).

  \<^bold>\<open>Conventions.\<close> A struct is a record whose fields carry a short prefix, an error is a value of
  \<^theory_text>\<open>go_error\<close> with the wrapping of \<open>fmt.Errorf\<close> and \<open>trusterr\<close> (message arguments are left out), a
  fallible function returns \<^theory_text>\<open>'a res\<close> (\<open>Inl\<close> the error), \<open>[]byte\<close> is a list of 8-bit words, \<open>uint64\<close> is a 64-bit word, and
  \<open>int64\<close> values are integers that wrap where the code computes with them. Where a function may fail to return or
  may panic, its model returns \<^theory_text>\<open>'a run\<close> (theory \<open>Go_Runs\<close>), with \<open>None\<close> for a run that never ends. Code outside
  \<open>src/\<close> is a parameter: hash functions, Ed25519 and SM2 (record \<open>crypto_prims\<close>), the CBOR encoders
  (record \<open>encoders\<close>), JSON decoding, the FISCO proof check, storage engines as the outcomes of their
  commits and writes. Each statement that relies on one of them says so in a hypothesis.

  \<^bold>\<open>Foundations.\<close> \<open>Trust_Prelude\<close> holds the types and the checking combinators with their collection
  \<open>check_simps\<close>; \<open>Go_Errors\<close> is \<open>trusterr\<close> and \<open>verify/stage.go\<close>; \<open>Go_Runs\<close> the runs; \<open>Crypto_Suite\<close> is
  \<open>cryptosuite/registry.go\<close>; \<open>Trust_Crypto\<close> is \<open>trustcrypto\<close>; \<open>Cborx\<close> is \<open>cborx\<close>; \<open>Data_Model\<close> is \<open>model\<close>;
  \<open>Model_Suite\<close> is \<open>modelsuite\<close>; \<open>Encodings\<close> has the base64, base32, hexadecimal and length-prefix encodings with
  their injectivity. Shown: which namespace transitions are accepted, that signature inputs determine suite, purpose and
  payload, that the CBOR reader accepts only whole inputs.

  \<^bold>\<open>Merkle trees.\<close> \<open>Rfc6962\<close> is the reference definition of tree hash, audit path and consistency
  proof. \<open>Merkle_Tree\<close> is \<open>merkle\<close>, with its node storage and index arithmetic; \<open>Merkle_Correct\<close> shows that it
  computes the reference tree, that its proofs verify, that an accepted proof binds the leaf or exhibits a collision, the
  length of the paths, and for which inputs the verifier returns.

  \<^bold>\<open>Claims, receipts, proof levels.\<close> \<open>Claims\<close> and \<open>Receipts\<close> are \<open>claim\<close> and \<open>receipt\<close> over the shared
  contract of \<open>Signed_Objects\<close> (a locale for objects that are encoded, framed and signed, interpreted for claims and
  both receipts); \<open>Proof_Level\<close> is \<open>prooflevel\<close>. Shown: signing then verifying succeeds, record identifiers bind claim
  and signature, the level order is the one of the evidence.

  \<^bold>\<open>Global log.\<close> \<open>Global_Log\<close> is \<open>globallog/service.go\<close> over an abstract store; \<open>Store_Marker\<close>, \<open>Tables\<close>
  and \<open>Log_Stores\<close> are the store operations of Pebble, TiKV and the file store. \<open>Log_Frontier\<close>, \<open>Log_Correct\<close>
  and \<open>Log_Append\<close> relate the stored frontier, nodes and tree heads to the list of leaves; \<open>Log_Backends\<close> interprets
  the store contract for each back end; \<open>Log_Properties\<close> shows that appends extend the log by exactly the missing roots,
  that concurrent TiKV writers never lose an acknowledged root, that inclusion and consistency proofs verify, and what
  a torn write of the file store does.

  \<^bold>\<open>Anchoring.\<close> \<open>Anchor_Schedule\<close> is \<open>anchorschedule\<close>, \<open>Transition_Systems\<close> the generic step systems,
  \<open>Anchor_Invariants\<close> and \<open>Anchor_Properties\<close> the invariant of a schedule and what runs of it keep;
  \<open>L5_Coverage\<close> is \<open>l5coverage\<close>; \<open>Ots_Timestamp\<close> is \<open>anchor/ots_parse.go\<close>, shown equivalent to a grammar of
  timestamp trees. Its recursion is bounded by the parser's own depth and operation limits, so no fuel is needed.

  \<^bold>\<open>Ordering.\<close> \<open>Comparators\<close> and \<open>Pagination\<close> are the comparison functions and cursors of \<open>model\<close>, with
  the exactness of paging.

  \<^bold>\<open>Verification and the whole chain.\<close> \<open>Verify_Bundle\<close> is \<open>verify/verify.go\<close> with the anchor identifiers
  of \<open>anchor\<close>; \<open>Local_Engine\<close> is the part of \<open>app/local.go\<close> that validates, accepts and commits. \<open>Evidence_Chain\<close>
  composes them: a bundle of a committed batch verifies to the third level, and with the inclusion proof the log gives
  to the fourth. \<open>Content_Binding\<close> shows that a verified record identifier fixes claim and content.
  \<open>Idempotency\<close> is \<open>idempotency/decision.go\<close>.

  \<^bold>\<open>Bounds.\<close> The optimistic retry of an append is a bounded loop of the code and is modelled with its own
  bound. Recursions over tree ranges terminate on their width. The verifier's search for a split point does not
  terminate above \<open>2 ^ 62\<close> leaves and is a partial function there, as in the code.

  \<^bold>\<open>Not modelled.\<close> Network and process code (HTTP, gRPC, NATS, the command line, the desktop client),
  storage engines below the operations listed, encryption of key files, hardware signers, FISCO BCOS evidence beyond
  the result of its check, configuration, observability, and the services that only schedule the modelled operations.
\<close>

end
